theory Spec2Isabelle
  imports Complex_Main
begin

section \<open>Scalars, errors and containers\<close>

text \<open>
  The template parameter \<open>Scalar\<close> (double in the test programs) and the \<open>Evaluation\<close>
  type are modelled by the exact reals: every arithmetic expression of the source is
  written down with the same operands in the same order, and rounding is not modelled.
  A division by zero, which IEEE arithmetic answers with an infinity or a NaN, is
  written out as a branch wherever the control flow of the source depends on it.

  The exceptions thrown with \<open>OPM_THROW\<close> are values of the type \<open>error\<close>; a failing
  \<open>assert\<close> is the value \<open>AssertionFailure\<close>.
\<close>

datatype error =
    RuntimeError string
  | LogicError string
  | NumericalIssue string real
  | AssertionFailure

text \<open>\<open>std::vector::resize\<close>: keep the first \<open>n\<close> elements, pad with value-initialised ones.\<close>

definition resize :: "nat \<Rightarrow> 'a \<Rightarrow> 'a list \<Rightarrow> 'a list" where
  "resize n d xs = take n xs @ replicate (n - length xs) d"

text \<open>
  \<open>std::array<Scalar, 3>\<close>: three scalars, read and written by an index. The
  source only ever uses the indices 0, 1 and 2 (an index from 3 on is outside the array).
\<close>

type_synonym array3 = "real \<times> real \<times> real"

fun at3 :: "array3 \<Rightarrow> nat \<Rightarrow> real" where
  "at3 (a, b, c) i = (if i = 0 then a else if i = 1 then b else c)"

fun set3 :: "array3 \<Rightarrow> nat \<Rightarrow> real \<Rightarrow> array3" where
  "set3 (a, b, c) i v = (if i = 0 then (v, b, c) else if i = 1 then (a, v, c) else (a, b, v))"

section \<open>BlackOilFluidSystem.hpp: reference densities and molar masses\<close>

text \<open>
  The static members of \<open>BlackOil<Scalar>\<close> that \<open>initBegin\<close>, \<open>setReferenceDensities\<close>
  and \<open>initEnd\<close> write. The three shared pointers to the PVT multiplexers are not
  touched by these functions and are left out. A member \<open>name_\<close> of the source is
  the field \<open>name_m\<close> here, since an Isabelle name cannot end in an underscore.
\<close>

record BlackOil =
  enableDissolvedGas_m :: bool
  enableVaporizedOil_m :: bool
  referenceDensity_m :: "array3 list"
  molarMass_m :: "array3 list"

definition waterPhaseIdx :: nat where "waterPhaseIdx = 0"
definition oilPhaseIdx :: nat where "oilPhaseIdx = 1"
definition gasPhaseIdx :: nat where "gasPhaseIdx = 2"

definition oilCompIdx :: nat where "oilCompIdx = 0"
definition waterCompIdx :: nat where "waterCompIdx = 1"
definition gasCompIdx :: nat where "gasCompIdx = 2"

definition surfaceTemperature :: real where
  "surfaceTemperature = 273.15 + 15.56"

definition surfacePressure :: real where
  "surfacePressure = 101325.0"

text \<open>\<open>resizeArrays_\<close> of the source.\<close>

definition resizeArrays :: "nat \<Rightarrow> BlackOil \<Rightarrow> BlackOil" where
  "resizeArrays numRegions s =
     s\<lparr> molarMass_m := resize numRegions (0, 0, 0) (molarMass_m s),
        referenceDensity_m := resize numRegions (0, 0, 0) (referenceDensity_m s) \<rparr>"

definition initBegin :: "nat \<Rightarrow> BlackOil \<Rightarrow> BlackOil" where
  "initBegin numPvtRegions s =
     resizeArrays numPvtRegions
       (s\<lparr> enableDissolvedGas_m := True, enableVaporizedOil_m := False \<rparr>)"

text \<open>
  \<open>setReferenceDensities(rhoOil, rhoWater, rhoGas, regionIdx)\<close>. The source indexes the
  vector unchecked; the theorems below only call it with an index below its size.
\<close>

definition setReferenceDensities :: "real \<Rightarrow> real \<Rightarrow> real \<Rightarrow> nat \<Rightarrow> BlackOil \<Rightarrow> BlackOil" where
  "setReferenceDensities rhoOil rhoWater rhoGas regionIdx s =
     (let r1 = (referenceDensity_m s)
                 [regionIdx := set3 (referenceDensity_m s ! regionIdx) oilPhaseIdx rhoOil];
          r2 = r1[regionIdx := set3 (r1 ! regionIdx) waterPhaseIdx rhoWater];
          r3 = r2[regionIdx := set3 (r2 ! regionIdx) gasPhaseIdx rhoGas]
      in s\<lparr> referenceDensity_m := r3 \<rparr>)"

text \<open>
  The body of the loop of \<open>initEnd\<close> for one region. \<open>R\<close> is the ideal gas constant
  \<open>Opm::Constants<Scalar>::R\<close>, whose header is not among the sources: it is a parameter.
\<close>

definition initEndBody :: "real \<Rightarrow> nat \<Rightarrow> BlackOil \<Rightarrow> BlackOil" where
  "initEndBody R regionIdx s =
     (let m1 = (molarMass_m s)[regionIdx := set3 (molarMass_m s ! regionIdx) waterCompIdx (18 / 1000)];
          p = surfacePressure;
          T = surfaceTemperature;
          rho_g = at3 (referenceDensity_m s ! 0) gasPhaseIdx;
          m2 = m1[regionIdx := set3 (m1 ! regionIdx) gasCompIdx (R * T * rho_g / p)];
          m3 = m2[regionIdx := set3 (m2 ! regionIdx) oilCompIdx (175 / 1000)]
      in s\<lparr> molarMass_m := m3 \<rparr>)"

function initEndLoop :: "real \<Rightarrow> nat \<Rightarrow> BlackOil \<Rightarrow> BlackOil" where
  "initEndLoop R regionIdx s =
     (if regionIdx < length (molarMass_m s)
      then initEndLoop R (Suc regionIdx) (initEndBody R regionIdx s)
      else s)"
  by pat_completeness auto
termination
  by (relation "measure (\<lambda>(R, regionIdx, s). length (molarMass_m s) - regionIdx)")
     (auto simp: initEndBody_def Let_def)

declare initEndLoop.simps [simp del]

definition initEnd :: "real \<Rightarrow> BlackOil \<Rightarrow> BlackOil" where
  "initEnd R s = initEndLoop R 0 s"

definition molarMass :: "BlackOil \<Rightarrow> nat \<Rightarrow> nat \<Rightarrow> real" where
  "molarMass s compIdx regionIdx = at3 (molarMass_m s ! regionIdx) compIdx"

definition referenceDensity :: "BlackOil \<Rightarrow> nat \<Rightarrow> nat \<Rightarrow> real" where
  "referenceDensity s phaseIdx regionIdx = at3 (referenceDensity_m s ! regionIdx) phaseIdx"

text \<open>The static vectors before \<open>initBegin\<close>: empty.\<close>

definition blackOilStatics :: BlackOil where
  "blackOilStatics =
     \<lparr> enableDissolvedGas_m = False, enableVaporizedOil_m = False,
       referenceDensity_m = [], molarMass_m = [] \<rparr>"

section \<open>OilPvtMultiplexer.hpp\<close>

datatype OilPvtApproach = NoOilPvt | LiveOilPvt | DeadOilPvt | ConstantCompressibilityOilPvt

text \<open>
  The three implementation classes (\<open>LiveOilPvt.hpp\<close>, \<open>DeadOilPvt.hpp\<close>,
  \<open>ConstantCompressibilityOilPvt.hpp\<close>) are not among the sources. An object that
  \<open>new\<close> creates is represented by its class; the free store is the list of the objects
  allocated so far, and the address of an object is its position in that list.
\<close>

datatype OilPvtObject = LiveOilPvtObject | DeadOilPvtObject | ConstantCompressibilityOilPvtObject

type_synonym heap = "OilPvtObject list"

definition new :: "OilPvtObject \<Rightarrow> heap \<Rightarrow> nat \<times> heap" where
  "new obj h = (length h, h @ [obj])"

text \<open>
  \<open>realOilPvt_\<close> is a \<open>void *\<close> that the constructor does not initialise: \<open>None\<close> until
  \<open>setApproach\<close> assigns it.
\<close>

record OilPvtMultiplexer =
  approach_m :: OilPvtApproach
  realOilPvt_m :: "nat option"

definition OilPvtMultiplexer_ctor :: OilPvtMultiplexer where
  "OilPvtMultiplexer_ctor = \<lparr> approach_m = NoOilPvt, realOilPvt_m = None \<rparr>"

definition setApproach ::
  "OilPvtApproach \<Rightarrow> heap \<times> OilPvtMultiplexer \<Rightarrow> error + heap \<times> OilPvtMultiplexer" where
  "setApproach appr st =
     (case st of (h, this) \<Rightarrow>
       (case appr of
          ConstantCompressibilityOilPvt \<Rightarrow>
            (case new ConstantCompressibilityOilPvtObject h of (a, h') \<Rightarrow>
               Inr (h', this\<lparr> realOilPvt_m := Some a, approach_m := appr \<rparr>))
        | DeadOilPvt \<Rightarrow>
            (case new DeadOilPvtObject h of (a, h') \<Rightarrow>
               Inr (h', this\<lparr> realOilPvt_m := Some a, approach_m := appr \<rparr>))
        | LiveOilPvt \<Rightarrow>
            (case new LiveOilPvtObject h of (a, h') \<Rightarrow>
               Inr (h', this\<lparr> realOilPvt_m := Some a, approach_m := appr \<rparr>))
        | NoOilPvt \<Rightarrow> Inl (LogicError ''Not implemented: Oil PVT of this deck!'')))"

definition approach :: "OilPvtMultiplexer \<Rightarrow> OilPvtApproach" where
  "approach this = approach_m this"

text \<open>\<open>getRealPvt\<close>: the object that \<open>realOilPvt_\<close> points to.\<close>

definition getRealPvt :: "heap \<times> OilPvtMultiplexer \<Rightarrow> OilPvtObject" where
  "getRealPvt st = (case st of (h, this) \<Rightarrow> h ! the (realOilPvt_m this))"

text \<open>
  The macro \<open>OPM_OIL_PVT_MULTIPLEXER_CALL(codeToCall)\<close> inside a \<open>const\<close> query whose
  \<open>codeToCall\<close> is \<open>return pvtImpl.method(...)\<close>. The methods of the implementation
  classes are parameters, functions of the implementation object: they are called
  through a reference to a constant object. The result is paired with the free store
  and the multiplexer as the call leaves them.
\<close>

definition OPM_OIL_PVT_MULTIPLEXER_CALL ::
  "(OilPvtObject \<Rightarrow> real) \<Rightarrow> heap \<times> OilPvtMultiplexer
     \<Rightarrow> (error + real) \<times> (heap \<times> OilPvtMultiplexer)" where
  "OPM_OIL_PVT_MULTIPLEXER_CALL codeToCall st =
     (case approach_m (snd st) of
        ConstantCompressibilityOilPvt \<Rightarrow> (Inr (codeToCall (getRealPvt st)), st)
      | DeadOilPvt \<Rightarrow> (Inr (codeToCall (getRealPvt st)), st)
      | LiveOilPvt \<Rightarrow> (Inr (codeToCall (getRealPvt st)), st)
      | NoOilPvt \<Rightarrow> (Inl (LogicError ''Not implemented: Oil PVT of this deck!''), st))"

definition OilPvtMultiplexer_viscosity ::
  "(OilPvtObject \<Rightarrow> nat \<Rightarrow> real \<Rightarrow> real \<Rightarrow> real \<Rightarrow> real) \<Rightarrow> heap \<times> OilPvtMultiplexer
     \<Rightarrow> nat \<Rightarrow> real \<Rightarrow> real \<Rightarrow> real \<Rightarrow> (error + real) \<times> (heap \<times> OilPvtMultiplexer)" where
  "OilPvtMultiplexer_viscosity impl st regionIdx temperature pressure Rs =
     OPM_OIL_PVT_MULTIPLEXER_CALL (\<lambda>pvtImpl. impl pvtImpl regionIdx temperature pressure Rs) st"

definition OilPvtMultiplexer_saturatedViscosity ::
  "(OilPvtObject \<Rightarrow> nat \<Rightarrow> real \<Rightarrow> real \<Rightarrow> real) \<Rightarrow> heap \<times> OilPvtMultiplexer
     \<Rightarrow> nat \<Rightarrow> real \<Rightarrow> real \<Rightarrow> (error + real) \<times> (heap \<times> OilPvtMultiplexer)" where
  "OilPvtMultiplexer_saturatedViscosity impl st regionIdx temperature pressure =
     OPM_OIL_PVT_MULTIPLEXER_CALL (\<lambda>pvtImpl. impl pvtImpl regionIdx temperature pressure) st"

definition OilPvtMultiplexer_formationVolumeFactor ::
  "(OilPvtObject \<Rightarrow> nat \<Rightarrow> real \<Rightarrow> real \<Rightarrow> real \<Rightarrow> real) \<Rightarrow> heap \<times> OilPvtMultiplexer
     \<Rightarrow> nat \<Rightarrow> real \<Rightarrow> real \<Rightarrow> real \<Rightarrow> (error + real) \<times> (heap \<times> OilPvtMultiplexer)" where
  "OilPvtMultiplexer_formationVolumeFactor impl st regionIdx temperature pressure Rs =
     OPM_OIL_PVT_MULTIPLEXER_CALL (\<lambda>pvtImpl. impl pvtImpl regionIdx temperature pressure Rs) st"

definition OilPvtMultiplexer_saturatedFormationVolumeFactor ::
  "(OilPvtObject \<Rightarrow> nat \<Rightarrow> real \<Rightarrow> real \<Rightarrow> real) \<Rightarrow> heap \<times> OilPvtMultiplexer
     \<Rightarrow> nat \<Rightarrow> real \<Rightarrow> real \<Rightarrow> (error + real) \<times> (heap \<times> OilPvtMultiplexer)" where
  "OilPvtMultiplexer_saturatedFormationVolumeFactor impl st regionIdx temperature pressure =
     OPM_OIL_PVT_MULTIPLEXER_CALL (\<lambda>pvtImpl. impl pvtImpl regionIdx temperature pressure) st"

definition OilPvtMultiplexer_density ::
  "(OilPvtObject \<Rightarrow> nat \<Rightarrow> real \<Rightarrow> real \<Rightarrow> real \<Rightarrow> real) \<Rightarrow> heap \<times> OilPvtMultiplexer
     \<Rightarrow> nat \<Rightarrow> real \<Rightarrow> real \<Rightarrow> real \<Rightarrow> (error + real) \<times> (heap \<times> OilPvtMultiplexer)" where
  "OilPvtMultiplexer_density impl st regionIdx temperature pressure Rs =
     OPM_OIL_PVT_MULTIPLEXER_CALL (\<lambda>pvtImpl. impl pvtImpl regionIdx temperature pressure Rs) st"

definition OilPvtMultiplexer_saturatedDensity ::
  "(OilPvtObject \<Rightarrow> nat \<Rightarrow> real \<Rightarrow> real \<Rightarrow> real) \<Rightarrow> heap \<times> OilPvtMultiplexer
     \<Rightarrow> nat \<Rightarrow> real \<Rightarrow> real \<Rightarrow> (error + real) \<times> (heap \<times> OilPvtMultiplexer)" where
  "OilPvtMultiplexer_saturatedDensity impl st regionIdx temperature pressure =
     OPM_OIL_PVT_MULTIPLEXER_CALL (\<lambda>pvtImpl. impl pvtImpl regionIdx temperature pressure) st"

definition OilPvtMultiplexer_saturatedGasDissolutionFactor ::
  "(OilPvtObject \<Rightarrow> nat \<Rightarrow> real \<Rightarrow> real \<Rightarrow> real) \<Rightarrow> heap \<times> OilPvtMultiplexer
     \<Rightarrow> nat \<Rightarrow> real \<Rightarrow> real \<Rightarrow> (error + real) \<times> (heap \<times> OilPvtMultiplexer)" where
  "OilPvtMultiplexer_saturatedGasDissolutionFactor impl st regionIdx temperature pressure =
     OPM_OIL_PVT_MULTIPLEXER_CALL (\<lambda>pvtImpl. impl pvtImpl regionIdx temperature pressure) st"

definition OilPvtMultiplexer_saturationPressure ::
  "(OilPvtObject \<Rightarrow> nat \<Rightarrow> real \<Rightarrow> real \<Rightarrow> real) \<Rightarrow> heap \<times> OilPvtMultiplexer
     \<Rightarrow> nat \<Rightarrow> real \<Rightarrow> real \<Rightarrow> (error + real) \<times> (heap \<times> OilPvtMultiplexer)" where
  "OilPvtMultiplexer_saturationPressure impl st regionIdx temperature Rs =
     OPM_OIL_PVT_MULTIPLEXER_CALL (\<lambda>pvtImpl. impl pvtImpl regionIdx temperature Rs) st"

section \<open>WetGasPvt.hpp: members and queries\<close>

text \<open>
  \<open>Tabulated1DFunction.hpp\<close> and \<open>Spline.hpp\<close> are not among the sources. A
  one-dimensional table and a spline are represented by their evaluation
  \<open>eval(x, /*extrapolate=*/true)\<close>, a function of \<open>x\<close>.
\<close>

type_synonym TabulatedOneDFunction = "real \<Rightarrow> real"

type_synonym Spline = "real \<Rightarrow> real"

text \<open>
  Modelled from the spec: the class \<open>UniformXTabulated2DFunction\<close>, whose header is not
  among the sources. By sections 3 and 4.1 of the specification a two-dimensional table
  is an ordered sequence of outer positions, each owning its own ordered sequence of
  samples \<open>(y, value)\<close>; \<open>appendXPos\<close> and \<open>appendSamplePoint\<close> append, and nothing is
  sorted or removed. Its evaluation \<open>eval(x, y, /*extrapolate=*/true)\<close> is a parameter of
  the queries that use it.
\<close>

type_synonym TabulatedTwoDFunction = "(real \<times> (real \<times> real) list) list"

definition appendXPos :: "real \<Rightarrow> TabulatedTwoDFunction \<Rightarrow> TabulatedTwoDFunction" where
  "appendXPos x t = t @ [(x, [])]"

definition appendSamplePoint ::
  "nat \<Rightarrow> real \<Rightarrow> real \<Rightarrow> TabulatedTwoDFunction \<Rightarrow> TabulatedTwoDFunction" where
  "appendSamplePoint i y v t = t[i := (fst (t ! i), snd (t ! i) @ [(y, v)])]"

definition numX :: "TabulatedTwoDFunction \<Rightarrow> nat" where
  "numX t = length t"

definition numY :: "TabulatedTwoDFunction \<Rightarrow> nat \<Rightarrow> nat" where
  "numY t i = length (snd (t ! i))"

text \<open>
  The members of \<open>WetGasPvt\<close>. \<open>oilPvt_\<close> points to the oil multiplexer given to
  \<open>initEnd\<close>; the field holds that multiplexer.
\<close>

record WetGasPvt =
  oilPvt_m :: OilPvtMultiplexer
  gasMolarMass_m :: "real list"
  oilMolarMass_m :: "real list"
  gasReferenceDensity_m :: "real list"
  oilReferenceDensity_m :: "real list"
  inverseGasB_m :: "TabulatedTwoDFunction list"
  gasMu_m :: "TabulatedTwoDFunction list"
  inverseGasBMu_m :: "TabulatedTwoDFunction list"
  oilVaporizationFactorTable_m :: "TabulatedOneDFunction list"
  saturationPressureSpline_m :: "Spline list"

text \<open>
  The queries are \<open>const\<close> member functions. Each takes the object \<open>this\<close> and returns
  its result together with the object as the call leaves it; a query that calls another
  one goes on with the object that call returned.
\<close>

definition viscosity ::
  "(TabulatedTwoDFunction \<Rightarrow> real \<Rightarrow> real \<Rightarrow> real) \<Rightarrow> WetGasPvt
     \<Rightarrow> nat \<Rightarrow> real \<Rightarrow> real \<Rightarrow> real \<Rightarrow> real \<times> WetGasPvt" where
  "viscosity eval2 this regionIdx temperature pressure XgO =
     (let rhooRef = oilReferenceDensity_m this ! regionIdx;
          rhogRef = gasReferenceDensity_m this ! regionIdx;
          Rv = XgO / (1 - XgO) * (rhogRef / rhooRef);
          invBg = eval2 (inverseGasB_m this ! regionIdx) pressure Rv;
          invMugBg = eval2 (inverseGasBMu_m this ! regionIdx) pressure Rv
      in (invBg / invMugBg, this))"

definition formationVolumeFactor ::
  "(TabulatedTwoDFunction \<Rightarrow> real \<Rightarrow> real \<Rightarrow> real) \<Rightarrow> WetGasPvt
     \<Rightarrow> nat \<Rightarrow> real \<Rightarrow> real \<Rightarrow> real \<Rightarrow> real \<times> WetGasPvt" where
  "formationVolumeFactor eval2 this regionIdx temperature pressure XgO =
     (let rhooRef = oilReferenceDensity_m this ! regionIdx;
          rhogRef = gasReferenceDensity_m this ! regionIdx;
          Rv = XgO / (1 - XgO) * (rhogRef / rhooRef)
      in (1 / eval2 (inverseGasB_m this ! regionIdx) pressure Rv, this))"

definition density ::
  "(TabulatedTwoDFunction \<Rightarrow> real \<Rightarrow> real \<Rightarrow> real) \<Rightarrow> WetGasPvt
     \<Rightarrow> nat \<Rightarrow> real \<Rightarrow> real \<Rightarrow> real \<Rightarrow> real \<times> WetGasPvt" where
  "density eval2 this regionIdx temperature pressure XgO =
     (let rhooRef = oilReferenceDensity_m this ! regionIdx;
          rhogRef = gasReferenceDensity_m this ! regionIdx
      in case formationVolumeFactor eval2 this regionIdx temperature pressure XgO of
           (Bg, this1) \<Rightarrow>
             (let rhog = rhogRef / Bg;
                  Rv = XgO / (1 - XgO) * (rhogRef / rhooRef)
              in (rhog + (rhogRef * Rv) / Bg, this1)))"

definition fugacityCoefficientGas ::
  "WetGasPvt \<Rightarrow> nat \<Rightarrow> real \<Rightarrow> real \<Rightarrow> real \<times> WetGasPvt" where
  "fugacityCoefficientGas this regionIdx temperature pressure = (1, this)"

definition oilVaporizationFactor ::
  "WetGasPvt \<Rightarrow> nat \<Rightarrow> real \<Rightarrow> real \<Rightarrow> real \<times> WetGasPvt" where
  "oilVaporizationFactor this regionIdx temperature pressure =
     ((oilVaporizationFactorTable_m this ! regionIdx) pressure, this)"

definition saturatedGasOilMassFraction ::
  "WetGasPvt \<Rightarrow> nat \<Rightarrow> real \<Rightarrow> real \<Rightarrow> real \<times> WetGasPvt" where
  "saturatedGasOilMassFraction this regionIdx temperature pressure =
     (let rho_gRef = gasReferenceDensity_m this ! regionIdx;
          rho_oRef = oilReferenceDensity_m this ! regionIdx
      in case oilVaporizationFactor this regionIdx temperature pressure of
           (Rv, this1) \<Rightarrow>
             (let rho_gO = Rv * rho_oRef
              in (rho_gO / (rho_gRef + rho_gO), this1)))"

definition saturatedGasOilMoleFraction ::
  "WetGasPvt \<Rightarrow> nat \<Rightarrow> real \<Rightarrow> real \<Rightarrow> real \<times> WetGasPvt" where
  "saturatedGasOilMoleFraction this regionIdx temperature pressure =
     (case saturatedGasOilMassFraction this regionIdx temperature pressure of
        (XgO, this1) \<Rightarrow>
          (let MG = gasMolarMass_m this1 ! regionIdx;
               MO = oilMolarMass_m this1 ! regionIdx;
               avgMolarMass = MO / (1 + (1 - XgO) * (MO / MG - 1))
           in (XgO * avgMolarMass / MO, this1)))"

text \<open>
  \<open>fugacityCoefficientOil\<close>. The oil multiplexer among the sources declares no
  \<open>fugacityCoefficientOil\<close>: the method called on \<open>oilPvt_\<close> is the parameter
  \<open>oilFugacityCoefficientOil\<close>, which may throw as every query of the multiplexer may.
\<close>

definition fugacityCoefficientOil ::
  "(OilPvtMultiplexer \<Rightarrow> nat \<Rightarrow> real \<Rightarrow> real \<Rightarrow> error + real) \<Rightarrow> WetGasPvt
     \<Rightarrow> nat \<Rightarrow> real \<Rightarrow> real \<Rightarrow> (error + real) \<times> WetGasPvt" where
  "fugacityCoefficientOil oilFugacityCoefficientOil this regionIdx temperature pressure =
     (case saturatedGasOilMoleFraction this regionIdx temperature pressure of
        (x_gOSat, this1) \<Rightarrow>
          (case oilFugacityCoefficientOil (oilPvt_m this1) regionIdx temperature pressure of
             Inl e \<Rightarrow> (Inl e, this1)
           | Inr phi_oO \<Rightarrow> (Inr (phi_oO / x_gOSat), this1)))"

text \<open>
  \<open>fugacityCoefficientWater\<close> calls itself with its own arguments. \<open>None\<close> is the call
  that does not return.
\<close>

partial_function (option) fugacityCoefficientWater ::
  "WetGasPvt \<Rightarrow> nat \<Rightarrow> real \<Rightarrow> real \<Rightarrow> (real \<times> WetGasPvt) option" where
  "fugacityCoefficientWater this regionIdx temperature pressure =
     Option.bind (fugacityCoefficientWater this regionIdx temperature pressure)
       (\<lambda>r. Some (100000000 * fst r, snd r))"

text \<open>
  The loop of \<open>gasSaturationPressure\<close>; \<open>n\<close> counts the iterations that are left of the
  20. \<open>eps\<close> is fixed before the loop. \<open>None\<close> is the loop that ends without a
  \<open>return\<close>. When \<open>eps\<close> or \<open>fPrime\<close> is zero the division yields an infinity or a NaN in
  IEEE arithmetic; \<open>pSat\<close> is then infinite or NaN for the rest of the loop, each of
  the remaining comparisons is false, and the loop ends without a \<open>return\<close>.
\<close>

fun newtonLoop ::
  "nat \<Rightarrow> real \<Rightarrow> real \<Rightarrow> real \<Rightarrow> nat \<Rightarrow> real \<Rightarrow> WetGasPvt \<Rightarrow> real option \<times> WetGasPvt" where
  "newtonLoop regionIdx temperature XgO eps 0 pSat this = (None, this)"
| "newtonLoop regionIdx temperature XgO eps (Suc n) pSat this =
     (case saturatedGasOilMassFraction this regionIdx temperature pSat of
        (X0, this1) \<Rightarrow>
          (case saturatedGasOilMassFraction this1 regionIdx temperature (pSat + eps) of
             (X1, this2) \<Rightarrow>
               (let f = X0 - XgO;
                    fPrime = ((X1 - XgO) - f) / eps;
                    delta = f / fPrime;
                    pSat' = pSat - delta
                in if eps = 0 \<or> fPrime = 0 then (None, this2)
                   else if \<bar>delta\<bar> < \<bar>pSat'\<bar> * (1 / 10 ^ 10) then (Some pSat', this2)
                   else newtonLoop regionIdx temperature XgO eps n pSat' this2)))"

definition gasSaturationPressure ::
  "WetGasPvt \<Rightarrow> nat \<Rightarrow> real \<Rightarrow> real \<Rightarrow> (error + real) \<times> WetGasPvt" where
  "gasSaturationPressure this regionIdx temperature XgO =
     (let pSat = (saturationPressureSpline_m this ! regionIdx) XgO;
          eps = pSat * (1 / 10 ^ 11)
      in case newtonLoop regionIdx temperature XgO eps 20 pSat this of
           (Some p, this1) \<Rightarrow> (Inr p, this1)
         | (None, this1) \<Rightarrow>
             (Inl (NumericalIssue ''Could find the gas saturation pressure for X_g^O = '' XgO),
              this1))"

text \<open>The regions for which every per-region vector has an entry.\<close>

definition validRegion :: "WetGasPvt \<Rightarrow> nat \<Rightarrow> bool" where
  "validRegion this regionIdx \<longleftrightarrow>
     regionIdx < length (gasMolarMass_m this) \<and> regionIdx < length (oilMolarMass_m this) \<and>
     regionIdx < length (gasReferenceDensity_m this) \<and>
     regionIdx < length (oilReferenceDensity_m this) \<and>
     regionIdx < length (inverseGasB_m this) \<and> regionIdx < length (gasMu_m this) \<and>
     regionIdx < length (inverseGasBMu_m this) \<and>
     regionIdx < length (oilVaporizationFactorTable_m this) \<and>
     regionIdx < length (saturationPressureSpline_m this)"

section \<open>WetGasPvt::initFromDeck: the tables of one region\<close>

text \<open>
  The PVTG table of a region, as the parser (another repository) hands it over: the rows
  of the outer, saturated table, each with its pressure, its oil solubility and its
  inner, under-saturated table, whose rows are \<open>(Rv, Bg, mug)\<close>.
\<close>

type_synonym PvtgInnerTable = "(real \<times> real \<times> real) list"

type_synonym PvtgTable = "(real \<times> real \<times> PvtgInnerTable) list"

definition numRows :: "'a list \<Rightarrow> nat" where
  "numRows t = length t"

definition getPressureColumn :: "PvtgTable \<Rightarrow> real list" where
  "getPressureColumn t = map fst t"

definition getInnerTable :: "PvtgTable \<Rightarrow> nat \<Rightarrow> PvtgInnerTable" where
  "getInnerTable t i = snd (snd (t ! i))"

definition getOilSolubilityColumn :: "PvtgInnerTable \<Rightarrow> real list" where
  "getOilSolubilityColumn u = map fst u"

definition getGasFormationFactorColumn :: "PvtgInnerTable \<Rightarrow> real list" where
  "getGasFormationFactorColumn u = map (\<lambda>r. fst (snd r)) u"

definition getGasViscosityColumn :: "PvtgInnerTable \<Rightarrow> real list" where
  "getGasViscosityColumn u = map (\<lambda>r. snd (snd r)) u"

text \<open>The loop over \<open>innerIdx\<close> (lines 117 to 124).\<close>

function appendInner ::
  "PvtgInnerTable \<Rightarrow> nat \<Rightarrow> nat \<Rightarrow> TabulatedTwoDFunction \<times> TabulatedTwoDFunction
     \<Rightarrow> TabulatedTwoDFunction \<times> TabulatedTwoDFunction" where
  "appendInner underSaturatedTable outerIdx innerIdx (invGasB, gasMu) =
     (if innerIdx < numRows underSaturatedTable
      then (let Rv = getOilSolubilityColumn underSaturatedTable ! innerIdx;
                Bg = getGasFormationFactorColumn underSaturatedTable ! innerIdx;
                mug = getGasViscosityColumn underSaturatedTable ! innerIdx
            in appendInner underSaturatedTable outerIdx (Suc innerIdx)
                 (appendSamplePoint outerIdx Rv (1 / Bg) invGasB,
                  appendSamplePoint outerIdx Rv mug gasMu))
      else (invGasB, gasMu))"
  by pat_completeness auto
termination
  by (relation "measure (\<lambda>(u, outerIdx, innerIdx, tabs). numRows u - innerIdx)") auto

declare appendInner.simps [simp del]

text \<open>The loop over \<open>outerIdx\<close> (lines 106 to 125), with its two assertions.\<close>

function extractLoop ::
  "PvtgTable \<Rightarrow> nat \<Rightarrow> TabulatedTwoDFunction \<times> TabulatedTwoDFunction
     \<Rightarrow> error option \<times> (TabulatedTwoDFunction \<times> TabulatedTwoDFunction)" where
  "extractLoop pvtgTable outerIdx (invGasB, gasMu) =
     (if outerIdx < numRows pvtgTable
      then (let pg = getPressureColumn pvtgTable ! outerIdx;
                invGasB1 = appendXPos pg invGasB;
                gasMu1 = appendXPos pg gasMu
            in if numX invGasB1 \<noteq> outerIdx + 1 \<or> numX gasMu1 \<noteq> outerIdx + 1
               then (Some AssertionFailure, (invGasB1, gasMu1))
               else extractLoop pvtgTable (Suc outerIdx)
                      (appendInner (getInnerTable pvtgTable outerIdx) outerIdx 0
                         (invGasB1, gasMu1)))
      else (None, (invGasB, gasMu)))"
  by pat_completeness auto
termination
  by (relation "measure (\<lambda>(t, outerIdx, tabs). numRows t - outerIdx)") auto

declare extractLoop.simps [simp del]

text \<open>
  The search for the master table (lines 140 to 145): the value of \<open>masterTableIdx\<close>
  when the loop is left.
\<close>

function findMasterTable :: "PvtgTable \<Rightarrow> nat \<Rightarrow> nat" where
  "findMasterTable pvtgTable masterTableIdx =
     (if masterTableIdx < numRows pvtgTable
      then (if numRows (getInnerTable pvtgTable masterTableIdx) > 1
            then masterTableIdx
            else findMasterTable pvtgTable (Suc masterTableIdx))
      else masterTableIdx)"
  by pat_completeness auto
termination
  by (relation "measure (\<lambda>(t, masterTableIdx). numRows t - masterTableIdx)") auto

declare findMasterTable.simps [simp del]

text \<open>The loop over \<open>newRowIdx\<close> (lines 158 to 177).\<close>

function extendRow ::
  "PvtgInnerTable \<Rightarrow> PvtgInnerTable \<Rightarrow> nat \<Rightarrow> nat
     \<Rightarrow> TabulatedTwoDFunction \<times> TabulatedTwoDFunction
     \<Rightarrow> TabulatedTwoDFunction \<times> TabulatedTwoDFunction" where
  "extendRow masterTable curTable xIdx newRowIdx (invGasB, gasMu) =
     (if newRowIdx < numRows masterTable
      then (let alphaRv = getOilSolubilityColumn masterTable ! newRowIdx
                            / getOilSolubilityColumn masterTable ! 0;
                alphaBg = getGasFormationFactorColumn masterTable ! newRowIdx
                            / getGasFormationFactorColumn masterTable ! 0;
                alphaMug = getGasViscosityColumn masterTable ! newRowIdx
                            / getGasViscosityColumn masterTable ! 0;
                newRv = getOilSolubilityColumn curTable ! 0 * alphaRv;
                newBg = getGasFormationFactorColumn curTable ! 0 * alphaBg;
                newMug = getGasViscosityColumn curTable ! 0 * alphaMug
            in extendRow masterTable curTable xIdx (Suc newRowIdx)
                 (appendSamplePoint xIdx newRv (1 / newBg) invGasB,
                  appendSamplePoint xIdx newRv newMug gasMu))
      else (invGasB, gasMu))"
  by pat_completeness auto
termination
  by (relation "measure (\<lambda>(m, c, xIdx, newRowIdx, tabs). numRows m - newRowIdx)") auto

declare extendRow.simps [simp del]

lemma numX_extendRow:
  "numX (fst (extendRow m c x i tabs)) = numX (fst tabs)"
proof (induction m c x i tabs rule: extendRow.induct)
  case (1 m c x i invGasB gasMu)
  show ?case
  proof (cases "i < numRows m")
    case True
    then show ?thesis
      using "1.IH" [OF True refl refl refl refl refl refl]
      by (simp add: extendRow.simps [of m c x i] Let_def numX_def appendSamplePoint_def)
  next
    case False
    then show ?thesis by (simp add: extendRow.simps [of m c x i])
  qed
qed

text \<open>The message of the \<open>std::runtime_error\<close> thrown in the loop over \<open>xIdx\<close>.\<close>

definition noMasterMessage :: string where
  "noMasterMessage =
     ''PVTG tables are invalid: The last table must exhibit at least one ''
     @ ''entry for undersaturated gas!''"

text \<open>
  The loop over \<open>xIdx\<close> (lines 128 to 178). The result is the exception thrown, if any,
  and the two tables as the loop leaves them.
\<close>

function gapFill ::
  "PvtgTable \<Rightarrow> nat \<Rightarrow> TabulatedTwoDFunction \<times> TabulatedTwoDFunction
     \<Rightarrow> error option \<times> (TabulatedTwoDFunction \<times> TabulatedTwoDFunction)" where
  "gapFill pvtgTable xIdx (invGasB, gasMu) =
     (if xIdx < numX invGasB
      then (if \<not> numY invGasB xIdx > 0 then (Some AssertionFailure, (invGasB, gasMu))
            else if numY invGasB xIdx > 1 then gapFill pvtgTable (Suc xIdx) (invGasB, gasMu)
            else (let masterTableIdx = findMasterTable pvtgTable (xIdx + 1)
                  in if masterTableIdx \<ge> numRows pvtgTable
                     then (Some (RuntimeError noMasterMessage), (invGasB, gasMu))
                     else (let masterTable = getInnerTable pvtgTable masterTableIdx;
                               curTable = getInnerTable pvtgTable xIdx
                           in gapFill pvtgTable (Suc xIdx)
                                (extendRow masterTable curTable xIdx 1 (invGasB, gasMu)))))
      else (None, (invGasB, gasMu)))"
  by pat_completeness auto
termination
proof (relation "measure (\<lambda>(t, xIdx, tabs). numX (fst tabs) - xIdx)", goal_cases)
  case 1
  show ?case by simp
next
  case (2 t xIdx invGasB gasMu)
  then show ?case by simp
next
  case (3 t xIdx invGasB gasMu m mt ct)
  then show ?case
    using numX_extendRow [of mt ct xIdx 1 "(invGasB, gasMu)"] by simp
qed

declare gapFill.simps [simp del]

text \<open>
  The tables \<open>inverseGasB_[regionIdx]\<close> and \<open>gasMu_[regionIdx]\<close> that \<open>initFromDeck\<close>
  builds for one region (lines 94 to 178). They are empty when it starts, as
  \<open>setNumRegions\<close> leaves them in a new object.
\<close>

definition initFromDeckTables ::
  "PvtgTable \<Rightarrow> error option \<times> (TabulatedTwoDFunction \<times> TabulatedTwoDFunction)" where
  "initFromDeckTables pvtgTable =
     (if \<not> numRows pvtgTable > 1 then (Some AssertionFailure, ([], []))
      else (case extractLoop pvtgTable 0 ([], []) of
              (Some e, tabs) \<Rightarrow> (Some e, tabs)
            | (None, tabs) \<Rightarrow> gapFill pvtgTable 0 tabs))"

section \<open>The Newton iteration: its notions, and the iteration in the words of the specification\<close>

text \<open>
  The notions in which the theorems on the Newton iteration are stated: the forward
  difference quotient with the step \<open>eps\<close>, one update \<open>p - f / f'\<close>, the test that ends
  the loop after an update, and the case of a zero divisor.
\<close>

definition fdDerivative :: "(real \<Rightarrow> real) \<Rightarrow> real \<Rightarrow> real \<Rightarrow> real \<Rightarrow> real" where
  "fdDerivative F target eps p = ((F (p + eps) - target) - (F p - target)) / eps"

definition newtonStep :: "(real \<Rightarrow> real) \<Rightarrow> real \<Rightarrow> real \<Rightarrow> real \<Rightarrow> real" where
  "newtonStep F target eps p = p - (F p - target) / fdDerivative F target eps p"

definition newtonAccepts :: "(real \<Rightarrow> real) \<Rightarrow> real \<Rightarrow> real \<Rightarrow> real \<Rightarrow> bool" where
  "newtonAccepts F target eps p \<longleftrightarrow>
     eps \<noteq> 0 \<and> fdDerivative F target eps p \<noteq> 0 \<and>
     \<bar>(F p - target) / fdDerivative F target eps p\<bar>
       < \<bar>newtonStep F target eps p\<bar> * (1 / 10 ^ 10)"

definition newtonBreaks :: "(real \<Rightarrow> real) \<Rightarrow> real \<Rightarrow> real \<Rightarrow> real \<Rightarrow> bool" where
  "newtonBreaks F target eps p \<longleftrightarrow> eps = 0 \<or> fdDerivative F target eps p = 0"

text \<open>
  The iteration as the specification words it (section 4.3): at each iteration the
  residual, the forward difference with the step \<open>eps = p * 1e-11\<close> of the current \<open>p\<close>,
  the update, the test \<open>|delta p| < |p| * 1e-10\<close>, and at most 20 iterations.
\<close>

fun newtonSpec :: "(real \<Rightarrow> real) \<Rightarrow> real \<Rightarrow> nat \<Rightarrow> real \<Rightarrow> real option" where
  "newtonSpec F target 0 p = None"
| "newtonSpec F target (Suc n) p =
     (let eps = p * (1 / 10 ^ 11)
      in if newtonBreaks F target eps p then None
         else if newtonAccepts F target eps p then Some (newtonStep F target eps p)
         else newtonSpec F target n (newtonStep F target eps p))"

text \<open>One update of that iteration: the step is that of the current \<open>p\<close>.\<close>

definition newtonSpecStep :: "(real \<Rightarrow> real) \<Rightarrow> real \<Rightarrow> real \<Rightarrow> real" where
  "newtonSpecStep F target p = newtonStep F target (p * (1 / 10 ^ 11)) p"

definition gasSaturationPressure_spec :: "WetGasPvt \<Rightarrow> nat \<Rightarrow> real \<Rightarrow> real \<Rightarrow> error + real" where
  "gasSaturationPressure_spec this regionIdx temperature XgO =
     (case newtonSpec (\<lambda>p. fst (saturatedGasOilMassFraction this regionIdx temperature p)) XgO 20
             ((saturationPressureSpline_m this ! regionIdx) XgO) of
        Some p \<Rightarrow> Inr p
      | None \<Rightarrow> Inl (NumericalIssue ''Could find the gas saturation pressure for X_g^O = '' XgO))"

section \<open>Notions used in the statements\<close>

text \<open>
  The notions in which the theorems on \<open>initFromDeck\<close> are stated: the samples that the
  rows of an inner table give in the two tables, the samples that the gap fill derives
  from a master table, and a table with samples added to one row.
\<close>

definition samplesB :: "PvtgInnerTable \<Rightarrow> (real \<times> real) list" where
  "samplesB u = map (\<lambda>r. (fst r, 1 / fst (snd r))) u"

definition samplesMu :: "PvtgInnerTable \<Rightarrow> (real \<times> real) list" where
  "samplesMu u = map (\<lambda>r. (fst r, snd (snd r))) u"

definition scaledB :: "PvtgInnerTable \<Rightarrow> PvtgInnerTable \<Rightarrow> nat \<Rightarrow> real \<times> real" where
  "scaledB m c i =
     (getOilSolubilityColumn c ! 0 * (getOilSolubilityColumn m ! i / getOilSolubilityColumn m ! 0),
      1 / (getGasFormationFactorColumn c ! 0
             * (getGasFormationFactorColumn m ! i / getGasFormationFactorColumn m ! 0)))"

definition scaledMu :: "PvtgInnerTable \<Rightarrow> PvtgInnerTable \<Rightarrow> nat \<Rightarrow> real \<times> real" where
  "scaledMu m c i =
     (getOilSolubilityColumn c ! 0 * (getOilSolubilityColumn m ! i / getOilSolubilityColumn m ! 0),
      getGasViscosityColumn c ! 0
        * (getGasViscosityColumn m ! i / getGasViscosityColumn m ! 0))"

definition addSamples ::
  "nat \<Rightarrow> (real \<times> real) list \<Rightarrow> TabulatedTwoDFunction \<Rightarrow> TabulatedTwoDFunction" where
  "addSamples i ps t = t[i := (fst (t ! i), snd (t ! i) @ ps)]"

text \<open>The two tables after the loop over \<open>outerIdx\<close>.\<close>

definition extractedB :: "PvtgTable \<Rightarrow> TabulatedTwoDFunction" where
  "extractedB t = map (\<lambda>r. (fst r, samplesB (snd (snd r)))) t"

definition extractedMu :: "PvtgTable \<Rightarrow> TabulatedTwoDFunction" where
  "extractedMu t = map (\<lambda>r. (fst r, samplesMu (snd (snd r)))) t"

text \<open>The master table of a row, and a row of the two tables after the gap fill.\<close>

definition masterOf :: "PvtgTable \<Rightarrow> nat \<Rightarrow> PvtgInnerTable" where
  "masterOf t j = getInnerTable t (findMasterTable t (Suc j))"

definition filledB :: "PvtgTable \<Rightarrow> nat \<Rightarrow> TabulatedTwoDFunction \<Rightarrow> nat \<Rightarrow> real \<times> (real \<times> real) list" where
  "filledB t x B j =
     (if x \<le> j \<and> \<not> 1 < length (getInnerTable t j)
      then (fst (B ! j),
            snd (B ! j) @ map (scaledB (masterOf t j) (getInnerTable t j)) [1..<length (masterOf t j)])
      else B ! j)"

definition filledMu :: "PvtgTable \<Rightarrow> nat \<Rightarrow> TabulatedTwoDFunction \<Rightarrow> nat \<Rightarrow> real \<times> (real \<times> real) list" where
  "filledMu t x M j =
     (if x \<le> j \<and> \<not> 1 < length (getInnerTable t j)
      then (fst (M ! j),
            snd (M ! j) @ map (scaledMu (masterOf t j) (getInnerTable t j)) [1..<length (masterOf t j)])
      else M ! j)"

section \<open>Examples\<close>

text \<open>
  An example with two regions of the same data: reference densities 1, the oil
  vaporization factor \<open>Rv(p) = p\<close> (the table through (0, 0) and (1, 1), continued
  linearly), and a saturation pressure spline \<open>x \<mapsto> 2 * x\<close>. The saturated oil mass
  fraction is \<open>p / (1 + p)\<close>.
\<close>

definition exampleOilPvt :: OilPvtMultiplexer where
  "exampleOilPvt = \<lparr> approach_m = LiveOilPvt, realOilPvt_m = Some 0 \<rparr>"

definition exampleGasPvt :: WetGasPvt where
  "exampleGasPvt =
     \<lparr> oilPvt_m = exampleOilPvt,
       gasMolarMass_m = [1 / 50, 1 / 50],
       oilMolarMass_m = [175 / 1000, 175 / 1000],
       gasReferenceDensity_m = [1, 1],
       oilReferenceDensity_m = [1, 1],
       inverseGasB_m = [[], []],
       gasMu_m = [[], []],
       inverseGasBMu_m = [[], []],
       oilVaporizationFactorTable_m = [\<lambda>p. p, \<lambda>p. p],
       saturationPressureSpline_m = [\<lambda>x. 2 * x, \<lambda>x. 2 * x] \<rparr>"

text \<open>An example of the method called on the oil multiplexer.\<close>

definition exampleOilFugacity :: "OilPvtMultiplexer \<Rightarrow> nat \<Rightarrow> real \<Rightarrow> real \<Rightarrow> error + real" where
  "exampleOilFugacity m regionIdx temperature pressure =
     (if approach m = NoOilPvt
      then Inl (LogicError ''Not implemented: Oil PVT of this deck!'')
      else Inr 2)"

text \<open>
  Two example PVTG tables: a row with one inner sample followed by a row with two; and
  four rows with one, one, two and one inner samples.
\<close>

definition exampleTable2 :: PvtgTable where
  "exampleTable2 =
     [(100000, 1, [(1, 2, 3)]),
      (200000, 2, [(2, 4, 6), (1, 5, 7)])]"

definition exampleTable4 :: PvtgTable where
  "exampleTable4 =
     [(100000, 1, [(1, 2, 3)]),
      (150000, 3 / 2, [(2, 2, 4)]),
      (200000, 2, [(2, 4, 6), (1, 5, 7)]),
      (300000, 3, [(3, 1, 1)])]"

section \<open>Molar masses after initEnd\<close>

lemma initEndBody_length:
  "length (molarMass_m (initEndBody R i s)) = length (molarMass_m s)"
  by (simp add: initEndBody_def Let_def)

lemma initEndBody_referenceDensity:
  "referenceDensity_m (initEndBody R i s) = referenceDensity_m s"
  by (simp add: initEndBody_def Let_def)

lemma initEndBody_other:
  "r \<noteq> i \<Longrightarrow> molarMass_m (initEndBody R i s) ! r = molarMass_m s ! r"
  by (simp add: initEndBody_def Let_def)

lemma initEndBody_same:
  assumes "i < length (molarMass_m s)"
  shows "molarMass_m (initEndBody R i s) ! i =
           (175 / 1000, 18 / 1000,
            R * surfaceTemperature * at3 (referenceDensity_m s ! 0) gasPhaseIdx / surfacePressure)"
proof -
  obtain a b c where abc: "molarMass_m s ! i = (a, b, c)"
    by (cases "molarMass_m s ! i") auto
  show ?thesis
    using assms abc
    by (simp add: initEndBody_def Let_def waterCompIdx_def gasCompIdx_def oilCompIdx_def)
qed

lemma initEndLoop_inv:
  "length (molarMass_m (initEndLoop R i s)) = length (molarMass_m s) \<and>
   referenceDensity_m (initEndLoop R i s) = referenceDensity_m s \<and>
   (\<forall>r < length (molarMass_m s).
      molarMass_m (initEndLoop R i s) ! r =
        (if i \<le> r
         then (175 / 1000, 18 / 1000,
               R * surfaceTemperature * at3 (referenceDensity_m s ! 0) gasPhaseIdx / surfacePressure)
         else molarMass_m s ! r))"
proof (induction R i s rule: initEndLoop.induct)
  case (1 R i s)
  show ?case
  proof (cases "i < length (molarMass_m s)")
    case False
    then show ?thesis by (simp add: initEndLoop.simps [of R i s])
  next
    case True
    note IH = "1.IH" [OF True]
    have unfold: "initEndLoop R i s = initEndLoop R (Suc i) (initEndBody R i s)"
      using True by (simp add: initEndLoop.simps [of R i s])
    show ?thesis
    proof (intro conjI allI impI)
      show "length (molarMass_m (initEndLoop R i s)) = length (molarMass_m s)"
        using IH by (simp add: unfold initEndBody_length)
      show "referenceDensity_m (initEndLoop R i s) = referenceDensity_m s"
        using IH by (simp add: unfold initEndBody_referenceDensity)
    next
      fix r assume r: "r < length (molarMass_m s)"
      then have r': "r < length (molarMass_m (initEndBody R i s))"
        by (simp add: initEndBody_length)
      from IH r' have step:
        "molarMass_m (initEndLoop R i s) ! r =
           (if Suc i \<le> r
            then (175 / 1000, 18 / 1000,
                  R * surfaceTemperature * at3 (referenceDensity_m s ! 0) gasPhaseIdx / surfacePressure)
            else molarMass_m (initEndBody R i s) ! r)"
        by (simp add: unfold initEndBody_referenceDensity)
      show "molarMass_m (initEndLoop R i s) ! r =
              (if i \<le> r
               then (175 / 1000, 18 / 1000,
                     R * surfaceTemperature * at3 (referenceDensity_m s ! 0) gasPhaseIdx / surfacePressure)
               else molarMass_m s ! r)"
      proof (cases "r = i")
        case True
        then show ?thesis
          using step initEndBody_same [of i s R] r by simp
      next
        case False
        then show ?thesis
          using step initEndBody_other [of r i R s] by auto
      qed
    qed
  qed
qed

text \<open>
  C10. After \<open>initEnd\<close>, in every region below the region count the gas component's molar
  mass is \<open>R * surfaceTemperature * rho / surfacePressure\<close> with \<open>rho\<close> the gas reference
  density of region 0 (whatever the region's own gas reference density is), the water
  component's molar mass is 18e-3 and the oil component's is 175e-3. The two vectors have
  the same size, as \<open>resizeArrays_\<close> leaves them.
\<close>

theorem initEnd_molarMass:
  assumes "regionIdx < length (molarMass_m s)"
    and "length (referenceDensity_m s) = length (molarMass_m s)"
  shows "molarMass (initEnd R s) gasCompIdx regionIdx =
           R * surfaceTemperature * referenceDensity s gasPhaseIdx 0 / surfacePressure
         \<and> molarMass (initEnd R s) waterCompIdx regionIdx = 18 / 1000
         \<and> molarMass (initEnd R s) oilCompIdx regionIdx = 175 / 1000"
  using initEndLoop_inv [of R 0 s] assms
  by (simp add: molarMass_def initEnd_def referenceDensity_def
      gasCompIdx_def waterCompIdx_def oilCompIdx_def)

text \<open>
  Two regions with the gas reference densities 1 and 2, and 8.314472 for the gas
  constant: region 1 gets the molar mass computed from the density 1 of region 0.
\<close>

theorem initEnd_molarMass_witness:
  "(1::nat) < length (molarMass_m
       (setReferenceDensities 800 1000 2 1
         (setReferenceDensities 800 1000 1 0 (initBegin 2 blackOilStatics))))
   \<and> referenceDensity
       (setReferenceDensities 800 1000 2 1
         (setReferenceDensities 800 1000 1 0 (initBegin 2 blackOilStatics))) gasPhaseIdx 1 = 2
   \<and> molarMass (initEnd 8.314472
       (setReferenceDensities 800 1000 2 1
         (setReferenceDensities 800 1000 1 0 (initBegin 2 blackOilStatics)))) gasCompIdx 1
     = 8.314472 * surfaceTemperature * 1 / surfacePressure"
proof -
  let ?s = "setReferenceDensities 800 1000 2 1
         (setReferenceDensities 800 1000 1 0 (initBegin 2 blackOilStatics))"
  have len: "(1::nat) < length (molarMass_m ?s)"
    by (simp add: setReferenceDensities_def initBegin_def resizeArrays_def resize_def
        blackOilStatics_def Let_def)
  have rho0: "referenceDensity ?s gasPhaseIdx 0 = 1"
    by (simp add: setReferenceDensities_def initBegin_def resizeArrays_def resize_def
        blackOilStatics_def Let_def referenceDensity_def gasPhaseIdx_def oilPhaseIdx_def
        waterPhaseIdx_def numeral_2_eq_2)
  have rho1: "referenceDensity ?s gasPhaseIdx 1 = 2"
    by (simp add: setReferenceDensities_def initBegin_def resizeArrays_def resize_def
        blackOilStatics_def Let_def referenceDensity_def gasPhaseIdx_def oilPhaseIdx_def
        waterPhaseIdx_def numeral_2_eq_2)
  have same: "length (referenceDensity_m ?s) = length (molarMass_m ?s)"
    by (simp add: setReferenceDensities_def initBegin_def resizeArrays_def resize_def
        blackOilStatics_def Let_def)
  show ?thesis
    using initEnd_molarMass [OF len same, of "8.314472"] len rho0 rho1 by simp
qed

section \<open>The queries leave the objects unchanged; the fugacity coefficient of oil\<close>

lemma saturatedGasOilMassFraction_frame:
  "snd (saturatedGasOilMassFraction this regionIdx temperature pressure) = this"
  by (simp add: saturatedGasOilMassFraction_def oilVaporizationFactor_def Let_def)

lemma saturatedGasOilMassFraction_pair:
  "saturatedGasOilMassFraction this regionIdx temperature pressure =
     (fst (saturatedGasOilMassFraction this regionIdx temperature pressure), this)"
  using saturatedGasOilMassFraction_frame [of this regionIdx temperature pressure]
  by (cases "saturatedGasOilMassFraction this regionIdx temperature pressure") simp

lemma newtonLoop_Suc:
  "newtonLoop r T X eps (Suc n) p this =
     (let F = (\<lambda>p. fst (saturatedGasOilMassFraction this r T p))
      in if newtonBreaks F X eps p then (None, this)
         else if newtonAccepts F X eps p then (Some (newtonStep F X eps p), this)
         else newtonLoop r T X eps n (newtonStep F X eps p) this)"
proof -
  have a: "saturatedGasOilMassFraction this r T p =
             (fst (saturatedGasOilMassFraction this r T p), this)"
    by (rule saturatedGasOilMassFraction_pair)
  have b: "saturatedGasOilMassFraction this r T (p + eps) =
             (fst (saturatedGasOilMassFraction this r T (p + eps)), this)"
    by (rule saturatedGasOilMassFraction_pair)
  show ?thesis
    apply (subst newtonLoop.simps(2))
    apply (subst a)
    apply (simp only: prod.case)
    apply (subst b)
    apply (simp only: prod.case)
    apply (simp add: Let_def newtonBreaks_def newtonAccepts_def newtonStep_def fdDerivative_def)
    done
qed

lemma newtonLoop_frame: "snd (newtonLoop r T X eps n p this) = this"
proof (induction n arbitrary: p)
  case 0
  show ?case by simp
next
  case (Suc n)
  show ?case
    using Suc.IH by (simp add: newtonLoop_Suc Let_def del: newtonLoop.simps)
qed

lemma newtonLoop_Some:
  assumes "fst (newtonLoop r T X eps n p this) = Some q"
  shows "\<exists>k<n. q = (newtonStep (\<lambda>p. fst (saturatedGasOilMassFraction this r T p)) X eps ^^ Suc k) p
          \<and> newtonAccepts (\<lambda>p. fst (saturatedGasOilMassFraction this r T p)) X eps
               ((newtonStep (\<lambda>p. fst (saturatedGasOilMassFraction this r T p)) X eps ^^ k) p)
          \<and> (\<forall>j<k. \<not> newtonAccepts (\<lambda>p. fst (saturatedGasOilMassFraction this r T p)) X eps
                     ((newtonStep (\<lambda>p. fst (saturatedGasOilMassFraction this r T p)) X eps ^^ j) p)
                 \<and> \<not> newtonBreaks (\<lambda>p. fst (saturatedGasOilMassFraction this r T p)) X eps
                     ((newtonStep (\<lambda>p. fst (saturatedGasOilMassFraction this r T p)) X eps ^^ j) p))"
  using assms
proof (induction n arbitrary: p)
  case 0
  then show ?case by simp
next
  case (Suc n)
  let ?F = "\<lambda>p. fst (saturatedGasOilMassFraction this r T p)"
  let ?S = "newtonStep ?F X eps"
  have nb: "\<not> newtonBreaks ?F X eps p"
    using Suc.prems by (auto simp: newtonLoop_Suc Let_def simp del: newtonLoop.simps)
  show ?case
  proof (cases "newtonAccepts ?F X eps p")
    case True
    then have "q = ?S p"
      using Suc.prems nb by (simp add: newtonLoop_Suc Let_def del: newtonLoop.simps)
    then have "q = (?S ^^ Suc 0) p \<and> newtonAccepts ?F X eps ((?S ^^ 0) p)
                \<and> (\<forall>j<0. \<not> newtonAccepts ?F X eps ((?S ^^ j) p)
                           \<and> \<not> newtonBreaks ?F X eps ((?S ^^ j) p))"
      using True by simp
    then show ?thesis by blast
  next
    case False
    then have "fst (newtonLoop r T X eps n (?S p) this) = Some q"
      using Suc.prems nb by (simp add: newtonLoop_Suc Let_def del: newtonLoop.simps)
    from Suc.IH [OF this] obtain k where k: "k < n" "q = (?S ^^ Suc k) (?S p)"
      "newtonAccepts ?F X eps ((?S ^^ k) (?S p))"
      "\<forall>j<k. \<not> newtonAccepts ?F X eps ((?S ^^ j) (?S p))
              \<and> \<not> newtonBreaks ?F X eps ((?S ^^ j) (?S p))"
      by blast
    have shift: "(?S ^^ j) (?S p) = (?S ^^ Suc j) p" for j
      by (simp add: funpow_swap1)
    have "\<forall>j<Suc k. \<not> newtonAccepts ?F X eps ((?S ^^ j) p)
                    \<and> \<not> newtonBreaks ?F X eps ((?S ^^ j) p)"
    proof (intro allI impI)
      fix j assume "j < Suc k"
      show "\<not> newtonAccepts ?F X eps ((?S ^^ j) p) \<and> \<not> newtonBreaks ?F X eps ((?S ^^ j) p)"
      proof (cases j)
        case 0
        then show ?thesis using False nb by simp
      next
        case (Suc j')
        then have "j' < k" using \<open>j < Suc k\<close> by simp
        with k(4) have "\<not> newtonAccepts ?F X eps ((?S ^^ j') (?S p))
                        \<and> \<not> newtonBreaks ?F X eps ((?S ^^ j') (?S p))" by blast
        then have "\<not> newtonAccepts ?F X eps ((?S ^^ Suc j') p)
                   \<and> \<not> newtonBreaks ?F X eps ((?S ^^ Suc j') p)" unfolding shift .
        then show ?thesis unfolding Suc .
      qed
    qed
    moreover have "q = (?S ^^ Suc (Suc k)) p" using k(2) shift [of "Suc k"] by simp
    moreover have "newtonAccepts ?F X eps ((?S ^^ Suc k) p)" using k(3) shift [of k] by simp
    moreover have "Suc k < Suc n" using k(1) by simp
    ultimately show ?thesis by blast
  qed
qed

lemma newtonAccepts_not_breaks: "newtonAccepts F X eps p \<Longrightarrow> \<not> newtonBreaks F X eps p"
  by (simp add: newtonAccepts_def newtonBreaks_def)

lemma newtonLoop_returns:
  assumes "k < n"
    and "newtonAccepts (\<lambda>p. fst (saturatedGasOilMassFraction this r T p)) X eps
           ((newtonStep (\<lambda>p. fst (saturatedGasOilMassFraction this r T p)) X eps ^^ k) p)"
    and "\<forall>j<k. \<not> newtonAccepts (\<lambda>p. fst (saturatedGasOilMassFraction this r T p)) X eps
                  ((newtonStep (\<lambda>p. fst (saturatedGasOilMassFraction this r T p)) X eps ^^ j) p)
              \<and> \<not> newtonBreaks (\<lambda>p. fst (saturatedGasOilMassFraction this r T p)) X eps
                  ((newtonStep (\<lambda>p. fst (saturatedGasOilMassFraction this r T p)) X eps ^^ j) p)"
  shows "fst (newtonLoop r T X eps n p this)
         = Some ((newtonStep (\<lambda>p. fst (saturatedGasOilMassFraction this r T p)) X eps ^^ Suc k) p)"
  using assms
proof (induction k arbitrary: n p)
  case 0
  let ?F = "\<lambda>p. fst (saturatedGasOilMassFraction this r T p)"
  from "0.prems"(1) obtain n' where n: "n = Suc n'" by (cases n) auto
  have acc: "newtonAccepts ?F X eps p" using "0.prems"(2) by simp
  show ?case
    using acc newtonAccepts_not_breaks [OF acc]
    by (simp add: n newtonLoop_Suc Let_def del: newtonLoop.simps)
next
  case (Suc k)
  let ?F = "\<lambda>p. fst (saturatedGasOilMassFraction this r T p)"
  let ?S = "newtonStep ?F X eps"
  from Suc.prems(1) obtain n' where n: "n = Suc n'" "k < n'" by (cases n) auto
  have first: "\<not> newtonAccepts ?F X eps p" "\<not> newtonBreaks ?F X eps p"
    using Suc.prems(3) [rule_format, of 0] by simp_all
  have shift: "(?S ^^ j) (?S p) = (?S ^^ Suc j) p" for j
    by (simp add: funpow_swap1)
  have acc: "newtonAccepts ?F X eps ((?S ^^ k) (?S p))"
    using Suc.prems(2) unfolding shift .
  have rest: "\<forall>j<k. \<not> newtonAccepts ?F X eps ((?S ^^ j) (?S p))
                    \<and> \<not> newtonBreaks ?F X eps ((?S ^^ j) (?S p))"
  proof (intro allI impI)
    fix j assume "j < k"
    then have "Suc j < Suc k" by simp
    with Suc.prems(3) have "\<not> newtonAccepts ?F X eps ((?S ^^ Suc j) p)
                    \<and> \<not> newtonBreaks ?F X eps ((?S ^^ Suc j) p)" by blast
    then show "\<not> newtonAccepts ?F X eps ((?S ^^ j) (?S p))
                    \<and> \<not> newtonBreaks ?F X eps ((?S ^^ j) (?S p))" unfolding shift .
  qed
  have "fst (newtonLoop r T X eps n' (?S p) this) = Some ((?S ^^ Suc k) (?S p))"
    by (rule Suc.IH [OF n(2) acc rest])
  then have "fst (newtonLoop r T X eps n' (?S p) this) = Some ((?S ^^ Suc (Suc k)) p)"
    unfolding shift .
  then show ?case
    using first by (simp add: n newtonLoop_Suc Let_def del: newtonLoop.simps funpow.simps)
qed

lemma newtonLoop_None:
  assumes "\<forall>k<n. \<not> newtonAccepts (\<lambda>p. fst (saturatedGasOilMassFraction this r T p)) X eps
               ((newtonStep (\<lambda>p. fst (saturatedGasOilMassFraction this r T p)) X eps ^^ k) p)"
  shows "fst (newtonLoop r T X eps n p this) = None"
  using assms
proof (induction n arbitrary: p)
  case 0
  show ?case by simp
next
  case (Suc n)
  let ?F = "\<lambda>p. fst (saturatedGasOilMassFraction this r T p)"
  let ?S = "newtonStep ?F X eps"
  have na: "\<not> newtonAccepts ?F X eps p"
    using Suc.prems [rule_format, of 0] by simp
  have "\<forall>k<n. \<not> newtonAccepts ?F X eps ((?S ^^ k) (?S p))"
  proof (intro allI impI)
    fix k assume "k < n"
    then have "\<not> newtonAccepts ?F X eps ((?S ^^ Suc k) p)"
      using Suc.prems [rule_format, of "Suc k"] by simp
    then show "\<not> newtonAccepts ?F X eps ((?S ^^ k) (?S p))"
      by (simp add: funpow_swap1)
  qed
  from Suc.IH [OF this] show ?case
    using na by (simp add: newtonLoop_Suc Let_def del: newtonLoop.simps)
qed

lemma viscosity_frame: "snd (viscosity eval2 this regionIdx temperature pressure XgO) = this"
  by (simp add: viscosity_def Let_def)

lemma formationVolumeFactor_frame:
  "snd (formationVolumeFactor eval2 this regionIdx temperature pressure XgO) = this"
  by (simp add: formationVolumeFactor_def Let_def)

lemma density_frame: "snd (density eval2 this regionIdx temperature pressure XgO) = this"
  by (simp add: density_def formationVolumeFactor_def Let_def)

lemma fugacityCoefficientGas_frame:
  "snd (fugacityCoefficientGas this regionIdx temperature pressure) = this"
  by (simp add: fugacityCoefficientGas_def)

lemma oilVaporizationFactor_frame:
  "snd (oilVaporizationFactor this regionIdx temperature pressure) = this"
  by (simp add: oilVaporizationFactor_def)

lemma saturatedGasOilMoleFraction_frame:
  "snd (saturatedGasOilMoleFraction this regionIdx temperature pressure) = this"
  by (simp add: saturatedGasOilMoleFraction_def saturatedGasOilMassFraction_def
      oilVaporizationFactor_def Let_def)

lemma saturatedGasOilMoleFraction_pair:
  "saturatedGasOilMoleFraction this regionIdx temperature pressure =
     (fst (saturatedGasOilMoleFraction this regionIdx temperature pressure), this)"
  using saturatedGasOilMoleFraction_frame [of this regionIdx temperature pressure]
  by (cases "saturatedGasOilMoleFraction this regionIdx temperature pressure") simp

lemma fugacityCoefficientOil_frame:
  "snd (fugacityCoefficientOil oilF this regionIdx temperature pressure) = this"
  by (subst fugacityCoefficientOil_def, subst saturatedGasOilMoleFraction_pair)
     (simp split: sum.splits)

lemma gasSaturationPressure_frame:
  "snd (gasSaturationPressure this regionIdx temperature XgO) = this"
proof -
  let ?r = "newtonLoop regionIdx temperature XgO
              ((saturationPressureSpline_m this ! regionIdx) XgO * (1 / 10 ^ 11)) 20
              ((saturationPressureSpline_m this ! regionIdx) XgO) this"
  have "snd ?r = this" by (rule newtonLoop_frame)
  then show ?thesis
    by (cases ?r) (simp add: gasSaturationPressure_def Let_def split: option.splits
        del: newtonLoop.simps)
qed

lemma OPM_OIL_PVT_MULTIPLEXER_CALL_frame: "snd (OPM_OIL_PVT_MULTIPLEXER_CALL codeToCall st) = st"
  by (simp add: OPM_OIL_PVT_MULTIPLEXER_CALL_def split: OilPvtApproach.splits)

text \<open>
  C9. Every query of \<open>WetGasPvt\<close> that returns or throws (viscosity, density, formation
  volume factor, the fugacity coefficients of the gas and of the oil component, oil
  vaporization factor, saturated oil mass and mole fraction, saturation pressure) leaves
  the object as it was, and every query of \<open>OilPvtMultiplexer\<close> leaves the multiplexer,
  with its approach, and the free store as they were.
\<close>

theorem queries_leave_state:
  "snd (viscosity eval2 this regionIdx temperature pressure XgO) = this
   \<and> snd (density eval2 this regionIdx temperature pressure XgO) = this
   \<and> snd (formationVolumeFactor eval2 this regionIdx temperature pressure XgO) = this
   \<and> snd (fugacityCoefficientGas this regionIdx temperature pressure) = this
   \<and> snd (fugacityCoefficientOil oilFugacityCoefficientOil this regionIdx temperature pressure)
       = this
   \<and> snd (oilVaporizationFactor this regionIdx temperature pressure) = this
   \<and> snd (saturatedGasOilMassFraction this regionIdx temperature pressure) = this
   \<and> snd (saturatedGasOilMoleFraction this regionIdx temperature pressure) = this
   \<and> snd (gasSaturationPressure this regionIdx temperature XgO) = this
   \<and> snd (OilPvtMultiplexer_viscosity impl4 st regionIdx temperature pressure Rs) = st
   \<and> snd (OilPvtMultiplexer_saturatedViscosity impl3 st regionIdx temperature pressure) = st
   \<and> snd (OilPvtMultiplexer_formationVolumeFactor impl4 st regionIdx temperature pressure Rs) = st
   \<and> snd (OilPvtMultiplexer_saturatedFormationVolumeFactor impl3 st regionIdx temperature pressure)
       = st
   \<and> snd (OilPvtMultiplexer_density impl4 st regionIdx temperature pressure Rs) = st
   \<and> snd (OilPvtMultiplexer_saturatedDensity impl3 st regionIdx temperature pressure) = st
   \<and> snd (OilPvtMultiplexer_saturatedGasDissolutionFactor impl3 st regionIdx temperature pressure)
       = st
   \<and> snd (OilPvtMultiplexer_saturationPressure impl3 st regionIdx temperature Rs) = st"
  unfolding OilPvtMultiplexer_viscosity_def OilPvtMultiplexer_saturatedViscosity_def
    OilPvtMultiplexer_formationVolumeFactor_def
    OilPvtMultiplexer_saturatedFormationVolumeFactor_def OilPvtMultiplexer_density_def
    OilPvtMultiplexer_saturatedDensity_def OilPvtMultiplexer_saturatedGasDissolutionFactor_def
    OilPvtMultiplexer_saturationPressure_def
  by (intro conjI viscosity_frame density_frame formationVolumeFactor_frame
      fugacityCoefficientGas_frame fugacityCoefficientOil_frame oilVaporizationFactor_frame
      saturatedGasOilMassFraction_frame saturatedGasOilMoleFraction_frame
      gasSaturationPressure_frame OPM_OIL_PVT_MULTIPLEXER_CALL_frame)

text \<open>
  C8. In a valid region, when the oil multiplexer returns \<open>phi_oO\<close> for the fugacity
  coefficient of the oil component, \<open>fugacityCoefficientOil\<close> of the wet gas returns
  \<open>phi_oO\<close> divided by the saturated oil mole fraction of the gas at that pressure.
\<close>

theorem fugacityCoefficientOil_quotient:
  assumes "validRegion this regionIdx"
    and "oilFugacityCoefficientOil (oilPvt_m this) regionIdx temperature pressure = Inr phi_oO"
  shows "fst (fugacityCoefficientOil oilFugacityCoefficientOil this regionIdx temperature pressure)
         = Inr (phi_oO / fst (saturatedGasOilMoleFraction this regionIdx temperature pressure))"
  using assms(2)
  by (subst fugacityCoefficientOil_def, subst saturatedGasOilMoleFraction_pair) simp

lemma example_validRegion: "validRegion exampleGasPvt 0" "validRegion exampleGasPvt 1"
  by (simp_all add: validRegion_def exampleGasPvt_def)

lemma example_moleFraction:
  "fst (saturatedGasOilMoleFraction exampleGasPvt 0 300 1) = 4 / 39"
  by (simp add: saturatedGasOilMoleFraction_def saturatedGasOilMassFraction_def
      oilVaporizationFactor_def exampleGasPvt_def Let_def)

text \<open>
  Region 0 of the example at pressure 1: the saturated oil mole fraction is 4/39, the
  oil multiplexer returns 2, and the result is 39/2.
\<close>

theorem fugacityCoefficientOil_quotient_witness:
  "validRegion exampleGasPvt 0
   \<and> exampleOilFugacity (oilPvt_m exampleGasPvt) 0 300 1 = Inr 2
   \<and> fst (fugacityCoefficientOil exampleOilFugacity exampleGasPvt 0 300 1) = Inr (39 / 2)"
proof -
  have h: "exampleOilFugacity (oilPvt_m exampleGasPvt) 0 300 1 = Inr 2"
    by (simp add: exampleOilFugacity_def exampleGasPvt_def exampleOilPvt_def approach_def)
  show ?thesis
    using fugacityCoefficientOil_quotient
            [of exampleGasPvt 0 exampleOilFugacity 300 1 2, OF example_validRegion(1) h]
      h example_validRegion(1) example_moleFraction
    by simp
qed

section \<open>setApproach of the oil multiplexer\<close>

text \<open>
  C5 (amended). In every state of the multiplexer, whether an approach is set or not,
  \<open>setApproach\<close> with one of the three approaches allocates a new implementation of
  that kind, and stores its address and the approach; the objects allocated before stay
  in the free store. \<open>setApproach(NoOilPvt)\<close> throws a \<open>std::logic_error\<close>.
\<close>

theorem setApproach_replaces:
  "setApproach LiveOilPvt (h, this)
     = Inr (h @ [LiveOilPvtObject],
            this\<lparr> realOilPvt_m := Some (length h), approach_m := LiveOilPvt \<rparr>)
   \<and> setApproach DeadOilPvt (h, this)
     = Inr (h @ [DeadOilPvtObject],
            this\<lparr> realOilPvt_m := Some (length h), approach_m := DeadOilPvt \<rparr>)
   \<and> setApproach ConstantCompressibilityOilPvt (h, this)
     = Inr (h @ [ConstantCompressibilityOilPvtObject],
            this\<lparr> realOilPvt_m := Some (length h),
                  approach_m := ConstantCompressibilityOilPvt \<rparr>)
   \<and> setApproach NoOilPvt (h, this)
     = Inl (LogicError ''Not implemented: Oil PVT of this deck!'')"
  by (simp add: setApproach_def new_def)

text \<open>
  C5 as stated fails: on a new multiplexer \<open>setApproach(LiveOilPvt)\<close> followed by
  \<open>setApproach(DeadOilPvt)\<close> is accepted, and replaces the approach and the
  implementation.
\<close>

theorem setApproach_second_call_counterexample:
  "setApproach LiveOilPvt ([], OilPvtMultiplexer_ctor)
     = Inr ([LiveOilPvtObject], \<lparr> approach_m = LiveOilPvt, realOilPvt_m = Some 0 \<rparr>)
   \<and> setApproach DeadOilPvt
       ([LiveOilPvtObject], \<lparr> approach_m = LiveOilPvt, realOilPvt_m = Some 0 \<rparr>)
     = Inr ([LiveOilPvtObject, DeadOilPvtObject],
            \<lparr> approach_m = DeadOilPvt, realOilPvt_m = Some 1 \<rparr>)"
  by (simp add: setApproach_def new_def OilPvtMultiplexer_ctor_def)

section \<open>fugacityCoefficientWater\<close>

lemma fcw_Some:
  assumes "fugacityCoefficientWater this regionIdx temperature pressure = Some y"
  shows False
  using assms
  by (rule fugacityCoefficientWater.raw_induct [where P = "\<lambda>_ _ _ _ _. False", rotated])
     (auto simp: bind_eq_Some_conv)

text \<open>
  C6. \<open>fugacityCoefficientWater\<close> returns for no region, temperature and pressure: the
  call recurses without end.
\<close>

theorem fugacityCoefficientWater_never_returns:
  "fugacityCoefficientWater this regionIdx temperature pressure = None"
  using fcw_Some [of this regionIdx temperature pressure]
  by (cases "fugacityCoefficientWater this regionIdx temperature pressure") auto

section \<open>The Newton iteration of gasSaturationPressure\<close>

lemma example_massFraction:
  "(\<lambda>p. fst (saturatedGasOilMassFraction exampleGasPvt 0 T p)) = (\<lambda>p. p / (1 + p))"
  by (simp add: saturatedGasOilMassFraction_def oilVaporizationFactor_def exampleGasPvt_def
      fun_eq_iff)

lemma gasSaturationPressure_Inr:
  assumes "fst (gasSaturationPressure this regionIdx temperature XgO) = Inr p"
  shows "fst (newtonLoop regionIdx temperature XgO
                ((saturationPressureSpline_m this ! regionIdx) XgO * (1 / 10 ^ 11)) 20
                ((saturationPressureSpline_m this ! regionIdx) XgO) this) = Some p"
proof -
  let ?r = "newtonLoop regionIdx temperature XgO
              ((saturationPressureSpline_m this ! regionIdx) XgO * (1 / 10 ^ 11)) 20
              ((saturationPressureSpline_m this ! regionIdx) XgO) this"
  show ?thesis
    using assms
    by (cases ?r) (simp add: gasSaturationPressure_def Let_def split: option.splits
        del: newtonLoop.simps)
qed

lemma gasSaturationPressure_None:
  assumes "fst (newtonLoop regionIdx temperature XgO
                ((saturationPressureSpline_m this ! regionIdx) XgO * (1 / 10 ^ 11)) 20
                ((saturationPressureSpline_m this ! regionIdx) XgO) this) = None"
  shows "fst (gasSaturationPressure this regionIdx temperature XgO)
         = Inl (NumericalIssue ''Could find the gas saturation pressure for X_g^O = '' XgO)"
proof -
  let ?r = "newtonLoop regionIdx temperature XgO
              ((saturationPressureSpline_m this ! regionIdx) XgO * (1 / 10 ^ 11)) 20
              ((saturationPressureSpline_m this ! regionIdx) XgO) this"
  show ?thesis
    using assms
    by (cases ?r) (simp add: gasSaturationPressure_def Let_def split: option.splits
        del: newtonLoop.simps)
qed

lemma gasSaturationPressure_Some:
  assumes "fst (newtonLoop regionIdx temperature XgO
                ((saturationPressureSpline_m this ! regionIdx) XgO * (1 / 10 ^ 11)) 20
                ((saturationPressureSpline_m this ! regionIdx) XgO) this) = Some p"
  shows "fst (gasSaturationPressure this regionIdx temperature XgO) = Inr p"
proof -
  let ?r = "newtonLoop regionIdx temperature XgO
              ((saturationPressureSpline_m this ! regionIdx) XgO * (1 / 10 ^ 11)) 20
              ((saturationPressureSpline_m this ! regionIdx) XgO) this"
  show ?thesis
    using assms
    by (cases ?r) (simp add: gasSaturationPressure_def Let_def split: option.splits
        del: newtonLoop.simps)
qed

lemma newtonSpec_Suc:
  "newtonSpec F X (Suc n) p =
     (if newtonBreaks F X (p * (1 / 10 ^ 11)) p then None
      else if newtonAccepts F X (p * (1 / 10 ^ 11)) p then Some (newtonSpecStep F X p)
      else newtonSpec F X n (newtonSpecStep F X p))"
  by (simp add: Let_def newtonSpecStep_def)

lemma newtonSpec_returns:
  assumes "k < n"
    and "newtonAccepts F X ((newtonSpecStep F X ^^ k) p * (1 / 10 ^ 11))
           ((newtonSpecStep F X ^^ k) p)"
    and "\<forall>j<k. \<not> newtonAccepts F X ((newtonSpecStep F X ^^ j) p * (1 / 10 ^ 11))
                  ((newtonSpecStep F X ^^ j) p)
              \<and> \<not> newtonBreaks F X ((newtonSpecStep F X ^^ j) p * (1 / 10 ^ 11))
                  ((newtonSpecStep F X ^^ j) p)"
  shows "newtonSpec F X n p = Some ((newtonSpecStep F X ^^ Suc k) p)"
  using assms
proof (induction k arbitrary: n p)
  case 0
  from "0.prems"(1) obtain n' where n: "n = Suc n'" by (cases n) auto
  have acc: "newtonAccepts F X (p * (1 / 10 ^ 11)) p" using "0.prems"(2) by simp
  show ?case
    using acc newtonAccepts_not_breaks [OF acc] unfolding n newtonSpec_Suc by simp
next
  case (Suc k)
  let ?S = "newtonSpecStep F X"
  from Suc.prems(1) obtain n' where n: "n = Suc n'" "k < n'" by (cases n) auto
  have first: "\<not> newtonAccepts F X (p * (1 / 10 ^ 11)) p"
    "\<not> newtonBreaks F X (p * (1 / 10 ^ 11)) p"
    using Suc.prems(3) [rule_format, of 0] by simp_all
  have shift: "(?S ^^ j) (?S p) = (?S ^^ Suc j) p" for j
    by (simp add: funpow_swap1)
  have acc: "newtonAccepts F X ((?S ^^ k) (?S p) * (1 / 10 ^ 11)) ((?S ^^ k) (?S p))"
    using Suc.prems(2) unfolding shift .
  have rest: "\<forall>j<k. \<not> newtonAccepts F X ((?S ^^ j) (?S p) * (1 / 10 ^ 11)) ((?S ^^ j) (?S p))
                    \<and> \<not> newtonBreaks F X ((?S ^^ j) (?S p) * (1 / 10 ^ 11)) ((?S ^^ j) (?S p))"
  proof (intro allI impI)
    fix j assume "j < k"
    then have "Suc j < Suc k" by simp
    with Suc.prems(3)
    have "\<not> newtonAccepts F X ((?S ^^ Suc j) p * (1 / 10 ^ 11)) ((?S ^^ Suc j) p)
          \<and> \<not> newtonBreaks F X ((?S ^^ Suc j) p * (1 / 10 ^ 11)) ((?S ^^ Suc j) p)"
      by blast
    then show "\<not> newtonAccepts F X ((?S ^^ j) (?S p) * (1 / 10 ^ 11)) ((?S ^^ j) (?S p))
               \<and> \<not> newtonBreaks F X ((?S ^^ j) (?S p) * (1 / 10 ^ 11)) ((?S ^^ j) (?S p))"
      unfolding shift .
  qed
  have "newtonSpec F X n' (?S p) = Some ((?S ^^ Suc k) (?S p))"
    by (rule Suc.IH [OF n(2) acc rest])
  then have "newtonSpec F X n' (?S p) = Some ((?S ^^ Suc (Suc k)) p)"
    unfolding shift .
  then show ?case
    using first unfolding n newtonSpec_Suc by (simp del: funpow.simps)
qed

text \<open>
  Region 0 of the example with \<open>XgO = 0.25\<close>, where the saturation pressure is 1/3. With
  \<open>e = p - 1/3\<close> an update with the step \<open>eps\<close> maps \<open>e\<close> to \<open>- 3/4 * e * (e + eps)\<close>, and
  its size is \<open>|e * (1 + 3/4 * (e + eps))|\<close>. The iterates of the source and of the
  iteration of the specification are enclosed in intervals, from the seed 0.5 on.
\<close>

lemma example_quarter_algebra:
  fixes p eps :: real
  assumes "0 \<le> p" "0 < eps"
  shows "fdDerivative (\<lambda>p. p / (1 + p)) (1 / 4) eps p = 1 / ((1 + p) * (1 + p + eps))"
    and "(p / (1 + p) - 1 / 4) / fdDerivative (\<lambda>p. p / (1 + p)) (1 / 4) eps p
           = (p - 1 / 3) * (1 + 3 / 4 * (p - 1 / 3 + eps))"
    and "newtonStep (\<lambda>p. p / (1 + p)) (1 / 4) eps p
           = 1 / 3 - 3 / 4 * (p - 1 / 3) * (p - 1 / 3 + eps)"
proof -
  have nz: "1 + p \<noteq> 0" "1 + (p + eps) \<noteq> 0" "eps \<noteq> 0" "1 + p + eps \<noteq> 0"
    using assms by simp_all
  have "(p + eps) / (1 + (p + eps)) - p / (1 + p)
          = ((p + eps) * (1 + p) - p * (1 + (p + eps))) / ((1 + (p + eps)) * (1 + p))"
    using nz by (simp add: diff_frac_eq)
  also have "\<dots> = eps / ((1 + p) * (1 + p + eps))"
    by (simp add: algebra_simps)
  finally have num: "((p + eps) / (1 + (p + eps)) - 1 / 4) - (p / (1 + p) - 1 / 4)
                       = eps / ((1 + p) * (1 + p + eps))"
    by simp
  show fd: "fdDerivative (\<lambda>p. p / (1 + p)) (1 / 4) eps p = 1 / ((1 + p) * (1 + p + eps))"
    unfolding fdDerivative_def num using nz by simp
  have res: "p / (1 + p) - 1 / 4 = (3 * p - 1) / (4 * (1 + p))"
    using nz by (simp add: field_simps)
  have "(p / (1 + p) - 1 / 4) / fdDerivative (\<lambda>p. p / (1 + p)) (1 / 4) eps p
          = (3 * p - 1) * (1 + p + eps) / 4"
    unfolding fd res using nz by (simp add: field_simps)
  also have "\<dots> = (p - 1 / 3) * (1 + 3 / 4 * (p - 1 / 3 + eps))"
    by (simp add: field_simps)
  finally show delta: "(p / (1 + p) - 1 / 4) / fdDerivative (\<lambda>p. p / (1 + p)) (1 / 4) eps p
          = (p - 1 / 3) * (1 + 3 / 4 * (p - 1 / 3 + eps))" .
  show "newtonStep (\<lambda>p. p / (1 + p)) (1 / 4) eps p
           = 1 / 3 - 3 / 4 * (p - 1 / 3) * (p - 1 / 3 + eps)"
    unfolding newtonStep_def delta by (simp add: field_simps)
qed

lemma example_quarter_mid:
  fixes p eps epslo epshi lo hi :: real
  assumes "0 < epslo" "epslo \<le> eps" "eps \<le> epshi" "lo \<le> p - 1 / 3" "p - 1 / 3 \<le> hi"
    and "hi + epshi \<le> 0" "- (1 / 3) \<le> lo"
    and "1 / 3 * (1 / 10 ^ 10) \<le> - hi * (1 + 3 / 4 * (lo + epslo))"
  shows "- (3 / 4) * lo * (lo + epslo) \<le> newtonStep (\<lambda>p. p / (1 + p)) (1 / 4) eps p - 1 / 3"
    and "newtonStep (\<lambda>p. p / (1 + p)) (1 / 4) eps p - 1 / 3 \<le> - (3 / 4) * hi * (hi + epshi)"
    and "\<not> newtonBreaks (\<lambda>p. p / (1 + p)) (1 / 4) eps p"
    and "\<not> newtonAccepts (\<lambda>p. p / (1 + p)) (1 / 4) eps p"
proof -
  define a where "a = - (p - 1 / 3)"
  define b where "b = - (p - 1 / 3 + eps)"
  have p0: "0 \<le> p" and e0: "0 < eps" using assms by simp_all
  note alg = example_quarter_algebra [OF p0 e0]
  have a: "- hi \<le> a" "a \<le> - lo" "0 \<le> - hi" "0 \<le> a"
    using assms by (simp_all add: a_def)
  have b: "- (hi + epshi) \<le> b" "b \<le> - (lo + epslo)" "0 \<le> - (hi + epshi)" "0 \<le> b"
    using assms by (simp_all add: b_def)
  have "a * b \<le> (- lo) * (- (lo + epslo))"
    by (rule mult_mono [OF a(2) b(2)]) (use a b in simp_all)
  then have up: "a * b \<le> lo * (lo + epslo)"
    unfolding minus_mult_minus .
  have "(- hi) * (- (hi + epshi)) \<le> a * b"
    by (rule mult_mono [OF a(1) b(1) a(4) b(3)])
  then have dn: "hi * (hi + epshi) \<le> a * b"
    unfolding minus_mult_minus .
  have step: "newtonStep (\<lambda>p. p / (1 + p)) (1 / 4) eps p - 1 / 3 = - (3 / 4) * (a * b)"
    unfolding alg(3) a_def b_def by (simp add: field_simps)
  show "- (3 / 4) * lo * (lo + epslo) \<le> newtonStep (\<lambda>p. p / (1 + p)) (1 / 4) eps p - 1 / 3"
    unfolding step using up by simp
  show "newtonStep (\<lambda>p. p / (1 + p)) (1 / 4) eps p - 1 / 3 \<le> - (3 / 4) * hi * (hi + epshi)"
    unfolding step using dn by simp
  show "\<not> newtonBreaks (\<lambda>p. p / (1 + p)) (1 / 4) eps p"
    unfolding newtonBreaks_def alg(1) using p0 e0 by simp
  have delta: "(p / (1 + p) - 1 / 4) / fdDerivative (\<lambda>p. p / (1 + p)) (1 / 4) eps p
                 = - (a * (1 - 3 / 4 * b))"
    unfolding alg(2) a_def b_def by (simp add: field_simps)
  have f1: "1 + 3 / 4 * (lo + epslo) \<le> 1 - 3 / 4 * b" using b(2) by simp
  have f0: "0 \<le> 1 + 3 / 4 * (lo + epslo)" using assms(1,7) by (simp add: field_simps)
  have "- hi * (1 + 3 / 4 * (lo + epslo)) \<le> a * (1 - 3 / 4 * b)"
    by (rule mult_mono [OF a(1) f1 a(4) f0])
  then have big: "1 / 3 * (1 / 10 ^ 10) \<le> a * (1 - 3 / 4 * b)"
    using assms(8) by simp
  have ab0: "0 \<le> a * b" using a(4) b(4) by simp
  have "a \<le> 1 / 3" using a(2) assms(7) by simp
  moreover have "b \<le> 1 / 3" using b(2) assms(1,7) by simp
  ultimately have "a * b \<le> 1 / 3 * (1 / 3)"
    using a(4) b(4) by (intro mult_mono) simp_all
  then have st: "\<bar>newtonStep (\<lambda>p. p / (1 + p)) (1 / 4) eps p\<bar> \<le> 1 / 3"
    using step ab0 by simp
  have "\<bar>newtonStep (\<lambda>p. p / (1 + p)) (1 / 4) eps p\<bar> * (1 / 10 ^ 10) \<le> 1 / 3 * (1 / 10 ^ 10)"
    using st by simp
  also have "\<dots> \<le> a * (1 - 3 / 4 * b)" by (rule big)
  also have "\<dots> \<le> \<bar>- (a * (1 - 3 / 4 * b))\<bar>"
    unfolding abs_minus_cancel by (rule abs_ge_self)
  finally show "\<not> newtonAccepts (\<lambda>p. p / (1 + p)) (1 / 4) eps p"
    unfolding newtonAccepts_def delta by simp
qed

lemma example_quarter_last:
  fixes p eps epslo epshi lo hi :: real
  assumes "0 < epslo" "epslo \<le> eps" "eps \<le> epshi" "lo \<le> p - 1 / 3" "p - 1 / 3 \<le> hi"
    and "hi \<le> 0" "0 \<le> lo + epslo" "- (1 / 3) \<le> lo" "epshi \<le> 1"
    and "- 2 * lo < 1 / 3 * (1 / 10 ^ 10)"
  shows "3 / 4 * - hi * (lo + epslo) \<le> newtonStep (\<lambda>p. p / (1 + p)) (1 / 4) eps p - 1 / 3"
    and "newtonStep (\<lambda>p. p / (1 + p)) (1 / 4) eps p - 1 / 3 \<le> 3 / 4 * - lo * (hi + epshi)"
    and "newtonAccepts (\<lambda>p. p / (1 + p)) (1 / 4) eps p"
proof -
  define a where "a = - (p - 1 / 3)"
  define b where "b = p - 1 / 3 + eps"
  have p0: "0 \<le> p" and e0: "0 < eps" using assms by simp_all
  note alg = example_quarter_algebra [OF p0 e0]
  have a: "- hi \<le> a" "a \<le> - lo" "0 \<le> - hi" "0 \<le> a"
    using assms by (simp_all add: a_def)
  have b: "lo + epslo \<le> b" "b \<le> hi + epshi" "0 \<le> lo + epslo" "0 \<le> b" "b \<le> 1"
    using assms by (simp_all add: b_def)
  have up: "a * b \<le> (- lo) * (hi + epshi)"
    by (rule mult_mono [OF a(2) b(2)]) (use a b in simp_all)
  have dn: "(- hi) * (lo + epslo) \<le> a * b"
    by (rule mult_mono [OF a(1) b(1) a(4) b(3)])
  have step: "newtonStep (\<lambda>p. p / (1 + p)) (1 / 4) eps p - 1 / 3 = 3 / 4 * (a * b)"
    unfolding alg(3) a_def b_def by (simp add: field_simps)
  show "3 / 4 * - hi * (lo + epslo) \<le> newtonStep (\<lambda>p. p / (1 + p)) (1 / 4) eps p - 1 / 3"
    unfolding step using dn by simp
  show "newtonStep (\<lambda>p. p / (1 + p)) (1 / 4) eps p - 1 / 3 \<le> 3 / 4 * - lo * (hi + epshi)"
    unfolding step using up by simp
  have delta: "(p / (1 + p) - 1 / 4) / fdDerivative (\<lambda>p. p / (1 + p)) (1 / 4) eps p
                 = - (a * (1 + 3 / 4 * b))"
    unfolding alg(2) a_def b_def by (simp add: field_simps)
  have f1: "1 + 3 / 4 * b \<le> 2" using b(5) by simp
  have f0: "0 \<le> 1 + 3 / 4 * b" using b(4) by simp
  have "a * (1 + 3 / 4 * b) \<le> (- lo) * 2"
    by (rule mult_mono [OF a(2) f1]) (use a f0 in simp_all)
  then have small: "a * (1 + 3 / 4 * b) < 1 / 3 * (1 / 10 ^ 10)"
    using assms(10) by simp
  have ab0: "0 \<le> a * b" using a(4) b(4) by simp
  have st: "1 / 3 \<le> \<bar>newtonStep (\<lambda>p. p / (1 + p)) (1 / 4) eps p\<bar>"
    using step ab0 by simp
  have "\<bar>- (a * (1 + 3 / 4 * b))\<bar> = a * (1 + 3 / 4 * b)"
    using a(4) f0 by simp
  also have "\<dots> < 1 / 3 * (1 / 10 ^ 10)" by (rule small)
  also have "\<dots> \<le> \<bar>newtonStep (\<lambda>p. p / (1 + p)) (1 / 4) eps p\<bar> * (1 / 10 ^ 10)"
    using st by simp
  finally have third: "\<bar>- (a * (1 + 3 / 4 * b))\<bar>
                         < \<bar>newtonStep (\<lambda>p. p / (1 + p)) (1 / 4) eps p\<bar> * (1 / 10 ^ 10)" .
  have en: "eps \<noteq> 0" using e0 by simp
  have fdnz: "fdDerivative (\<lambda>p. p / (1 + p)) (1 / 4) eps p \<noteq> 0"
    unfolding alg(1) using p0 e0 by simp
  show "newtonAccepts (\<lambda>p. p / (1 + p)) (1 / 4) eps p"
    unfolding newtonAccepts_def delta by (intro conjI en fdnz third)
qed

lemma example_quarter_code_0:
  "\<not> newtonBreaks (\<lambda>p. p / (1 + p)) (1 / 4) (1 / 2 * (1 / 10 ^ 11))
       ((newtonStep (\<lambda>p. p / (1 + p)) (1 / 4) (1 / 2 * (1 / 10 ^ 11)) ^^ 0) (1 / 2))"
  "\<not> newtonAccepts (\<lambda>p. p / (1 + p)) (1 / 4) (1 / 2 * (1 / 10 ^ 11))
       ((newtonStep (\<lambda>p. p / (1 + p)) (1 / 4) (1 / 2 * (1 / 10 ^ 11)) ^^ 0) (1 / 2))"
  by (simp_all add: newtonBreaks_def newtonAccepts_def newtonStep_def fdDerivative_def)

lemma example_quarter_code_1:
  "- (208334 / 10 ^ 7)
     \<le> (newtonStep (\<lambda>p. p / (1 + p)) (1 / 4) (1 / 2 * (1 / 10 ^ 11)) ^^ 1) (1 / 2) - 1 / 3"
  "(newtonStep (\<lambda>p. p / (1 + p)) (1 / 4) (1 / 2 * (1 / 10 ^ 11)) ^^ 1) (1 / 2) - 1 / 3
     \<le> - (208333 / 10 ^ 7)"
  by (simp_all add: newtonStep_def fdDerivative_def)

lemma example_quarter_code_2:
  "- (325523 / 10 ^ 9)
     \<le> (newtonStep (\<lambda>p. p / (1 + p)) (1 / 4) (1 / 2 * (1 / 10 ^ 11)) ^^ 2) (1 / 2) - 1 / 3"
  "(newtonStep (\<lambda>p. p / (1 + p)) (1 / 4) (1 / 2 * (1 / 10 ^ 11)) ^^ 2) (1 / 2) - 1 / 3
     \<le> - (325519 / 10 ^ 9)"
  "\<not> newtonBreaks (\<lambda>p. p / (1 + p)) (1 / 4) (1 / 2 * (1 / 10 ^ 11))
       ((newtonStep (\<lambda>p. p / (1 + p)) (1 / 4) (1 / 2 * (1 / 10 ^ 11)) ^^ 1) (1 / 2))"
  "\<not> newtonAccepts (\<lambda>p. p / (1 + p)) (1 / 4) (1 / 2 * (1 / 10 ^ 11))
       ((newtonStep (\<lambda>p. p / (1 + p)) (1 / 4) (1 / 2 * (1 / 10 ^ 11)) ^^ 1) (1 / 2))"
proof -
  let ?F = "\<lambda>p::real. p / (1 + p)"
  let ?S = "newtonStep ?F (1 / 4) (1 / 2 * (1 / 10 ^ 11))"
  let ?p = "(?S ^^ 1) (1 / 2)"
  let ?q = "(?S ^^ 2) (1 / 2)"
  let ?lo = "- (208334 / 10 ^ 7) :: real"
  let ?hi = "- (208333 / 10 ^ 7) :: real"
  let ?e = "1 / 2 * (1 / 10 ^ 11) :: real"
  have el: "?e \<le> ?e" and eh: "?e \<le> ?e"
    by simp_all
  have succ: "?q = newtonStep ?F (1 / 4) ?e ?p"
    by (simp add: eval_nat_numeral)
  note b = example_quarter_mid [where p = "?p" and eps = "?e" and epslo = "?e"
      and epshi = "?e" and lo = "?lo" and hi = "?hi", OF _ el eh example_quarter_code_1(1,2)]
  have "- (325523 / 10 ^ 9) \<le> - (3 / 4) * ?lo * (?lo + ?e)"
    by simp
  also have "\<dots> \<le> newtonStep ?F (1 / 4) ?e ?p - 1 / 3"
    by (rule b(1)) simp_all
  finally show "- (325523 / 10 ^ 9) \<le> ?q - 1 / 3"
    unfolding succ .
  have "newtonStep ?F (1 / 4) ?e ?p - 1 / 3 \<le> - (3 / 4) * ?hi * (?hi + ?e)"
    by (rule b(2)) simp_all
  also have "\<dots> \<le> - (325519 / 10 ^ 9)"
    by simp
  finally show "?q - 1 / 3 \<le> - (325519 / 10 ^ 9)"
    unfolding succ .
  show "\<not> newtonBreaks ?F (1 / 4) ?e ?p"
    by (rule b(3)) simp_all
  show "\<not> newtonAccepts ?F (1 / 4) ?e ?p"
    by (rule b(4)) simp_all
qed

lemma example_quarter_code_3:
  "- (794740 / 10 ^ 13)
     \<le> (newtonStep (\<lambda>p. p / (1 + p)) (1 / 4) (1 / 2 * (1 / 10 ^ 11)) ^^ 3) (1 / 2) - 1 / 3"
  "(newtonStep (\<lambda>p. p / (1 + p)) (1 / 4) (1 / 2 * (1 / 10 ^ 11)) ^^ 3) (1 / 2) - 1 / 3
     \<le> - (794719 / 10 ^ 13)"
  "\<not> newtonBreaks (\<lambda>p. p / (1 + p)) (1 / 4) (1 / 2 * (1 / 10 ^ 11))
       ((newtonStep (\<lambda>p. p / (1 + p)) (1 / 4) (1 / 2 * (1 / 10 ^ 11)) ^^ 2) (1 / 2))"
  "\<not> newtonAccepts (\<lambda>p. p / (1 + p)) (1 / 4) (1 / 2 * (1 / 10 ^ 11))
       ((newtonStep (\<lambda>p. p / (1 + p)) (1 / 4) (1 / 2 * (1 / 10 ^ 11)) ^^ 2) (1 / 2))"
proof -
  let ?F = "\<lambda>p::real. p / (1 + p)"
  let ?S = "newtonStep ?F (1 / 4) (1 / 2 * (1 / 10 ^ 11))"
  let ?p = "(?S ^^ 2) (1 / 2)"
  let ?q = "(?S ^^ 3) (1 / 2)"
  let ?lo = "- (325523 / 10 ^ 9) :: real"
  let ?hi = "- (325519 / 10 ^ 9) :: real"
  let ?e = "1 / 2 * (1 / 10 ^ 11) :: real"
  have el: "?e \<le> ?e" and eh: "?e \<le> ?e"
    by simp_all
  have succ: "?q = newtonStep ?F (1 / 4) ?e ?p"
    by (simp add: eval_nat_numeral)
  note b = example_quarter_mid [where p = "?p" and eps = "?e" and epslo = "?e"
      and epshi = "?e" and lo = "?lo" and hi = "?hi", OF _ el eh example_quarter_code_2(1,2)]
  have "- (794740 / 10 ^ 13) \<le> - (3 / 4) * ?lo * (?lo + ?e)"
    by simp
  also have "\<dots> \<le> newtonStep ?F (1 / 4) ?e ?p - 1 / 3"
    by (rule b(1)) simp_all
  finally show "- (794740 / 10 ^ 13) \<le> ?q - 1 / 3"
    unfolding succ .
  have "newtonStep ?F (1 / 4) ?e ?p - 1 / 3 \<le> - (3 / 4) * ?hi * (?hi + ?e)"
    by (rule b(2)) simp_all
  also have "\<dots> \<le> - (794719 / 10 ^ 13)"
    by simp
  finally show "?q - 1 / 3 \<le> - (794719 / 10 ^ 13)"
    unfolding succ .
  show "\<not> newtonBreaks ?F (1 / 4) ?e ?p"
    by (rule b(3)) simp_all
  show "\<not> newtonAccepts ?F (1 / 4) ?e ?p"
    by (rule b(4)) simp_all
qed

lemma example_quarter_code_4:
  "- (473679 / 10 ^ 20)
     \<le> (newtonStep (\<lambda>p. p / (1 + p)) (1 / 4) (1 / 2 * (1 / 10 ^ 11)) ^^ 4) (1 / 2) - 1 / 3"
  "(newtonStep (\<lambda>p. p / (1 + p)) (1 / 4) (1 / 2 * (1 / 10 ^ 11)) ^^ 4) (1 / 2) - 1 / 3
     \<le> - (473653 / 10 ^ 20)"
  "\<not> newtonBreaks (\<lambda>p. p / (1 + p)) (1 / 4) (1 / 2 * (1 / 10 ^ 11))
       ((newtonStep (\<lambda>p. p / (1 + p)) (1 / 4) (1 / 2 * (1 / 10 ^ 11)) ^^ 3) (1 / 2))"
  "\<not> newtonAccepts (\<lambda>p. p / (1 + p)) (1 / 4) (1 / 2 * (1 / 10 ^ 11))
       ((newtonStep (\<lambda>p. p / (1 + p)) (1 / 4) (1 / 2 * (1 / 10 ^ 11)) ^^ 3) (1 / 2))"
proof -
  let ?F = "\<lambda>p::real. p / (1 + p)"
  let ?S = "newtonStep ?F (1 / 4) (1 / 2 * (1 / 10 ^ 11))"
  let ?p = "(?S ^^ 3) (1 / 2)"
  let ?q = "(?S ^^ 4) (1 / 2)"
  let ?lo = "- (794740 / 10 ^ 13) :: real"
  let ?hi = "- (794719 / 10 ^ 13) :: real"
  let ?e = "1 / 2 * (1 / 10 ^ 11) :: real"
  have el: "?e \<le> ?e" and eh: "?e \<le> ?e"
    by simp_all
  have succ: "?q = newtonStep ?F (1 / 4) ?e ?p"
    by (simp add: eval_nat_numeral)
  note b = example_quarter_mid [where p = "?p" and eps = "?e" and epslo = "?e"
      and epshi = "?e" and lo = "?lo" and hi = "?hi", OF _ el eh example_quarter_code_3(1,2)]
  have "- (473679 / 10 ^ 20) \<le> - (3 / 4) * ?lo * (?lo + ?e)"
    by simp
  also have "\<dots> \<le> newtonStep ?F (1 / 4) ?e ?p - 1 / 3"
    by (rule b(1)) simp_all
  finally show "- (473679 / 10 ^ 20) \<le> ?q - 1 / 3"
    unfolding succ .
  have "newtonStep ?F (1 / 4) ?e ?p - 1 / 3 \<le> - (3 / 4) * ?hi * (?hi + ?e)"
    by (rule b(2)) simp_all
  also have "\<dots> \<le> - (473653 / 10 ^ 20)"
    by simp
  finally show "?q - 1 / 3 \<le> - (473653 / 10 ^ 20)"
    unfolding succ .
  show "\<not> newtonBreaks ?F (1 / 4) ?e ?p"
    by (rule b(3)) simp_all
  show "\<not> newtonAccepts ?F (1 / 4) ?e ?p"
    by (rule b(4)) simp_all
qed

lemma example_quarter_code_5:
  "177451 / 10 ^ 31
     \<le> (newtonStep (\<lambda>p. p / (1 + p)) (1 / 4) (1 / 2 * (1 / 10 ^ 11)) ^^ 5) (1 / 2) - 1 / 3"
  "(newtonStep (\<lambda>p. p / (1 + p)) (1 / 4) (1 / 2 * (1 / 10 ^ 11)) ^^ 5) (1 / 2) - 1 / 3
     \<le> 177462 / 10 ^ 31"
  "newtonAccepts (\<lambda>p. p / (1 + p)) (1 / 4) (1 / 2 * (1 / 10 ^ 11))
       ((newtonStep (\<lambda>p. p / (1 + p)) (1 / 4) (1 / 2 * (1 / 10 ^ 11)) ^^ 4) (1 / 2))"
proof -
  let ?F = "\<lambda>p::real. p / (1 + p)"
  let ?S = "newtonStep ?F (1 / 4) (1 / 2 * (1 / 10 ^ 11))"
  let ?p = "(?S ^^ 4) (1 / 2)"
  let ?q = "(?S ^^ 5) (1 / 2)"
  let ?lo = "- (473679 / 10 ^ 20) :: real"
  let ?hi = "- (473653 / 10 ^ 20) :: real"
  let ?e = "1 / 2 * (1 / 10 ^ 11) :: real"
  have el: "?e \<le> ?e" and eh: "?e \<le> ?e"
    by simp_all
  have succ: "?q = newtonStep ?F (1 / 4) ?e ?p"
    by (simp add: eval_nat_numeral)
  note b = example_quarter_last [where p = "?p" and eps = "?e" and epslo = "?e"
      and epshi = "?e" and lo = "?lo" and hi = "?hi", OF _ el eh example_quarter_code_4(1,2)]
  have "177451 / 10 ^ 31 \<le> 3 / 4 * - ?hi * (?lo + ?e)"
    by simp
  also have "\<dots> \<le> newtonStep ?F (1 / 4) ?e ?p - 1 / 3"
    by (rule b(1)) simp_all
  finally show "177451 / 10 ^ 31 \<le> ?q - 1 / 3"
    unfolding succ .
  have "newtonStep ?F (1 / 4) ?e ?p - 1 / 3 \<le> 3 / 4 * - ?lo * (?hi + ?e)"
    by (rule b(2)) simp_all
  also have "\<dots> \<le> 177462 / 10 ^ 31"
    by simp
  finally show "?q - 1 / 3 \<le> 177462 / 10 ^ 31"
    unfolding succ .
  show "newtonAccepts ?F (1 / 4) ?e ?p"
    by (rule b(3)) simp_all
qed

lemma example_quarter_spec_0:
  "\<not> newtonBreaks (\<lambda>p. p / (1 + p)) (1 / 4)
       ((newtonSpecStep (\<lambda>p. p / (1 + p)) (1 / 4) ^^ 0) (1 / 2) * (1 / 10 ^ 11))
       ((newtonSpecStep (\<lambda>p. p / (1 + p)) (1 / 4) ^^ 0) (1 / 2))"
  "\<not> newtonAccepts (\<lambda>p. p / (1 + p)) (1 / 4)
       ((newtonSpecStep (\<lambda>p. p / (1 + p)) (1 / 4) ^^ 0) (1 / 2) * (1 / 10 ^ 11))
       ((newtonSpecStep (\<lambda>p. p / (1 + p)) (1 / 4) ^^ 0) (1 / 2))"
  by (simp_all add: newtonBreaks_def newtonAccepts_def newtonSpecStep_def newtonStep_def fdDerivative_def)

lemma example_quarter_spec_1:
  "- (208334 / 10 ^ 7)
     \<le> (newtonSpecStep (\<lambda>p. p / (1 + p)) (1 / 4) ^^ 1) (1 / 2) - 1 / 3"
  "(newtonSpecStep (\<lambda>p. p / (1 + p)) (1 / 4) ^^ 1) (1 / 2) - 1 / 3
     \<le> - (208333 / 10 ^ 7)"
  by (simp_all add: newtonSpecStep_def newtonStep_def fdDerivative_def)

lemma example_quarter_spec_2:
  "- (325523 / 10 ^ 9)
     \<le> (newtonSpecStep (\<lambda>p. p / (1 + p)) (1 / 4) ^^ 2) (1 / 2) - 1 / 3"
  "(newtonSpecStep (\<lambda>p. p / (1 + p)) (1 / 4) ^^ 2) (1 / 2) - 1 / 3
     \<le> - (325519 / 10 ^ 9)"
  "\<not> newtonBreaks (\<lambda>p. p / (1 + p)) (1 / 4)
       ((newtonSpecStep (\<lambda>p. p / (1 + p)) (1 / 4) ^^ 1) (1 / 2) * (1 / 10 ^ 11))
       ((newtonSpecStep (\<lambda>p. p / (1 + p)) (1 / 4) ^^ 1) (1 / 2))"
  "\<not> newtonAccepts (\<lambda>p. p / (1 + p)) (1 / 4)
       ((newtonSpecStep (\<lambda>p. p / (1 + p)) (1 / 4) ^^ 1) (1 / 2) * (1 / 10 ^ 11))
       ((newtonSpecStep (\<lambda>p. p / (1 + p)) (1 / 4) ^^ 1) (1 / 2))"
proof -
  let ?F = "\<lambda>p::real. p / (1 + p)"
  let ?S = "newtonSpecStep ?F (1 / 4)"
  let ?p = "(?S ^^ 1) (1 / 2)"
  let ?q = "(?S ^^ 2) (1 / 2)"
  let ?lo = "- (208334 / 10 ^ 7) :: real"
  let ?hi = "- (208333 / 10 ^ 7) :: real"
  let ?e = "?p * (1 / 10 ^ 11)"
  let ?el = "(1 / 3 + - (208334 / 10 ^ 7)) * (1 / 10 ^ 11) :: real"
  let ?eh = "(1 / 3 + - (208333 / 10 ^ 7)) * (1 / 10 ^ 11) :: real"
  have el: "?el \<le> ?e" and eh: "?e \<le> ?eh"
    using example_quarter_spec_1 by simp_all
  have succ: "?q = newtonStep ?F (1 / 4) ?e ?p"
    by (simp add: eval_nat_numeral newtonSpecStep_def)
  note b = example_quarter_mid [where p = "?p" and eps = "?e" and epslo = "?el"
      and epshi = "?eh" and lo = "?lo" and hi = "?hi", OF _ el eh example_quarter_spec_1(1,2)]
  have "- (325523 / 10 ^ 9) \<le> - (3 / 4) * ?lo * (?lo + ?el)"
    by simp
  also have "\<dots> \<le> newtonStep ?F (1 / 4) ?e ?p - 1 / 3"
    by (rule b(1)) simp_all
  finally show "- (325523 / 10 ^ 9) \<le> ?q - 1 / 3"
    unfolding succ .
  have "newtonStep ?F (1 / 4) ?e ?p - 1 / 3 \<le> - (3 / 4) * ?hi * (?hi + ?eh)"
    by (rule b(2)) simp_all
  also have "\<dots> \<le> - (325519 / 10 ^ 9)"
    by simp
  finally show "?q - 1 / 3 \<le> - (325519 / 10 ^ 9)"
    unfolding succ .
  show "\<not> newtonBreaks ?F (1 / 4) ?e ?p"
    by (rule b(3)) simp_all
  show "\<not> newtonAccepts ?F (1 / 4) ?e ?p"
    by (rule b(4)) simp_all
qed

lemma example_quarter_spec_3:
  "- (794740 / 10 ^ 13)
     \<le> (newtonSpecStep (\<lambda>p. p / (1 + p)) (1 / 4) ^^ 3) (1 / 2) - 1 / 3"
  "(newtonSpecStep (\<lambda>p. p / (1 + p)) (1 / 4) ^^ 3) (1 / 2) - 1 / 3
     \<le> - (794719 / 10 ^ 13)"
  "\<not> newtonBreaks (\<lambda>p. p / (1 + p)) (1 / 4)
       ((newtonSpecStep (\<lambda>p. p / (1 + p)) (1 / 4) ^^ 2) (1 / 2) * (1 / 10 ^ 11))
       ((newtonSpecStep (\<lambda>p. p / (1 + p)) (1 / 4) ^^ 2) (1 / 2))"
  "\<not> newtonAccepts (\<lambda>p. p / (1 + p)) (1 / 4)
       ((newtonSpecStep (\<lambda>p. p / (1 + p)) (1 / 4) ^^ 2) (1 / 2) * (1 / 10 ^ 11))
       ((newtonSpecStep (\<lambda>p. p / (1 + p)) (1 / 4) ^^ 2) (1 / 2))"
proof -
  let ?F = "\<lambda>p::real. p / (1 + p)"
  let ?S = "newtonSpecStep ?F (1 / 4)"
  let ?p = "(?S ^^ 2) (1 / 2)"
  let ?q = "(?S ^^ 3) (1 / 2)"
  let ?lo = "- (325523 / 10 ^ 9) :: real"
  let ?hi = "- (325519 / 10 ^ 9) :: real"
  let ?e = "?p * (1 / 10 ^ 11)"
  let ?el = "(1 / 3 + - (325523 / 10 ^ 9)) * (1 / 10 ^ 11) :: real"
  let ?eh = "(1 / 3 + - (325519 / 10 ^ 9)) * (1 / 10 ^ 11) :: real"
  have el: "?el \<le> ?e" and eh: "?e \<le> ?eh"
    using example_quarter_spec_2 by simp_all
  have succ: "?q = newtonStep ?F (1 / 4) ?e ?p"
    by (simp add: eval_nat_numeral newtonSpecStep_def)
  note b = example_quarter_mid [where p = "?p" and eps = "?e" and epslo = "?el"
      and epshi = "?eh" and lo = "?lo" and hi = "?hi", OF _ el eh example_quarter_spec_2(1,2)]
  have "- (794740 / 10 ^ 13) \<le> - (3 / 4) * ?lo * (?lo + ?el)"
    by simp
  also have "\<dots> \<le> newtonStep ?F (1 / 4) ?e ?p - 1 / 3"
    by (rule b(1)) simp_all
  finally show "- (794740 / 10 ^ 13) \<le> ?q - 1 / 3"
    unfolding succ .
  have "newtonStep ?F (1 / 4) ?e ?p - 1 / 3 \<le> - (3 / 4) * ?hi * (?hi + ?eh)"
    by (rule b(2)) simp_all
  also have "\<dots> \<le> - (794719 / 10 ^ 13)"
    by simp
  finally show "?q - 1 / 3 \<le> - (794719 / 10 ^ 13)"
    unfolding succ .
  show "\<not> newtonBreaks ?F (1 / 4) ?e ?p"
    by (rule b(3)) simp_all
  show "\<not> newtonAccepts ?F (1 / 4) ?e ?p"
    by (rule b(4)) simp_all
qed

lemma example_quarter_spec_4:
  "- (473689 / 10 ^ 20)
     \<le> (newtonSpecStep (\<lambda>p. p / (1 + p)) (1 / 4) ^^ 4) (1 / 2) - 1 / 3"
  "(newtonSpecStep (\<lambda>p. p / (1 + p)) (1 / 4) ^^ 4) (1 / 2) - 1 / 3
     \<le> - (473663 / 10 ^ 20)"
  "\<not> newtonBreaks (\<lambda>p. p / (1 + p)) (1 / 4)
       ((newtonSpecStep (\<lambda>p. p / (1 + p)) (1 / 4) ^^ 3) (1 / 2) * (1 / 10 ^ 11))
       ((newtonSpecStep (\<lambda>p. p / (1 + p)) (1 / 4) ^^ 3) (1 / 2))"
  "\<not> newtonAccepts (\<lambda>p. p / (1 + p)) (1 / 4)
       ((newtonSpecStep (\<lambda>p. p / (1 + p)) (1 / 4) ^^ 3) (1 / 2) * (1 / 10 ^ 11))
       ((newtonSpecStep (\<lambda>p. p / (1 + p)) (1 / 4) ^^ 3) (1 / 2))"
proof -
  let ?F = "\<lambda>p::real. p / (1 + p)"
  let ?S = "newtonSpecStep ?F (1 / 4)"
  let ?p = "(?S ^^ 3) (1 / 2)"
  let ?q = "(?S ^^ 4) (1 / 2)"
  let ?lo = "- (794740 / 10 ^ 13) :: real"
  let ?hi = "- (794719 / 10 ^ 13) :: real"
  let ?e = "?p * (1 / 10 ^ 11)"
  let ?el = "(1 / 3 + - (794740 / 10 ^ 13)) * (1 / 10 ^ 11) :: real"
  let ?eh = "(1 / 3 + - (794719 / 10 ^ 13)) * (1 / 10 ^ 11) :: real"
  have el: "?el \<le> ?e" and eh: "?e \<le> ?eh"
    using example_quarter_spec_3 by simp_all
  have succ: "?q = newtonStep ?F (1 / 4) ?e ?p"
    by (simp add: eval_nat_numeral newtonSpecStep_def)
  note b = example_quarter_mid [where p = "?p" and eps = "?e" and epslo = "?el"
      and epshi = "?eh" and lo = "?lo" and hi = "?hi", OF _ el eh example_quarter_spec_3(1,2)]
  have "- (473689 / 10 ^ 20) \<le> - (3 / 4) * ?lo * (?lo + ?el)"
    by simp
  also have "\<dots> \<le> newtonStep ?F (1 / 4) ?e ?p - 1 / 3"
    by (rule b(1)) simp_all
  finally show "- (473689 / 10 ^ 20) \<le> ?q - 1 / 3"
    unfolding succ .
  have "newtonStep ?F (1 / 4) ?e ?p - 1 / 3 \<le> - (3 / 4) * ?hi * (?hi + ?eh)"
    by (rule b(2)) simp_all
  also have "\<dots> \<le> - (473663 / 10 ^ 20)"
    by simp
  finally show "?q - 1 / 3 \<le> - (473663 / 10 ^ 20)"
    unfolding succ .
  show "\<not> newtonBreaks ?F (1 / 4) ?e ?p"
    by (rule b(3)) simp_all
  show "\<not> newtonAccepts ?F (1 / 4) ?e ?p"
    by (rule b(4)) simp_all
qed

lemma example_quarter_spec_5:
  "118247 / 10 ^ 31
     \<le> (newtonSpecStep (\<lambda>p. p / (1 + p)) (1 / 4) ^^ 5) (1 / 2) - 1 / 3"
  "(newtonSpecStep (\<lambda>p. p / (1 + p)) (1 / 4) ^^ 5) (1 / 2) - 1 / 3
     \<le> 118254 / 10 ^ 31"
  "newtonAccepts (\<lambda>p. p / (1 + p)) (1 / 4)
       ((newtonSpecStep (\<lambda>p. p / (1 + p)) (1 / 4) ^^ 4) (1 / 2) * (1 / 10 ^ 11))
       ((newtonSpecStep (\<lambda>p. p / (1 + p)) (1 / 4) ^^ 4) (1 / 2))"
proof -
  let ?F = "\<lambda>p::real. p / (1 + p)"
  let ?S = "newtonSpecStep ?F (1 / 4)"
  let ?p = "(?S ^^ 4) (1 / 2)"
  let ?q = "(?S ^^ 5) (1 / 2)"
  let ?lo = "- (473689 / 10 ^ 20) :: real"
  let ?hi = "- (473663 / 10 ^ 20) :: real"
  let ?e = "?p * (1 / 10 ^ 11)"
  let ?el = "(1 / 3 + - (473689 / 10 ^ 20)) * (1 / 10 ^ 11) :: real"
  let ?eh = "(1 / 3 + - (473663 / 10 ^ 20)) * (1 / 10 ^ 11) :: real"
  have el: "?el \<le> ?e" and eh: "?e \<le> ?eh"
    using example_quarter_spec_4 by simp_all
  have succ: "?q = newtonStep ?F (1 / 4) ?e ?p"
    by (simp add: eval_nat_numeral newtonSpecStep_def)
  note b = example_quarter_last [where p = "?p" and eps = "?e" and epslo = "?el"
      and epshi = "?eh" and lo = "?lo" and hi = "?hi", OF _ el eh example_quarter_spec_4(1,2)]
  have "118247 / 10 ^ 31 \<le> 3 / 4 * - ?hi * (?lo + ?el)"
    by simp
  also have "\<dots> \<le> newtonStep ?F (1 / 4) ?e ?p - 1 / 3"
    by (rule b(1)) simp_all
  finally show "118247 / 10 ^ 31 \<le> ?q - 1 / 3"
    unfolding succ .
  have "newtonStep ?F (1 / 4) ?e ?p - 1 / 3 \<le> 3 / 4 * - ?lo * (?hi + ?eh)"
    by (rule b(2)) simp_all
  also have "\<dots> \<le> 118254 / 10 ^ 31"
    by simp
  finally show "?q - 1 / 3 \<le> 118254 / 10 ^ 31"
    unfolding succ .
  show "newtonAccepts ?F (1 / 4) ?e ?p"
    by (rule b(3)) simp_all
qed

lemma example_quarter_differ:
  "(newtonStep (\<lambda>p. p / (1 + p)) (1 / 4) (1 / 2 * (1 / 10 ^ 11)) ^^ 5) (1 / 2)
     \<noteq> (newtonSpecStep (\<lambda>p. p / (1 + p)) (1 / 4) ^^ 5) (1 / 2)"
  using example_quarter_code_5(1) example_quarter_spec_5(2) by simp

lemma example_quarter_code_rejects:
  "\<forall>j<4. \<not> newtonAccepts (\<lambda>p. p / (1 + p)) (1 / 4) (1 / 2 * (1 / 10 ^ 11))
             ((newtonStep (\<lambda>p. p / (1 + p)) (1 / 4) (1 / 2 * (1 / 10 ^ 11)) ^^ j) (1 / 2))
         \<and> \<not> newtonBreaks (\<lambda>p. p / (1 + p)) (1 / 4) (1 / 2 * (1 / 10 ^ 11))
             ((newtonStep (\<lambda>p. p / (1 + p)) (1 / 4) (1 / 2 * (1 / 10 ^ 11)) ^^ j) (1 / 2))"
proof (intro allI impI)
  fix j :: nat
  assume "j < 4"
  then have "j = 0 \<or> j = 1 \<or> j = 2 \<or> j = 3" by arith
  then show "\<not> newtonAccepts (\<lambda>p. p / (1 + p)) (1 / 4) (1 / 2 * (1 / 10 ^ 11))
             ((newtonStep (\<lambda>p. p / (1 + p)) (1 / 4) (1 / 2 * (1 / 10 ^ 11)) ^^ j) (1 / 2))
         \<and> \<not> newtonBreaks (\<lambda>p. p / (1 + p)) (1 / 4) (1 / 2 * (1 / 10 ^ 11))
             ((newtonStep (\<lambda>p. p / (1 + p)) (1 / 4) (1 / 2 * (1 / 10 ^ 11)) ^^ j) (1 / 2))"
    using example_quarter_code_0 example_quarter_code_2(3,4) example_quarter_code_3(3,4)
      example_quarter_code_4(3,4)
    by (elim disjE) simp_all
qed

lemma example_quarter_spec_rejects:
  "\<forall>j<4. \<not> newtonAccepts (\<lambda>p. p / (1 + p)) (1 / 4)
             ((newtonSpecStep (\<lambda>p. p / (1 + p)) (1 / 4) ^^ j) (1 / 2) * (1 / 10 ^ 11))
             ((newtonSpecStep (\<lambda>p. p / (1 + p)) (1 / 4) ^^ j) (1 / 2))
         \<and> \<not> newtonBreaks (\<lambda>p. p / (1 + p)) (1 / 4)
             ((newtonSpecStep (\<lambda>p. p / (1 + p)) (1 / 4) ^^ j) (1 / 2) * (1 / 10 ^ 11))
             ((newtonSpecStep (\<lambda>p. p / (1 + p)) (1 / 4) ^^ j) (1 / 2))"
proof (intro allI impI)
  fix j :: nat
  assume "j < 4"
  then have "j = 0 \<or> j = 1 \<or> j = 2 \<or> j = 3" by arith
  then show "\<not> newtonAccepts (\<lambda>p. p / (1 + p)) (1 / 4)
             ((newtonSpecStep (\<lambda>p. p / (1 + p)) (1 / 4) ^^ j) (1 / 2) * (1 / 10 ^ 11))
             ((newtonSpecStep (\<lambda>p. p / (1 + p)) (1 / 4) ^^ j) (1 / 2))
         \<and> \<not> newtonBreaks (\<lambda>p. p / (1 + p)) (1 / 4)
             ((newtonSpecStep (\<lambda>p. p / (1 + p)) (1 / 4) ^^ j) (1 / 2) * (1 / 10 ^ 11))
             ((newtonSpecStep (\<lambda>p. p / (1 + p)) (1 / 4) ^^ j) (1 / 2))"
    using example_quarter_spec_0 example_quarter_spec_2(3,4) example_quarter_spec_3(3,4)
      example_quarter_spec_4(3,4)
    by (elim disjE) simp_all
qed

lemma example_quarter_seed:
  "(saturationPressureSpline_m exampleGasPvt ! 0) (1 / 4) = 1 / 2"
  by (simp add: exampleGasPvt_def)

lemma example_quarter_code_returns:
  "fst (gasSaturationPressure exampleGasPvt 0 300 (1 / 4))
     = Inr ((newtonStep (\<lambda>p. p / (1 + p)) (1 / 4) (1 / 2 * (1 / 10 ^ 11)) ^^ 5) (1 / 2))"
proof -
  let ?G = "\<lambda>p. fst (saturatedGasOilMassFraction exampleGasPvt 0 300 p)"
  let ?e = "1 / 2 * (1 / 10 ^ 11) :: real"
  have G: "?G = (\<lambda>p. p / (1 + p))" by (rule example_massFraction)
  have five: "Suc 4 = 5" by simp
  have "fst (newtonLoop 0 300 (1 / 4) ?e 20 (1 / 2) exampleGasPvt)
          = Some ((newtonStep ?G (1 / 4) ?e ^^ Suc 4) (1 / 2))"
  proof (rule newtonLoop_returns)
    show "(4::nat) < 20" by simp
    show "newtonAccepts ?G (1 / 4) ?e ((newtonStep ?G (1 / 4) ?e ^^ 4) (1 / 2))"
      unfolding G by (rule example_quarter_code_5(3))
    show "\<forall>j<4. \<not> newtonAccepts ?G (1 / 4) ?e ((newtonStep ?G (1 / 4) ?e ^^ j) (1 / 2))
                 \<and> \<not> newtonBreaks ?G (1 / 4) ?e ((newtonStep ?G (1 / 4) ?e ^^ j) (1 / 2))"
      unfolding G by (rule example_quarter_code_rejects)
  qed
  then have "fst (newtonLoop 0 300 (1 / 4)
                   ((saturationPressureSpline_m exampleGasPvt ! 0) (1 / 4) * (1 / 10 ^ 11)) 20
                   ((saturationPressureSpline_m exampleGasPvt ! 0) (1 / 4)) exampleGasPvt)
          = Some ((newtonStep (\<lambda>p. p / (1 + p)) (1 / 4) ?e ^^ 5) (1 / 2))"
    unfolding G five example_quarter_seed .
  then show ?thesis by (rule gasSaturationPressure_Some)
qed

lemma example_quarter_spec_returns:
  "gasSaturationPressure_spec exampleGasPvt 0 300 (1 / 4)
     = Inr ((newtonSpecStep (\<lambda>p. p / (1 + p)) (1 / 4) ^^ 5) (1 / 2))"
proof -
  have five: "Suc 4 = 5" by simp
  have "newtonSpec (\<lambda>p. p / (1 + p)) (1 / 4) 20 (1 / 2)
          = Some ((newtonSpecStep (\<lambda>p. p / (1 + p)) (1 / 4) ^^ Suc 4) (1 / 2))"
  proof (rule newtonSpec_returns)
    show "(4::nat) < 20" by simp
    show "newtonAccepts (\<lambda>p. p / (1 + p)) (1 / 4)
            ((newtonSpecStep (\<lambda>p. p / (1 + p)) (1 / 4) ^^ 4) (1 / 2) * (1 / 10 ^ 11))
            ((newtonSpecStep (\<lambda>p. p / (1 + p)) (1 / 4) ^^ 4) (1 / 2))"
      by (rule example_quarter_spec_5(3))
  qed (rule example_quarter_spec_rejects)
  then have sp: "newtonSpec (\<lambda>p. p / (1 + p)) (1 / 4) 20 (1 / 2)
          = Some ((newtonSpecStep (\<lambda>p. p / (1 + p)) (1 / 4) ^^ 5) (1 / 2))"
    unfolding five .
  show ?thesis
    unfolding gasSaturationPressure_spec_def example_massFraction example_quarter_seed sp
    by simp
qed

text \<open>
  C1 as stated, with the step \<open>eps = p * 1e-11\<close> of the current \<open>p\<close> at each iteration,
  fails: in region 0 of the example with \<open>XgO = 0.25\<close> the seed is 0.5 and the
  saturation pressure is 1/3. The source, with the step \<open>0.5e-11\<close> of the seed in every
  iteration, and the iteration of the specification, with the step of the current
  iterate, both return after the fifth update, and the two pressures differ.
\<close>

theorem gasSaturationPressure_spec_counterexample:
  "fst (gasSaturationPressure exampleGasPvt 0 300 (1 / 4))
     \<noteq> gasSaturationPressure_spec exampleGasPvt 0 300 (1 / 4)"
  unfolding example_quarter_code_returns example_quarter_spec_returns
  using example_quarter_differ by simp

lemma example_massFraction1:
  "(\<lambda>p. fst (saturatedGasOilMassFraction exampleGasPvt (Suc 0) T p)) = (\<lambda>p. p / (1 + p))"
  by (simp add: saturatedGasOilMassFraction_def oilVaporizationFactor_def exampleGasPvt_def
      fun_eq_iff)

lemma example_unreachable_step:
  assumes "0 < p" "0 < eps"
  shows "newtonStep (\<lambda>p. p / (1 + p)) 1 eps p = 2 * p + 1 + eps"
    and "\<not> newtonAccepts (\<lambda>p. p / (1 + p)) 1 eps p"
proof -
  have nz: "1 + p \<noteq> 0" "1 + (p + eps) \<noteq> 0" "eps \<noteq> 0" "1 + p + eps \<noteq> 0"
    using assms by simp_all
  have "(p + eps) / (1 + (p + eps)) - p / (1 + p)
          = ((p + eps) * (1 + p) - p * (1 + (p + eps))) / ((1 + (p + eps)) * (1 + p))"
    using nz by (simp add: diff_frac_eq)
  also have "\<dots> = eps / ((1 + p) * (1 + p + eps))"
    by (simp add: algebra_simps)
  finally have num: "((p + eps) / (1 + (p + eps)) - 1) - (p / (1 + p) - 1)
                       = eps / ((1 + p) * (1 + p + eps))"
    by simp
  have fd: "fdDerivative (\<lambda>p. p / (1 + p)) 1 eps p = 1 / ((1 + p) * (1 + p + eps))"
    unfolding fdDerivative_def num using nz by simp
  have "p / (1 + p) - 1 = p / (1 + p) - (1 + p) / (1 + p)"
    using nz by simp
  also have "\<dots> = (p - (1 + p)) / (1 + p)"
    by (simp only: diff_divide_distrib)
  finally have res: "p / (1 + p) - 1 = - 1 / (1 + p)"
    by simp
  have delta: "(p / (1 + p) - 1) / fdDerivative (\<lambda>p. p / (1 + p)) 1 eps p = - (1 + p + eps)"
    unfolding fd res using nz by simp
  show step: "newtonStep (\<lambda>p. p / (1 + p)) 1 eps p = 2 * p + 1 + eps"
    unfolding newtonStep_def delta by simp
  have "\<not> \<bar>- (1 + p + eps)\<bar> < \<bar>2 * p + 1 + eps\<bar> * (1 / 10 ^ 10)"
    using assms by simp
  then show "\<not> newtonAccepts (\<lambda>p. p / (1 + p)) 1 eps p"
    unfolding newtonAccepts_def step delta by simp
qed

lemma example_unreachable_iterates:
  assumes "0 < p" "0 < eps"
  shows "0 < (newtonStep (\<lambda>p. p / (1 + p)) 1 eps ^^ k) p"
proof (induction k)
  case 0
  show ?case using assms by simp
next
  case (Suc k)
  show ?case
    using example_unreachable_step(1) [OF Suc.IH assms(2)] Suc.IH assms(2) by simp
qed

lemma example_never_accepts:
  "\<not> newtonAccepts (\<lambda>p. p / (1 + p)) 1 (2 * (1 / 10 ^ 11))
       ((newtonStep (\<lambda>p. p / (1 + p)) 1 (2 * (1 / 10 ^ 11)) ^^ k) 2)"
  by (rule example_unreachable_step(2) [OF example_unreachable_iterates]) simp_all

text \<open>
  C1 (amended). In a valid region, with the seed the spline at \<open>XgO\<close>, the step
  \<open>eps = seed * 1e-11\<close> computed once before the loop, and \<open>F\<close> the saturated oil mass
  fraction of the region at the temperature: \<open>gasSaturationPressure\<close> returns \<open>p\<close> exactly
  when \<open>p\<close> is the seed after \<open>k + 1\<close> updates \<open>p - (F p - XgO) / f'\<close> for some \<open>k < 20\<close>,
  where \<open>f'\<close> is the forward difference with the step \<open>eps\<close>, the update \<open>k\<close> is the
  first whose size is below \<open>|p| * 1e-10\<close> for the updated \<open>p\<close>, and no divisor was zero
  before.
\<close>

theorem gasSaturationPressure_newton:
  assumes "validRegion this regionIdx"
  shows "fst (gasSaturationPressure this regionIdx temperature XgO) = Inr p
         \<longleftrightarrow>
         (let F = (\<lambda>p. fst (saturatedGasOilMassFraction this regionIdx temperature p));
              seed = (saturationPressureSpline_m this ! regionIdx) XgO;
              eps = seed * (1 / 10 ^ 11)
          in \<exists>k<20. p = (newtonStep F XgO eps ^^ Suc k) seed
               \<and> newtonAccepts F XgO eps ((newtonStep F XgO eps ^^ k) seed)
               \<and> (\<forall>j<k. \<not> newtonAccepts F XgO eps ((newtonStep F XgO eps ^^ j) seed)
                      \<and> \<not> newtonBreaks F XgO eps ((newtonStep F XgO eps ^^ j) seed)))"
proof
  assume "fst (gasSaturationPressure this regionIdx temperature XgO) = Inr p"
  then show "let F = (\<lambda>p. fst (saturatedGasOilMassFraction this regionIdx temperature p));
              seed = (saturationPressureSpline_m this ! regionIdx) XgO;
              eps = seed * (1 / 10 ^ 11)
          in \<exists>k<20. p = (newtonStep F XgO eps ^^ Suc k) seed
               \<and> newtonAccepts F XgO eps ((newtonStep F XgO eps ^^ k) seed)
               \<and> (\<forall>j<k. \<not> newtonAccepts F XgO eps ((newtonStep F XgO eps ^^ j) seed)
                      \<and> \<not> newtonBreaks F XgO eps ((newtonStep F XgO eps ^^ j) seed))"
    unfolding Let_def by (rule newtonLoop_Some [OF gasSaturationPressure_Inr])
next
  let ?F = "\<lambda>p. fst (saturatedGasOilMassFraction this regionIdx temperature p)"
  let ?seed = "(saturationPressureSpline_m this ! regionIdx) XgO"
  let ?eps = "?seed * (1 / 10 ^ 11)"
  assume "let F = ?F; seed = ?seed; eps = seed * (1 / 10 ^ 11)
          in \<exists>k<20. p = (newtonStep F XgO eps ^^ Suc k) seed
               \<and> newtonAccepts F XgO eps ((newtonStep F XgO eps ^^ k) seed)
               \<and> (\<forall>j<k. \<not> newtonAccepts F XgO eps ((newtonStep F XgO eps ^^ j) seed)
                      \<and> \<not> newtonBreaks F XgO eps ((newtonStep F XgO eps ^^ j) seed))"
  then obtain k where k: "k < 20" "p = (newtonStep ?F XgO ?eps ^^ Suc k) ?seed"
    "newtonAccepts ?F XgO ?eps ((newtonStep ?F XgO ?eps ^^ k) ?seed)"
    "\<forall>j<k. \<not> newtonAccepts ?F XgO ?eps ((newtonStep ?F XgO ?eps ^^ j) ?seed)
            \<and> \<not> newtonBreaks ?F XgO ?eps ((newtonStep ?F XgO ?eps ^^ j) ?seed)"
    unfolding Let_def by blast
  have "fst (newtonLoop regionIdx temperature XgO ?eps 20 ?seed this)
          = Some ((newtonStep ?F XgO ?eps ^^ Suc k) ?seed)"
    by (rule newtonLoop_returns [OF k(1) k(3) k(4)])
  then show "fst (gasSaturationPressure this regionIdx temperature XgO) = Inr p"
    unfolding k(2) by (rule gasSaturationPressure_Some)
qed

text \<open>
  Region 0 of the example with \<open>XgO = 0.25\<close>: the seed is 0.5, away from the saturation
  pressure 1/3, and the step is \<open>0.5e-11\<close> in every iteration. The first four updates
  do not pass the test, the fifth does, and the pressure returned is the seed after
  five updates with that step.
\<close>

theorem gasSaturationPressure_newton_witness:
  "validRegion exampleGasPvt 0
   \<and> (saturationPressureSpline_m exampleGasPvt ! 0) (1 / 4) = 1 / 2
   \<and> \<not> newtonAccepts (\<lambda>p. fst (saturatedGasOilMassFraction exampleGasPvt 0 300 p)) (1 / 4)
         (1 / 2 * (1 / 10 ^ 11)) (1 / 2)
   \<and> fst (gasSaturationPressure exampleGasPvt 0 300 (1 / 4))
       = Inr ((newtonStep (\<lambda>p. fst (saturatedGasOilMassFraction exampleGasPvt 0 300 p)) (1 / 4)
                 (1 / 2 * (1 / 10 ^ 11)) ^^ 5) (1 / 2))"
proof -
  let ?G = "\<lambda>p. fst (saturatedGasOilMassFraction exampleGasPvt 0 300 p)"
  let ?e = "1 / 2 * (1 / 10 ^ 11) :: real"
  have G: "?G = (\<lambda>p. p / (1 + p))" by (rule example_massFraction)
  have five: "Suc 4 = 5" by simp
  have first: "\<not> newtonAccepts ?G (1 / 4) ?e (1 / 2)"
    unfolding G using example_quarter_code_0(2) by simp
  have run: "let F = ?G;
                 seed = (saturationPressureSpline_m exampleGasPvt ! 0) (1 / 4);
                 eps = seed * (1 / 10 ^ 11)
             in \<exists>k<20. (newtonStep ?G (1 / 4) ?e ^^ 5) (1 / 2)
                          = (newtonStep F (1 / 4) eps ^^ Suc k) seed
                  \<and> newtonAccepts F (1 / 4) eps ((newtonStep F (1 / 4) eps ^^ k) seed)
                  \<and> (\<forall>j<k. \<not> newtonAccepts F (1 / 4) eps ((newtonStep F (1 / 4) eps ^^ j) seed)
                         \<and> \<not> newtonBreaks F (1 / 4) eps ((newtonStep F (1 / 4) eps ^^ j) seed))"
    unfolding Let_def example_quarter_seed G
  proof (intro exI [of _ "4::nat"] conjI)
    show "(4::nat) < 20" by simp
    show "(newtonStep (\<lambda>p. p / (1 + p)) (1 / 4) ?e ^^ 5) (1 / 2)
            = (newtonStep (\<lambda>p. p / (1 + p)) (1 / 4) ?e ^^ Suc 4) (1 / 2)"
      unfolding five ..
    show "newtonAccepts (\<lambda>p. p / (1 + p)) (1 / 4) ?e
            ((newtonStep (\<lambda>p. p / (1 + p)) (1 / 4) ?e ^^ 4) (1 / 2))"
      by (rule example_quarter_code_5(3))
    show "\<forall>j<4. \<not> newtonAccepts (\<lambda>p. p / (1 + p)) (1 / 4) ?e
                   ((newtonStep (\<lambda>p. p / (1 + p)) (1 / 4) ?e ^^ j) (1 / 2))
               \<and> \<not> newtonBreaks (\<lambda>p. p / (1 + p)) (1 / 4) ?e
                   ((newtonStep (\<lambda>p. p / (1 + p)) (1 / 4) ?e ^^ j) (1 / 2))"
      by (rule example_quarter_code_rejects)
  qed
  have ret: "fst (gasSaturationPressure exampleGasPvt 0 300 (1 / 4))
               = Inr ((newtonStep ?G (1 / 4) ?e ^^ 5) (1 / 2))"
    by (rule gasSaturationPressure_newton [OF example_validRegion(1), THEN iffD2, OF run])
  show ?thesis
    by (intro conjI example_validRegion(1) example_quarter_seed first ret)
qed

text \<open>
  C7 (amended). In a valid region, when none of the 20 updates passes the test of the
  loop, \<open>gasSaturationPressure\<close> throws a \<open>NumericalIssue\<close> whose message is the fixed
  text followed by the target composition \<open>XgO\<close>; it is not the \<open>std::logic_error\<close> of
  the multiplexer with no approach set. The region index is not part of the message.
\<close>

theorem gasSaturationPressure_not_converged:
  assumes "validRegion this regionIdx"
    and "\<forall>k<20. \<not> newtonAccepts
            (\<lambda>p. fst (saturatedGasOilMassFraction this regionIdx temperature p)) XgO
            ((saturationPressureSpline_m this ! regionIdx) XgO * (1 / 10 ^ 11))
            ((newtonStep (\<lambda>p. fst (saturatedGasOilMassFraction this regionIdx temperature p)) XgO
                ((saturationPressureSpline_m this ! regionIdx) XgO * (1 / 10 ^ 11)) ^^ k)
               ((saturationPressureSpline_m this ! regionIdx) XgO))"
  shows "fst (gasSaturationPressure this regionIdx temperature XgO)
           = Inl (NumericalIssue ''Could find the gas saturation pressure for X_g^O = '' XgO)
         \<and> NumericalIssue ''Could find the gas saturation pressure for X_g^O = '' XgO
           \<noteq> LogicError ''Not implemented: Oil PVT of this deck!''"
  using gasSaturationPressure_None [OF newtonLoop_None [OF assms(2)]] by simp

lemma example_unreachable_hyp:
  "\<forall>k<20. \<not> newtonAccepts
            (\<lambda>p. fst (saturatedGasOilMassFraction exampleGasPvt r 300 p)) 1
            ((saturationPressureSpline_m exampleGasPvt ! r) 1 * (1 / 10 ^ 11))
            ((newtonStep (\<lambda>p. fst (saturatedGasOilMassFraction exampleGasPvt r 300 p)) 1
                ((saturationPressureSpline_m exampleGasPvt ! r) 1 * (1 / 10 ^ 11)) ^^ k)
               ((saturationPressureSpline_m exampleGasPvt ! r) 1))"
  if "r = 0 \<or> r = 1" for r
proof -
  have F: "(\<lambda>p. fst (saturatedGasOilMassFraction exampleGasPvt r 300 p)) = (\<lambda>p. p / (1 + p))"
    using that example_massFraction [of 300] example_massFraction1 [of 300] by auto
  have seed: "(saturationPressureSpline_m exampleGasPvt ! r) 1 = 2"
    using that by (auto simp: exampleGasPvt_def)
  show ?thesis
    unfolding F seed using example_never_accepts by blast
qed

text \<open>
  Region 0 of the example with \<open>XgO = 1\<close>, a mass fraction that no pressure reaches: each
  update maps \<open>p\<close> to \<open>2 * p + 1 + eps\<close>, and no update passes the test.
\<close>

theorem gasSaturationPressure_not_converged_witness:
  "validRegion exampleGasPvt 0
   \<and> fst (gasSaturationPressure exampleGasPvt 0 300 1)
       = Inl (NumericalIssue ''Could find the gas saturation pressure for X_g^O = '' 1)"
proof -
  have h: "\<forall>k<20. \<not> newtonAccepts
            (\<lambda>p. fst (saturatedGasOilMassFraction exampleGasPvt 0 300 p)) 1
            ((saturationPressureSpline_m exampleGasPvt ! 0) 1 * (1 / 10 ^ 11))
            ((newtonStep (\<lambda>p. fst (saturatedGasOilMassFraction exampleGasPvt 0 300 p)) 1
                ((saturationPressureSpline_m exampleGasPvt ! 0) 1 * (1 / 10 ^ 11)) ^^ k)
               ((saturationPressureSpline_m exampleGasPvt ! 0) 1))"
    by (rule example_unreachable_hyp) simp
  show ?thesis
    using gasSaturationPressure_not_converged [OF example_validRegion(1) h] example_validRegion(1)
    by simp
qed

text \<open>
  C7 as stated fails: for \<open>XgO = 1\<close> the example throws the same \<open>NumericalIssue\<close> in
  region 0 and in region 1, so the error does not carry the region index.
\<close>

theorem numericalIssue_region_counterexample:
  "fst (gasSaturationPressure exampleGasPvt 0 300 1)
     = Inl (NumericalIssue ''Could find the gas saturation pressure for X_g^O = '' 1)
   \<and> fst (gasSaturationPressure exampleGasPvt 1 300 1)
     = Inl (NumericalIssue ''Could find the gas saturation pressure for X_g^O = '' 1)"
proof -
  have h: "\<forall>k<20. \<not> newtonAccepts
            (\<lambda>p. fst (saturatedGasOilMassFraction exampleGasPvt r 300 p)) 1
            ((saturationPressureSpline_m exampleGasPvt ! r) 1 * (1 / 10 ^ 11))
            ((newtonStep (\<lambda>p. fst (saturatedGasOilMassFraction exampleGasPvt r 300 p)) 1
                ((saturationPressureSpline_m exampleGasPvt ! r) 1 * (1 / 10 ^ 11)) ^^ k)
               ((saturationPressureSpline_m exampleGasPvt ! r) 1))"
    if "r = 0 \<or> r = 1" for r
    using that by (rule example_unreachable_hyp)
  show ?thesis
    using gasSaturationPressure_None [OF newtonLoop_None [OF h [of 0]]]
      gasSaturationPressure_None [OF newtonLoop_None [OF h [of 1]]]
    by simp
qed

section \<open>The gap fill of initFromDeck\<close>

lemma addSamples_Nil: "addSamples i [] t = t"
  by (simp add: addSamples_def)

lemma addSamples_length: "length (addSamples i ps t) = length t"
  by (simp add: addSamples_def)

lemma addSamples_append:
  "i < length t \<Longrightarrow> addSamples i qs (addSamples i ps t) = addSamples i (ps @ qs) t"
  by (simp add: addSamples_def)

lemma appendSamplePoint_addSamples: "appendSamplePoint i y v t = addSamples i [(y, v)] t"
  by (simp add: appendSamplePoint_def addSamples_def)

lemma addSamples_nth_same:
  "i < length t \<Longrightarrow> addSamples i ps t ! i = (fst (t ! i), snd (t ! i) @ ps)"
  by (simp add: addSamples_def)

lemma addSamples_nth_other: "j \<noteq> i \<Longrightarrow> addSamples i ps t ! j = t ! j"
  by (simp add: addSamples_def)

lemma snoc_addSamples: "addSamples (length B) ps (B @ [(x, [])]) = B @ [(x, ps)]"
  by (simp add: addSamples_def)

lemma appendInner_eq:
  assumes "outerIdx < length B" "outerIdx < length M"
  shows "appendInner u outerIdx k (B, M) =
           (addSamples outerIdx (samplesB (drop k u)) B,
            addSamples outerIdx (samplesMu (drop k u)) M)"
  using assms
proof (induction "length u - k" arbitrary: k B M)
  case 0
  then have "\<not> k < numRows u" by (simp add: numRows_def)
  then show ?case
    by (simp add: appendInner.simps [of u outerIdx k B M] numRows_def samplesB_def
        samplesMu_def addSamples_Nil)
next
  case (Suc n)
  then have k: "k < length u" by simp
  have d: "drop k u = u ! k # drop (Suc k) u"
    using k by (simp add: Cons_nth_drop_Suc)
  let ?B1 = "addSamples outerIdx [(fst (u ! k), 1 / fst (snd (u ! k)))] B"
  let ?M1 = "addSamples outerIdx [(fst (u ! k), snd (snd (u ! k)))] M"
  have step: "appendInner u outerIdx k (B, M) = appendInner u outerIdx (Suc k) (?B1, ?M1)"
    using k
    by (simp add: appendInner.simps [of u outerIdx k B M] numRows_def Let_def
        getOilSolubilityColumn_def getGasFormationFactorColumn_def getGasViscosityColumn_def
        appendSamplePoint_addSamples)
  have n: "n = length u - Suc k" using Suc.hyps(2) by simp
  have "appendInner u outerIdx (Suc k) (?B1, ?M1) =
          (addSamples outerIdx (samplesB (drop (Suc k) u)) ?B1,
           addSamples outerIdx (samplesMu (drop (Suc k) u)) ?M1)"
    using Suc.hyps(1) [OF n] Suc.prems by (simp add: addSamples_length)
  then show ?case
    using Suc.prems
    by (simp add: step d addSamples_append samplesB_def samplesMu_def)
qed

lemma extendRow_eq:
  assumes "xIdx < length B" "xIdx < length M"
  shows "extendRow m c xIdx k (B, M) =
           (addSamples xIdx (map (scaledB m c) [k..<length m]) B,
            addSamples xIdx (map (scaledMu m c) [k..<length m]) M)"
  using assms
proof (induction "length m - k" arbitrary: k B M)
  case 0
  then have "\<not> k < numRows m" by (simp add: numRows_def)
  then show ?case
    by (simp add: extendRow.simps [of m c xIdx k B M] numRows_def addSamples_Nil)
next
  case (Suc n)
  then have k: "k < length m" by simp
  have d: "[k..<length m] = k # [Suc k..<length m]"
    using k by (simp add: upt_conv_Cons)
  let ?B1 = "addSamples xIdx [scaledB m c k] B"
  let ?M1 = "addSamples xIdx [scaledMu m c k] M"
  have step: "extendRow m c xIdx k (B, M) = extendRow m c xIdx (Suc k) (?B1, ?M1)"
    using k
    by (simp add: extendRow.simps [of m c xIdx k B M] numRows_def Let_def
        scaledB_def scaledMu_def appendSamplePoint_addSamples)
  have n: "n = length m - Suc k" using Suc.hyps(2) by simp
  have "extendRow m c xIdx (Suc k) (?B1, ?M1) =
          (addSamples xIdx (map (scaledB m c) [Suc k..<length m]) ?B1,
           addSamples xIdx (map (scaledMu m c) [Suc k..<length m]) ?M1)"
    using Suc.hyps(1) [OF n] Suc.prems by (simp add: addSamples_length)
  then show ?case
    using Suc.prems by (simp add: step d addSamples_append)
qed

lemma extractLoop_eq:
  assumes "length B = outerIdx" "length M = outerIdx"
  shows "extractLoop t outerIdx (B, M) =
           (None, (B @ extractedB (drop outerIdx t), M @ extractedMu (drop outerIdx t)))"
  using assms
proof (induction "length t - outerIdx" arbitrary: outerIdx B M)
  case 0
  then have "\<not> outerIdx < numRows t" by (simp add: numRows_def)
  then show ?case
    by (simp add: extractLoop.simps [of t outerIdx B M] numRows_def extractedB_def
        extractedMu_def)
next
  case (Suc n)
  then have k: "outerIdx < length t" by simp
  have d: "drop outerIdx t = t ! outerIdx # drop (Suc outerIdx) t"
    using k by (simp add: Cons_nth_drop_Suc)
  let ?pg = "fst (t ! outerIdx)"
  let ?u = "getInnerTable t outerIdx"
  let ?B1 = "B @ [(?pg, [])]"
  let ?M1 = "M @ [(?pg, [])]"
  have inner: "appendInner ?u outerIdx 0 (?B1, ?M1) =
                 (B @ [(?pg, samplesB ?u)], M @ [(?pg, samplesMu ?u)])"
    using Suc.prems snoc_addSamples [of B "samplesB ?u" ?pg]
      snoc_addSamples [of M "samplesMu ?u" ?pg]
    by (simp add: appendInner_eq)
  have step: "extractLoop t outerIdx (B, M) =
                extractLoop t (Suc outerIdx) (B @ [(?pg, samplesB ?u)], M @ [(?pg, samplesMu ?u)])"
    using k Suc.prems inner
    by (simp add: extractLoop.simps [of t outerIdx B M] numRows_def Let_def
        getPressureColumn_def appendXPos_def numX_def)
  have n: "n = length t - Suc outerIdx" using Suc.hyps(2) by simp
  show ?case
    using Suc.hyps(1) [OF n, of "B @ [(?pg, samplesB ?u)]" "M @ [(?pg, samplesMu ?u)]"] Suc.prems
    by (simp add: step d extractedB_def extractedMu_def getInnerTable_def)
qed

lemma extractLoop_0:
  "extractLoop t 0 ([], []) = (None, (extractedB t, extractedMu t))"
  using extractLoop_eq [of "[]" 0 "[]" t] by simp

lemma findMasterTable_ge: "i \<le> findMasterTable t i"
proof (induction "length t - i" arbitrary: i)
  case 0
  then show ?case by (simp add: findMasterTable.simps [of t i] numRows_def)
next
  case (Suc n)
  then have n: "n = length t - Suc i" by simp
  show ?case
    using Suc.hyps(1) [OF n]
    by (simp add: findMasterTable.simps [of t i])
qed

lemma findMasterTable_found:
  "findMasterTable t i < length t \<Longrightarrow> 1 < length (getInnerTable t (findMasterTable t i))"
proof (induction "length t - i" arbitrary: i)
  case 0
  then show ?case
    using findMasterTable_ge [of i t] by simp
next
  case (Suc n)
  then have n: "n = length t - Suc i" by simp
  have i: "i < length t" using Suc.hyps(2) by simp
  show ?case
  proof (cases "1 < length (getInnerTable t i)")
    case True
    then show ?thesis
      using i by (simp add: findMasterTable.simps [of t i] numRows_def)
  next
    case False
    then have eq: "findMasterTable t i = findMasterTable t (Suc i)"
      using i by (simp add: findMasterTable.simps [of t i] numRows_def)
    show ?thesis
      using Suc.hyps(1) [OF n] Suc.prems by (simp add: eq)
  qed
qed

lemma findMasterTable_skipped:
  "i \<le> j \<Longrightarrow> j < findMasterTable t i \<Longrightarrow> j < length t
     \<Longrightarrow> \<not> 1 < length (getInnerTable t j)"
proof (induction "length t - i" arbitrary: i)
  case 0
  then show ?case by simp
next
  case (Suc n)
  then have n: "n = length t - Suc i" by simp
  have i: "i < length t" using Suc.hyps(2) by simp
  show ?case
  proof (cases "1 < length (getInnerTable t i)")
    case True
    then have "findMasterTable t i = i"
      using i by (simp add: findMasterTable.simps [of t i] numRows_def)
    then show ?thesis using Suc.prems by simp
  next
    case False
    then have eq: "findMasterTable t i = findMasterTable t (Suc i)"
      using i by (simp add: findMasterTable.simps [of t i] numRows_def)
    show ?thesis
    proof (cases "j = i")
      case True
      then show ?thesis using False by simp
    next
      case False
      then have "Suc i \<le> j" using Suc.prems(1) by simp
      then show ?thesis
        using Suc.hyps(1) [OF n] Suc.prems by (simp add: eq)
    qed
  qed
qed

lemma findMasterTable_first:
  assumes "i \<le> m" "m < length t" "1 < length (getInnerTable t m)"
    and "\<forall>j. i \<le> j \<and> j < m \<longrightarrow> \<not> 1 < length (getInnerTable t j)"
  shows "findMasterTable t i = m"
proof -
  let ?r = "findMasterTable t i"
  have "\<not> ?r < m"
  proof
    assume lt: "?r < m"
    then have "?r < length t" using assms(2) by simp
    then have "1 < length (getInnerTable t ?r)" by (rule findMasterTable_found)
    moreover have "i \<le> ?r" by (rule findMasterTable_ge)
    ultimately show False using assms(4) lt by blast
  qed
  moreover have "\<not> m < ?r"
  proof
    assume "m < ?r"
    then have "\<not> 1 < length (getInnerTable t m)"
      using findMasterTable_skipped [OF assms(1) _ assms(2)] by simp
    then show False using assms(3) by simp
  qed
  ultimately show ?thesis by simp
qed

lemma findMasterTable_none:
  assumes "\<forall>j. i \<le> j \<and> j < length t \<longrightarrow> \<not> 1 < length (getInnerTable t j)"
  shows "length t \<le> findMasterTable t i"
proof (rule ccontr)
  assume "\<not> length t \<le> findMasterTable t i"
  then have lt: "findMasterTable t i < length t" by simp
  then have "1 < length (getInnerTable t (findMasterTable t i))"
    by (rule findMasterTable_found)
  then show False
    using assms lt findMasterTable_ge [of i t] by blast
qed

lemma gapFill_fails:
  assumes "length B = length t" "length M = length t"
    and "\<forall>j. x \<le> j \<and> j < length t \<longrightarrow> numY B j = length (getInnerTable t j)"
    and "\<forall>j < length t. 0 < length (getInnerTable t j)"
    and "x \<le> y" "y < length t" "\<not> 1 < length (getInnerTable t y)"
    and "length t \<le> findMasterTable t (Suc y)"
  shows "fst (gapFill t x (B, M)) = Some (RuntimeError noMasterMessage)
         \<and> fst (snd (gapFill t x (B, M))) ! y = B ! y
         \<and> snd (snd (gapFill t x (B, M))) ! y = M ! y"
  using assms
proof (induction "y - x" arbitrary: x B M)
  case 0
  then have xy: "x = y" by simp
  have ny: "numY B y = length (getInnerTable t y)" using "0.prems" xy by simp
  have pos: "0 < length (getInnerTable t y)" using "0.prems" by simp
  show ?case
    using "0.prems" ny pos
    by (simp add: gapFill.simps [of t y B M] xy numX_def numRows_def Let_def)
next
  case (Suc n)
  then have x: "x < y" "x < length t" by simp_all
  have n: "n = y - Suc x" using Suc.hyps(2) by simp
  have nx: "numY B x = length (getInnerTable t x)" using Suc.prems x by simp
  have pos: "0 < length (getInnerTable t x)" using Suc.prems x by simp
  show ?case
  proof (cases "1 < length (getInnerTable t x)")
    case True
    have step: "gapFill t x (B, M) = gapFill t (Suc x) (B, M)"
      using x nx pos True Suc.prems(1)
      by (simp add: gapFill.simps [of t x B M] numX_def)
    show ?thesis
      using Suc.hyps(1) [OF n, of B M] Suc.prems x by (simp add: step)
  next
    case False
    show ?thesis
    proof (cases "length t \<le> findMasterTable t (Suc x)")
      case True
      show ?thesis
        using x nx pos False True Suc.prems(1)
        by (simp add: gapFill.simps [of t x B M] numX_def numRows_def Let_def)
    next
      case noThrow: False
      let ?mt = "getInnerTable t (findMasterTable t (Suc x))"
      let ?ct = "getInnerTable t x"
      let ?B' = "addSamples x (map (scaledB ?mt ?ct) [1..<length ?mt]) B"
      let ?M' = "addSamples x (map (scaledMu ?mt ?ct) [1..<length ?mt]) M"
      have ext: "extendRow ?mt ?ct x 1 (B, M) = (?B', ?M')"
        using x Suc.prems(1,2) by (simp add: extendRow_eq)
      have step: "gapFill t x (B, M) = gapFill t (Suc x) (?B', ?M')"
        using x nx pos False noThrow Suc.prems(1) ext
        by (simp add: gapFill.simps [of t x B M] numX_def numRows_def Let_def)
      have orig': "\<forall>j. Suc x \<le> j \<and> j < length t \<longrightarrow> numY ?B' j = length (getInnerTable t j)"
        using Suc.prems(3) by (simp add: numY_def addSamples_nth_other)
      have IH: "fst (gapFill t (Suc x) (?B', ?M')) = Some (RuntimeError noMasterMessage)
         \<and> fst (snd (gapFill t (Suc x) (?B', ?M'))) ! y = ?B' ! y
         \<and> snd (snd (gapFill t (Suc x) (?B', ?M'))) ! y = ?M' ! y"
        using Suc.prems x
        by (intro Suc.hyps(1) [OF n] orig') (simp_all add: addSamples_length)
      show ?thesis
        using IH x by (simp add: step addSamples_nth_other)
    qed
  qed
qed

lemma gapFill_succeeds:
  assumes "length B = length t" "length M = length t"
    and "\<forall>j. x \<le> j \<and> j < length t \<longrightarrow> numY B j = length (getInnerTable t j)"
    and "fst (gapFill t x (B, M)) = None"
  shows "(\<forall>j < length t. fst (snd (gapFill t x (B, M))) ! j = filledB t x B j
                       \<and> snd (snd (gapFill t x (B, M))) ! j = filledMu t x M j)
         \<and> (\<forall>j. x \<le> j \<and> j < length t \<and> \<not> 1 < length (getInnerTable t j)
                \<longrightarrow> findMasterTable t (Suc j) < length t)"
  using assms
proof (induction "length t - x" arbitrary: x B M)
  case 0
  then have "\<not> x < numX B" by (simp add: numX_def)
  then have "gapFill t x (B, M) = (None, (B, M))"
    by (simp add: gapFill.simps [of t x B M])
  then show ?case
    using 0 by (simp add: filledB_def filledMu_def)
next
  case (Suc n)
  then have x: "x < length t" by simp
  have n: "n = length t - Suc x" using Suc.hyps(2) by simp
  have nx: "numY B x = length (getInnerTable t x)" using Suc.prems x by simp
  have pos: "0 < length (getInnerTable t x)"
  proof (rule ccontr)
    assume "\<not> 0 < length (getInnerTable t x)"
    then have "fst (gapFill t x (B, M)) = Some AssertionFailure"
      using x nx Suc.prems(1) by (simp add: gapFill.simps [of t x B M] numX_def)
    then show False using Suc.prems(4) by simp
  qed
  have orig': "\<forall>j. Suc x \<le> j \<and> j < length t \<longrightarrow> numY B j = length (getInnerTable t j)"
    using Suc.prems(3) by simp
  show ?case
  proof (cases "1 < length (getInnerTable t x)")
    case True
    have step: "gapFill t x (B, M) = gapFill t (Suc x) (B, M)"
      using x nx pos True Suc.prems(1)
      by (simp add: gapFill.simps [of t x B M] numX_def)
    have IH: "(\<forall>j < length t. fst (snd (gapFill t (Suc x) (B, M))) ! j = filledB t (Suc x) B j
                       \<and> snd (snd (gapFill t (Suc x) (B, M))) ! j = filledMu t (Suc x) M j)
         \<and> (\<forall>j. Suc x \<le> j \<and> j < length t \<and> \<not> 1 < length (getInnerTable t j)
                \<longrightarrow> findMasterTable t (Suc j) < length t)"
      using Suc.prems(4)
      by (intro Suc.hyps(1) [OF n] Suc.prems(1,2) orig') (simp add: step)
    have same: "filledB t (Suc x) B j = filledB t x B j"
               "filledMu t (Suc x) M j = filledMu t x M j" for j
      using True by (cases "j = x"; simp add: filledB_def filledMu_def)+
    have ex: "findMasterTable t (Suc j) < length t"
      if "x \<le> j \<and> j < length t \<and> \<not> 1 < length (getInnerTable t j)" for j
    proof -
      from that True have "j \<noteq> x" by auto
      with that have "Suc x \<le> j" by simp
      with IH that show ?thesis by blast
    qed
    show ?thesis
      using IH ex by (simp add: step same)
  next
    case False
    have noThrow: "\<not> length t \<le> findMasterTable t (Suc x)"
    proof
      assume "length t \<le> findMasterTable t (Suc x)"
      then have "fst (gapFill t x (B, M)) = Some (RuntimeError noMasterMessage)"
        using x nx pos False Suc.prems(1)
        by (simp add: gapFill.simps [of t x B M] numX_def numRows_def Let_def)
      then show False using Suc.prems(4) by simp
    qed
    let ?mt = "getInnerTable t (findMasterTable t (Suc x))"
    let ?ct = "getInnerTable t x"
    let ?B' = "addSamples x (map (scaledB ?mt ?ct) [1..<length ?mt]) B"
    let ?M' = "addSamples x (map (scaledMu ?mt ?ct) [1..<length ?mt]) M"
    have ext: "extendRow ?mt ?ct x 1 (B, M) = (?B', ?M')"
      using x Suc.prems(1,2) by (simp add: extendRow_eq)
    have step: "gapFill t x (B, M) = gapFill t (Suc x) (?B', ?M')"
      using x nx pos False noThrow Suc.prems(1) ext
      by (simp add: gapFill.simps [of t x B M] numX_def numRows_def Let_def)
    have orig'': "\<forall>j. Suc x \<le> j \<and> j < length t \<longrightarrow> numY ?B' j = length (getInnerTable t j)"
      using Suc.prems(3) by (simp add: numY_def addSamples_nth_other)
    have IH: "(\<forall>j < length t. fst (snd (gapFill t (Suc x) (?B', ?M'))) ! j = filledB t (Suc x) ?B' j
                       \<and> snd (snd (gapFill t (Suc x) (?B', ?M'))) ! j = filledMu t (Suc x) ?M' j)
         \<and> (\<forall>j. Suc x \<le> j \<and> j < length t \<and> \<not> 1 < length (getInnerTable t j)
                \<longrightarrow> findMasterTable t (Suc j) < length t)"
      using Suc.prems(1,2,4)
      by (intro Suc.hyps(1) [OF n] orig'') (simp_all add: addSamples_length step)
    have same: "filledB t (Suc x) ?B' j = filledB t x B j"
               "filledMu t (Suc x) ?M' j = filledMu t x M j" if "j < length t" for j
      using False x Suc.prems(1,2) that
      by (cases "j = x";
          simp add: filledB_def filledMu_def addSamples_nth_other addSamples_nth_same masterOf_def)+
    have ex: "findMasterTable t (Suc j) < length t"
      if "x \<le> j \<and> j < length t \<and> \<not> 1 < length (getInnerTable t j)" for j
    proof (cases "j = x")
      case True
      then show ?thesis using noThrow by simp
    next
      case False
      with that have "Suc x \<le> j" by simp
      with IH that show ?thesis by blast
    qed
    show ?thesis
      using IH ex same by (simp add: step)
  qed
qed

lemma extracted_facts:
  "length (extractedB t) = length t" "length (extractedMu t) = length t"
  "j < length t \<Longrightarrow> numY (extractedB t) j = length (getInnerTable t j)"
  "j < length t \<Longrightarrow> snd (extractedB t ! j) = samplesB (getInnerTable t j)"
  "j < length t \<Longrightarrow> snd (extractedMu t ! j) = samplesMu (getInnerTable t j)"
  by (simp_all add: extractedB_def extractedMu_def numY_def samplesB_def getInnerTable_def)

lemma initFromDeckTables_eq:
  assumes "1 < numRows t"
  shows "initFromDeckTables t = gapFill t 0 (extractedB t, extractedMu t)"
  using assms by (simp add: initFromDeckTables_def extractLoop_0)

lemma initFromDeckTables_None_rows:
  assumes "fst (initFromDeckTables t) = None"
  shows "1 < numRows t"
  using assms by (auto simp: initFromDeckTables_def split: if_splits)

lemma findMasterTable_exists:
  "findMasterTable t i < length t
     \<longleftrightarrow> (\<exists>m. i \<le> m \<and> m < length t \<and> 1 < length (getInnerTable t m))"
proof
  assume lt: "findMasterTable t i < length t"
  show "\<exists>m. i \<le> m \<and> m < length t \<and> 1 < length (getInnerTable t m)"
    using lt findMasterTable_found [OF lt] findMasterTable_ge [of i t] by blast
next
  assume "\<exists>m. i \<le> m \<and> m < length t \<and> 1 < length (getInnerTable t m)"
  then obtain m where m: "i \<le> m" "m < length t" "1 < length (getInnerTable t m)" by blast
  show "findMasterTable t i < length t"
  proof (rule ccontr)
    assume "\<not> findMasterTable t i < length t"
    then have "m < findMasterTable t i" using m(2) by simp
    then have "\<not> 1 < length (getInnerTable t m)"
      by (rule findMasterTable_skipped [OF m(1) _ m(2)])
    then show False using m(3) by simp
  qed
qed

lemma findMasterTable_earlier:
  assumes "x \<le> y" "findMasterTable t (Suc y) < length t"
  shows "findMasterTable t (Suc x) < length t"
proof -
  from assms(2) obtain m where "Suc y \<le> m" "m < length t" "1 < length (getInnerTable t m)"
    unfolding findMasterTable_exists by blast
  then have "Suc x \<le> m \<and> m < length t \<and> 1 < length (getInnerTable t m)"
    using assms(1) by simp
  then show ?thesis unfolding findMasterTable_exists by blast
qed

lemma gapFill_keeps:
  assumes "length B = length t" "length M = length t" "j < x"
  shows "fst (snd (gapFill t x (B, M))) ! j = B ! j
         \<and> snd (snd (gapFill t x (B, M))) ! j = M ! j"
  using assms
proof (induction "length t - x" arbitrary: x B M)
  case 0
  then have "\<not> x < numX B" by (simp add: numX_def)
  then have "gapFill t x (B, M) = (None, (B, M))"
    by (simp add: gapFill.simps [of t x B M])
  then show ?case by simp
next
  case (Suc n)
  then have x: "x < length t" by simp
  have n: "n = length t - Suc x" using Suc.hyps(2) by simp
  have j: "j < Suc x" "j \<noteq> x" using Suc.prems(3) by simp_all
  let ?mt = "getInnerTable t (findMasterTable t (Suc x))"
  let ?ct = "getInnerTable t x"
  let ?B' = "addSamples x (map (scaledB ?mt ?ct) [1..<length ?mt]) B"
  let ?M' = "addSamples x (map (scaledMu ?mt ?ct) [1..<length ?mt]) M"
  have ext: "extendRow ?mt ?ct x 1 (B, M) = (?B', ?M')"
    using x Suc.prems(1,2) by (simp add: extendRow_eq)
  have same: "fst (snd (gapFill t (Suc x) (B, M))) ! j = B ! j
         \<and> snd (snd (gapFill t (Suc x) (B, M))) ! j = M ! j"
    by (rule Suc.hyps(1) [OF n Suc.prems(1,2) j(1)])
  have "fst (snd (gapFill t (Suc x) (?B', ?M'))) ! j = ?B' ! j
         \<and> snd (snd (gapFill t (Suc x) (?B', ?M'))) ! j = ?M' ! j"
    by (rule Suc.hyps(1) [OF n _ _ j(1)]) (simp_all add: addSamples_length Suc.prems(1,2))
  then have ext': "fst (snd (gapFill t (Suc x) (?B', ?M'))) ! j = B ! j
         \<and> snd (snd (gapFill t (Suc x) (?B', ?M'))) ! j = M ! j"
    using j(2) by (simp add: addSamples_nth_other)
  show ?case
    using x Suc.prems(1) same ext' ext
    by (simp add: gapFill.simps [of t x B M] numX_def numRows_def Let_def)
qed

lemma gapFill_extends:
  assumes "length B = length t" "length M = length t"
    and "\<forall>j. x \<le> j \<and> j < length t \<longrightarrow> numY B j = length (getInnerTable t j)"
    and "\<forall>j < length t. 0 < length (getInnerTable t j)"
    and "x \<le> y" "y < length t" "\<not> 1 < length (getInnerTable t y)"
    and "findMasterTable t (Suc y) < length t"
  shows "fst (snd (gapFill t x (B, M))) ! y
           = (fst (B ! y), snd (B ! y) @ map (scaledB (masterOf t y) (getInnerTable t y))
                                            [1..<length (masterOf t y)])
         \<and> snd (snd (gapFill t x (B, M))) ! y
           = (fst (M ! y), snd (M ! y) @ map (scaledMu (masterOf t y) (getInnerTable t y))
                                            [1..<length (masterOf t y)])"
  using assms
proof (induction "y - x" arbitrary: x B M)
  case 0
  then have xy: "x = y" by simp
  have ny: "numY B y = length (getInnerTable t y)" using "0.prems" xy by simp
  have pos: "0 < length (getInnerTable t y)" using "0.prems" by simp
  let ?mt = "getInnerTable t (findMasterTable t (Suc y))"
  let ?ct = "getInnerTable t y"
  let ?B' = "addSamples y (map (scaledB ?mt ?ct) [1..<length ?mt]) B"
  let ?M' = "addSamples y (map (scaledMu ?mt ?ct) [1..<length ?mt]) M"
  have ext: "extendRow ?mt ?ct y 1 (B, M) = (?B', ?M')"
    using "0.prems" by (simp add: extendRow_eq)
  have step: "gapFill t y (B, M) = gapFill t (Suc y) (?B', ?M')"
    using "0.prems" ny pos ext
    by (simp add: gapFill.simps [of t y B M] numX_def numRows_def Let_def)
  have "fst (snd (gapFill t (Suc y) (?B', ?M'))) ! y = ?B' ! y
         \<and> snd (snd (gapFill t (Suc y) (?B', ?M'))) ! y = ?M' ! y"
    by (rule gapFill_keeps) (simp_all add: addSamples_length "0.prems"(1,2))
  then show ?case
    using "0.prems"(1,2,6)
    by (simp add: xy step addSamples_nth_same masterOf_def)
next
  case (Suc n)
  then have x: "x < y" "x < length t" by simp_all
  have n: "n = y - Suc x" using Suc.hyps(2) by simp
  have nx: "numY B x = length (getInnerTable t x)" using Suc.prems x by simp
  have pos: "0 < length (getInnerTable t x)" using Suc.prems x by simp
  show ?case
  proof (cases "1 < length (getInnerTable t x)")
    case True
    have step: "gapFill t x (B, M) = gapFill t (Suc x) (B, M)"
      using x nx pos True Suc.prems(1)
      by (simp add: gapFill.simps [of t x B M] numX_def)
    show ?thesis
      using Suc.hyps(1) [OF n, of B M] Suc.prems x by (simp add: step)
  next
    case False
    have noThrow: "\<not> length t \<le> findMasterTable t (Suc x)"
      using findMasterTable_earlier [of x y t] x(1) Suc.prems(8) by simp
    let ?mt = "getInnerTable t (findMasterTable t (Suc x))"
    let ?ct = "getInnerTable t x"
    let ?B' = "addSamples x (map (scaledB ?mt ?ct) [1..<length ?mt]) B"
    let ?M' = "addSamples x (map (scaledMu ?mt ?ct) [1..<length ?mt]) M"
    have ext: "extendRow ?mt ?ct x 1 (B, M) = (?B', ?M')"
      using x Suc.prems(1,2) by (simp add: extendRow_eq)
    have step: "gapFill t x (B, M) = gapFill t (Suc x) (?B', ?M')"
      using x nx pos False noThrow Suc.prems(1) ext
      by (simp add: gapFill.simps [of t x B M] numX_def numRows_def Let_def)
    have orig': "\<forall>j. Suc x \<le> j \<and> j < length t \<longrightarrow> numY ?B' j = length (getInnerTable t j)"
      using Suc.prems(3) by (simp add: numY_def addSamples_nth_other)
    have IH: "fst (snd (gapFill t (Suc x) (?B', ?M'))) ! y
           = (fst (?B' ! y), snd (?B' ! y) @ map (scaledB (masterOf t y) (getInnerTable t y))
                                            [1..<length (masterOf t y)])
         \<and> snd (snd (gapFill t (Suc x) (?B', ?M'))) ! y
           = (fst (?M' ! y), snd (?M' ! y) @ map (scaledMu (masterOf t y) (getInnerTable t y))
                                            [1..<length (masterOf t y)])"
      using Suc.prems x
      by (intro Suc.hyps(1) [OF n] orig') (simp_all add: addSamples_length)
    show ?thesis
      using IH x by (simp add: step addSamples_nth_other)
  qed
qed

lemma gapFill_total:
  assumes "length B = length t" "length M = length t"
    and "\<forall>j. x \<le> j \<and> j < length t \<longrightarrow> numY B j = length (getInnerTable t j)"
    and "\<forall>j < length t. 0 < length (getInnerTable t j)"
    and "\<forall>j. x \<le> j \<and> j < length t \<and> \<not> 1 < length (getInnerTable t j)
             \<longrightarrow> findMasterTable t (Suc j) < length t"
  shows "fst (gapFill t x (B, M)) = None"
  using assms
proof (induction "length t - x" arbitrary: x B M)
  case 0
  then have "\<not> x < numX B" by (simp add: numX_def)
  then show ?case by (simp add: gapFill.simps [of t x B M])
next
  case (Suc n)
  then have x: "x < length t" by simp
  have n: "n = length t - Suc x" using Suc.hyps(2) by simp
  have nx: "numY B x = length (getInnerTable t x)" using Suc.prems x by simp
  have pos: "0 < length (getInnerTable t x)" using Suc.prems x by simp
  have later: "\<forall>j. Suc x \<le> j \<and> j < length t \<and> \<not> 1 < length (getInnerTable t j)
             \<longrightarrow> findMasterTable t (Suc j) < length t"
    using Suc.prems(5) by simp
  show ?case
  proof (cases "1 < length (getInnerTable t x)")
    case True
    have step: "gapFill t x (B, M) = gapFill t (Suc x) (B, M)"
      using x nx pos True Suc.prems(1)
      by (simp add: gapFill.simps [of t x B M] numX_def)
    have "fst (gapFill t (Suc x) (B, M)) = None"
      using Suc.prems(3) by (intro Suc.hyps(1) [OF n] Suc.prems(1,2,4) later) simp
    then show ?thesis by (simp add: step)
  next
    case False
    have noThrow: "\<not> length t \<le> findMasterTable t (Suc x)"
      using Suc.prems(5) x False by (simp add: not_le)
    let ?mt = "getInnerTable t (findMasterTable t (Suc x))"
    let ?ct = "getInnerTable t x"
    let ?B' = "addSamples x (map (scaledB ?mt ?ct) [1..<length ?mt]) B"
    let ?M' = "addSamples x (map (scaledMu ?mt ?ct) [1..<length ?mt]) M"
    have ext: "extendRow ?mt ?ct x 1 (B, M) = (?B', ?M')"
      using x Suc.prems(1,2) by (simp add: extendRow_eq)
    have step: "gapFill t x (B, M) = gapFill t (Suc x) (?B', ?M')"
      using x nx pos False noThrow Suc.prems(1) ext
      by (simp add: gapFill.simps [of t x B M] numX_def numRows_def Let_def)
    have orig': "\<forall>j. Suc x \<le> j \<and> j < length t \<longrightarrow> numY ?B' j = length (getInnerTable t j)"
      using Suc.prems(3) by (simp add: numY_def addSamples_nth_other)
    have "fst (gapFill t (Suc x) (?B', ?M')) = None"
      using Suc.prems(1,2)
      by (intro Suc.hyps(1) [OF n] Suc.prems(4) later orig') (simp_all add: addSamples_length)
    then show ?thesis by (simp add: step)
  qed
qed


lemma scaled_explicit:
  assumes "0 < length mt" "0 < length ct"
  shows "map (scaledB mt ct) [1..<length mt]
           = map (\<lambda>i. (fst (ct ! 0) * (fst (mt ! i) / fst (mt ! 0)),
                        1 / (fst (snd (ct ! 0)) * (fst (snd (mt ! i)) / fst (snd (mt ! 0))))))
               [1..<length mt]"
    and "map (scaledMu mt ct) [1..<length mt]
           = map (\<lambda>i. (fst (ct ! 0) * (fst (mt ! i) / fst (mt ! 0)),
                        snd (snd (ct ! 0)) * (snd (snd (mt ! i)) / snd (snd (mt ! 0)))))
               [1..<length mt]"
proof -
  have colsM: "getOilSolubilityColumn mt ! i = fst (mt ! i)"
    "getGasFormationFactorColumn mt ! i = fst (snd (mt ! i))"
    "getGasViscosityColumn mt ! i = snd (snd (mt ! i))" if "i < length mt" for i
    using that
    by (simp_all add: getOilSolubilityColumn_def getGasFormationFactorColumn_def
        getGasViscosityColumn_def)
  have colsC: "getOilSolubilityColumn ct ! 0 = fst (ct ! 0)"
    "getGasFormationFactorColumn ct ! 0 = fst (snd (ct ! 0))"
    "getGasViscosityColumn ct ! 0 = snd (snd (ct ! 0))"
    using assms(2)
    by (simp_all add: getOilSolubilityColumn_def getGasFormationFactorColumn_def
        getGasViscosityColumn_def)
  show "map (scaledB mt ct) [1..<length mt]
           = map (\<lambda>i. (fst (ct ! 0) * (fst (mt ! i) / fst (mt ! 0)),
                        1 / (fst (snd (ct ! 0)) * (fst (snd (mt ! i)) / fst (snd (mt ! 0))))))
               [1..<length mt]"
    by (rule map_cong [OF refl]) (simp add: scaledB_def colsM colsM [OF assms(1)] colsC)
  show "map (scaledMu mt ct) [1..<length mt]
           = map (\<lambda>i. (fst (ct ! 0) * (fst (mt ! i) / fst (mt ! 0)),
                        snd (snd (ct ! 0)) * (snd (snd (mt ! i)) / snd (snd (mt ! 0)))))
               [1..<length mt]"
    by (rule map_cong [OF refl]) (simp add: scaledMu_def colsM colsM [OF assms(1)] colsC)
qed

text \<open>
  C3. For a PVTG table with at least two outer rows, each with at least one inner
  sample (the assertions of the source), and an outer row \<open>xIdx\<close> with fewer than two
  inner samples. If \<open>m\<close> is the first later row with two or more inner samples, the
  search started at \<open>xIdx + 1\<close> returns \<open>m\<close>, and the row \<open>xIdx\<close> of both tables, as
  the initialization leaves them, is the sample of the deck followed by the points
  derived from the rows of the inner table \<open>m\<close> beyond its first. If no later row has
  two or more inner samples, the initialization throws the \<open>std::runtime_error\<close>, and
  the row \<open>xIdx\<close> of both tables holds the samples of the deck only. The initialization
  ends without an exception exactly when every outer row with fewer than two inner
  samples has a later row with two or more.
\<close>

theorem gapFill_master_or_error:
  assumes "1 < numRows pvtgTable"
    and "\<forall>j < numRows pvtgTable. 0 < numRows (getInnerTable pvtgTable j)"
    and "xIdx < numRows pvtgTable"
    and "numRows (getInnerTable pvtgTable xIdx) < 2"
  shows "(\<forall>m. xIdx < m \<and> m < numRows pvtgTable \<and> 2 \<le> numRows (getInnerTable pvtgTable m)
              \<and> (\<forall>j. xIdx < j \<and> j < m \<longrightarrow> numRows (getInnerTable pvtgTable j) < 2)
            \<longrightarrow> findMasterTable pvtgTable (xIdx + 1) = m
                \<and> (let masterTable = getInnerTable pvtgTable m;
                        curTable = getInnerTable pvtgTable xIdx
                    in snd (fst (snd (initFromDeckTables pvtgTable)) ! xIdx)
                         = map (\<lambda>r. (fst r, 1 / fst (snd r))) curTable
                           @ map (\<lambda>i. (fst (curTable ! 0) * (fst (masterTable ! i) / fst (masterTable ! 0)),
                                        1 / (fst (snd (curTable ! 0))
                                               * (fst (snd (masterTable ! i)) / fst (snd (masterTable ! 0))))))
                               [1..<numRows masterTable]
                       \<and> snd (snd (snd (initFromDeckTables pvtgTable)) ! xIdx)
                         = map (\<lambda>r. (fst r, snd (snd r))) curTable
                           @ map (\<lambda>i. (fst (curTable ! 0) * (fst (masterTable ! i) / fst (masterTable ! 0)),
                                        snd (snd (curTable ! 0))
                                          * (snd (snd (masterTable ! i)) / snd (snd (masterTable ! 0)))))
                               [1..<numRows masterTable]))
         \<and> ((\<forall>j. xIdx < j \<and> j < numRows pvtgTable \<longrightarrow> numRows (getInnerTable pvtgTable j) < 2)
            \<longrightarrow> fst (initFromDeckTables pvtgTable) = Some (RuntimeError noMasterMessage)
                \<and> snd (fst (snd (initFromDeckTables pvtgTable)) ! xIdx)
                    = map (\<lambda>r. (fst r, 1 / fst (snd r))) (getInnerTable pvtgTable xIdx)
                \<and> snd (snd (snd (initFromDeckTables pvtgTable)) ! xIdx)
                    = map (\<lambda>r. (fst r, snd (snd r))) (getInnerTable pvtgTable xIdx))
         \<and> (fst (initFromDeckTables pvtgTable) = None
            \<longleftrightarrow> (\<forall>y < numRows pvtgTable. numRows (getInnerTable pvtgTable y) < 2
                   \<longrightarrow> (\<exists>m. y < m \<and> m < numRows pvtgTable
                            \<and> 2 \<le> numRows (getInnerTable pvtgTable m))))"
proof (intro conjI allI impI)
  fix m
  assume m: "xIdx < m \<and> m < numRows pvtgTable \<and> 2 \<le> numRows (getInnerTable pvtgTable m)
              \<and> (\<forall>j. xIdx < j \<and> j < m \<longrightarrow> numRows (getInnerTable pvtgTable j) < 2)"
  have both: "findMasterTable pvtgTable (xIdx + 1) = m
        \<and> (let masterTable = getInnerTable pvtgTable m;
                curTable = getInnerTable pvtgTable xIdx
            in snd (fst (snd (initFromDeckTables pvtgTable)) ! xIdx)
                 = map (\<lambda>r. (fst r, 1 / fst (snd r))) curTable
                   @ map (\<lambda>i. (fst (curTable ! 0) * (fst (masterTable ! i) / fst (masterTable ! 0)),
                                1 / (fst (snd (curTable ! 0))
                                       * (fst (snd (masterTable ! i)) / fst (snd (masterTable ! 0))))))
                       [1..<numRows masterTable]
               \<and> snd (snd (snd (initFromDeckTables pvtgTable)) ! xIdx)
                 = map (\<lambda>r. (fst r, snd (snd r))) curTable
                   @ map (\<lambda>i. (fst (curTable ! 0) * (fst (masterTable ! i) / fst (masterTable ! 0)),
                                snd (snd (curTable ! 0))
                                  * (snd (snd (masterTable ! i)) / snd (snd (masterTable ! 0)))))
                       [1..<numRows masterTable])"
  proof -
    let ?t = pvtgTable
    let ?mt = "getInnerTable ?t m"
    let ?ct = "getInnerTable ?t xIdx"
    have fm: "findMasterTable ?t (Suc xIdx) = m"
    proof (rule findMasterTable_first)
      show "Suc xIdx \<le> m" using m by simp
      show "m < length ?t" using m by (simp add: numRows_def)
      show "1 < length (getInnerTable ?t m)" using m by (simp add: numRows_def)
      show "\<forall>j. Suc xIdx \<le> j \<and> j < m \<longrightarrow> \<not> 1 < length (getInnerTable ?t j)"
      proof (intro allI impI)
        fix j assume "Suc xIdx \<le> j \<and> j < m"
        then have "xIdx < j \<and> j < m" by simp
        with m have "numRows (getInnerTable ?t j) < 2" by blast
        then show "\<not> 1 < length (getInnerTable ?t j)" by (simp add: numRows_def)
      qed
    qed
    have x: "xIdx < length ?t" using assms(3) by (simp add: numRows_def)
    have few: "\<not> 1 < length ?ct" using assms(4) by (simp add: numRows_def)
    have pos: "0 < length ?ct" using assms(2,3) by (simp add: numRows_def)
    have "2 \<le> length ?mt" using m by (simp add: numRows_def)
    then have m0: "0 < length ?mt" by arith
    have mlt: "findMasterTable ?t (Suc xIdx) < length ?t"
      using m by (simp add: fm numRows_def)
    have ext:
      "fst (snd (gapFill ?t 0 (extractedB ?t, extractedMu ?t))) ! xIdx
         = (fst (extractedB ?t ! xIdx),
            snd (extractedB ?t ! xIdx)
              @ map (scaledB (masterOf ?t xIdx) ?ct) [1..<length (masterOf ?t xIdx)])
       \<and> snd (snd (gapFill ?t 0 (extractedB ?t, extractedMu ?t))) ! xIdx
         = (fst (extractedMu ?t ! xIdx),
            snd (extractedMu ?t ! xIdx)
              @ map (scaledMu (masterOf ?t xIdx) ?ct) [1..<length (masterOf ?t xIdx)])"
    proof (rule gapFill_extends)
      show "\<forall>j. 0 \<le> j \<and> j < length ?t
              \<longrightarrow> numY (extractedB ?t) j = length (getInnerTable ?t j)"
        by (simp add: extracted_facts)
      show "\<forall>j<length ?t. 0 < length (getInnerTable ?t j)"
        using assms(2) by (simp add: numRows_def)
      show "\<not> 1 < length (getInnerTable ?t xIdx)" by (rule few)
      show "xIdx < length ?t" by (rule x)
      show "findMasterTable ?t (Suc xIdx) < length ?t" by (rule mlt)
    qed (simp_all add: extracted_facts)
    have mo: "masterOf ?t xIdx = ?mt" by (simp add: masterOf_def fm)
    have rowB: "snd (fst (snd (initFromDeckTables ?t)) ! xIdx)
                  = samplesB ?ct @ map (scaledB ?mt ?ct) [1..<length ?mt]"
      using ext x by (simp add: initFromDeckTables_eq [OF assms(1)] extracted_facts mo)
    have rowMu: "snd (snd (snd (initFromDeckTables ?t)) ! xIdx)
                  = samplesMu ?ct @ map (scaledMu ?mt ?ct) [1..<length ?mt]"
      using ext x by (simp add: initFromDeckTables_eq [OF assms(1)] extracted_facts mo)
    show ?thesis
      unfolding Let_def rowB rowMu scaled_explicit [OF m0 pos] numRows_def
      using fm by (simp add: samplesB_def samplesMu_def)
  qed
  show "findMasterTable pvtgTable (xIdx + 1) = m"
    using both by (rule conjunct1)
  show "let masterTable = getInnerTable pvtgTable m;
            curTable = getInnerTable pvtgTable xIdx
        in snd (fst (snd (initFromDeckTables pvtgTable)) ! xIdx)
             = map (\<lambda>r. (fst r, 1 / fst (snd r))) curTable
               @ map (\<lambda>i. (fst (curTable ! 0) * (fst (masterTable ! i) / fst (masterTable ! 0)),
                            1 / (fst (snd (curTable ! 0))
                                   * (fst (snd (masterTable ! i)) / fst (snd (masterTable ! 0))))))
                   [1..<numRows masterTable]
           \<and> snd (snd (snd (initFromDeckTables pvtgTable)) ! xIdx)
             = map (\<lambda>r. (fst r, snd (snd r))) curTable
               @ map (\<lambda>i. (fst (curTable ! 0) * (fst (masterTable ! i) / fst (masterTable ! 0)),
                            snd (snd (curTable ! 0))
                              * (snd (snd (masterTable ! i)) / snd (snd (masterTable ! 0)))))
                   [1..<numRows masterTable]"
    using both by (rule conjunct2)
next
  assume none: "\<forall>j. xIdx < j \<and> j < numRows pvtgTable
                  \<longrightarrow> numRows (getInnerTable pvtgTable j) < 2"
  have noMaster: "length pvtgTable \<le> findMasterTable pvtgTable (Suc xIdx)"
  proof (rule findMasterTable_none, intro allI impI)
    fix j assume "Suc xIdx \<le> j \<and> j < length pvtgTable"
    then have "xIdx < j \<and> j < numRows pvtgTable" by (simp add: numRows_def)
    with none have "numRows (getInnerTable pvtgTable j) < 2" by blast
    then show "\<not> 1 < length (getInnerTable pvtgTable j)" by (simp add: numRows_def)
  qed
  have fails:
    "fst (gapFill pvtgTable 0 (extractedB pvtgTable, extractedMu pvtgTable))
       = Some (RuntimeError noMasterMessage)
     \<and> fst (snd (gapFill pvtgTable 0 (extractedB pvtgTable, extractedMu pvtgTable))) ! xIdx
       = extractedB pvtgTable ! xIdx
     \<and> snd (snd (gapFill pvtgTable 0 (extractedB pvtgTable, extractedMu pvtgTable))) ! xIdx
       = extractedMu pvtgTable ! xIdx"
  proof (rule gapFill_fails)
    show "\<forall>j. 0 \<le> j \<and> j < length pvtgTable
            \<longrightarrow> numY (extractedB pvtgTable) j = length (getInnerTable pvtgTable j)"
      by (simp add: extracted_facts)
    show "\<forall>j<length pvtgTable. 0 < length (getInnerTable pvtgTable j)"
      using assms(2) by (simp add: numRows_def)
    show "\<not> 1 < length (getInnerTable pvtgTable xIdx)"
      using assms(4) by (simp add: numRows_def)
    show "xIdx < length pvtgTable" using assms(3) by (simp add: numRows_def)
  qed (simp_all add: extracted_facts noMaster)
  have x: "xIdx < length pvtgTable" using assms(3) by (simp add: numRows_def)
  show "fst (initFromDeckTables pvtgTable) = Some (RuntimeError noMasterMessage)"
    using fails by (simp add: initFromDeckTables_eq [OF assms(1)])
  show "snd (fst (snd (initFromDeckTables pvtgTable)) ! xIdx)
          = map (\<lambda>r. (fst r, 1 / fst (snd r))) (getInnerTable pvtgTable xIdx)"
    using fails x by (simp add: initFromDeckTables_eq [OF assms(1)] extracted_facts samplesB_def)
  show "snd (snd (snd (initFromDeckTables pvtgTable)) ! xIdx)
          = map (\<lambda>r. (fst r, snd (snd r))) (getInnerTable pvtgTable xIdx)"
    using fails x by (simp add: initFromDeckTables_eq [OF assms(1)] extracted_facts samplesMu_def)
next
  let ?t = pvtgTable
  have eq: "initFromDeckTables ?t = gapFill ?t 0 (extractedB ?t, extractedMu ?t)"
    by (rule initFromDeckTables_eq [OF assms(1)])
  have later: "(\<exists>m. y < m \<and> m < numRows ?t \<and> 2 \<le> numRows (getInnerTable ?t m))
                 \<longleftrightarrow> findMasterTable ?t (Suc y) < length ?t" for y
    unfolding findMasterTable_exists numRows_def
    by (metis Suc_le_eq Suc_1 less_eq_Suc_le)
  show "fst (initFromDeckTables ?t) = None
          \<longleftrightarrow> (\<forall>y < numRows ?t. numRows (getInnerTable ?t y) < 2
                 \<longrightarrow> (\<exists>m. y < m \<and> m < numRows ?t \<and> 2 \<le> numRows (getInnerTable ?t m)))"
  proof
    assume "fst (initFromDeckTables ?t) = None"
    then have ok: "fst (gapFill ?t 0 (extractedB ?t, extractedMu ?t)) = None"
      using eq by simp
    have succ:
      "(\<forall>j < length ?t.
          fst (snd (gapFill ?t 0 (extractedB ?t, extractedMu ?t))) ! j = filledB ?t 0 (extractedB ?t) j
          \<and> snd (snd (gapFill ?t 0 (extractedB ?t, extractedMu ?t))) ! j
              = filledMu ?t 0 (extractedMu ?t) j)
       \<and> (\<forall>j. 0 \<le> j \<and> j < length ?t \<and> \<not> 1 < length (getInnerTable ?t j)
              \<longrightarrow> findMasterTable ?t (Suc j) < length ?t)"
      by (rule gapFill_succeeds [OF _ _ _ ok]) (simp_all add: extracted_facts)
    show "\<forall>y < numRows ?t. numRows (getInnerTable ?t y) < 2
            \<longrightarrow> (\<exists>m. y < m \<and> m < numRows ?t \<and> 2 \<le> numRows (getInnerTable ?t m))"
    proof (intro allI impI)
      fix y assume y: "y < numRows ?t" "numRows (getInnerTable ?t y) < 2"
      then have "findMasterTable ?t (Suc y) < length ?t"
        using succ by (simp add: numRows_def)
      then show "\<exists>m. y < m \<and> m < numRows ?t \<and> 2 \<le> numRows (getInnerTable ?t m)"
        unfolding later .
    qed
  next
    assume all: "\<forall>y < numRows ?t. numRows (getInnerTable ?t y) < 2
            \<longrightarrow> (\<exists>m. y < m \<and> m < numRows ?t \<and> 2 \<le> numRows (getInnerTable ?t m))"
    have "fst (gapFill ?t 0 (extractedB ?t, extractedMu ?t)) = None"
    proof (rule gapFill_total)
      show "\<forall>j. 0 \<le> j \<and> j < length ?t
              \<longrightarrow> numY (extractedB ?t) j = length (getInnerTable ?t j)"
        by (simp add: extracted_facts)
      show "\<forall>j<length ?t. 0 < length (getInnerTable ?t j)"
        using assms(2) by (simp add: numRows_def)
      show "\<forall>j. 0 \<le> j \<and> j < length ?t \<and> \<not> 1 < length (getInnerTable ?t j)
              \<longrightarrow> findMasterTable ?t (Suc j) < length ?t"
      proof (intro allI impI)
        fix j assume j: "0 \<le> j \<and> j < length ?t \<and> \<not> 1 < length (getInnerTable ?t j)"
        then have "j < numRows ?t" "numRows (getInnerTable ?t j) < 2"
          by (simp_all add: numRows_def)
        with all have "\<exists>m. j < m \<and> m < numRows ?t \<and> 2 \<le> numRows (getInnerTable ?t m)"
          by blast
        then show "findMasterTable ?t (Suc j) < length ?t"
          unfolding later .
      qed
    qed (simp_all add: extracted_facts)
    then show "fst (initFromDeckTables ?t) = None"
      using eq by simp
  qed
qed

text \<open>
  The example with four rows: the search for row 0 skips row 1 and takes row 2, and
  row 0 gets its point from row 2; row 3 has no later row, the initialization throws,
  and row 3 is unchanged. The example with two rows is initialized without an
  exception.
\<close>

theorem gapFill_master_or_error_witness:
  "1 < numRows exampleTable4
   \<and> numRows (getInnerTable exampleTable4 0) = 1
   \<and> numRows (getInnerTable exampleTable4 1) = 1
   \<and> numRows (getInnerTable exampleTable4 2) = 2
   \<and> numRows (getInnerTable exampleTable4 3) = 1
   \<and> findMasterTable exampleTable4 (0 + 1) = 2
   \<and> snd (fst (snd (initFromDeckTables exampleTable4)) ! 0) = [(1, 1 / 2), (1 / 2, 2 / 5)]
   \<and> snd (snd (snd (initFromDeckTables exampleTable4)) ! 0) = [(1, 3), (1 / 2, 7 / 2)]
   \<and> fst (initFromDeckTables exampleTable4) = Some (RuntimeError noMasterMessage)
   \<and> snd (fst (snd (initFromDeckTables exampleTable4)) ! 3) = [(3, 1)]
   \<and> snd (snd (snd (initFromDeckTables exampleTable4)) ! 3) = [(3, 1)]
   \<and> fst (initFromDeckTables exampleTable2) = None"
proof -
  have rows: "numRows exampleTable4 = 4"
    by (simp add: exampleTable4_def numRows_def)
  have inner: "getInnerTable exampleTable4 0 = [(1, 2, 3)]"
    "getInnerTable exampleTable4 (Suc 0) = [(2, 2, 4)]"
    "getInnerTable exampleTable4 2 = [(2, 4, 6), (1, 5, 7)]"
    "getInnerTable exampleTable4 3 = [(3, 1, 1)]"
    by (simp_all add: exampleTable4_def getInnerTable_def)
  have ir: "numRows (getInnerTable exampleTable4 0) = 1"
    "numRows (getInnerTable exampleTable4 (Suc 0)) = 1"
    "numRows (getInnerTable exampleTable4 2) = 2"
    "numRows (getInnerTable exampleTable4 3) = 1"
    by (simp_all add: inner numRows_def)
  have h1: "1 < numRows exampleTable4" by (simp add: rows)
  have h2: "\<forall>j < numRows exampleTable4. 0 < numRows (getInnerTable exampleTable4 j)"
    by code_simp
  have h0: "numRows (getInnerTable exampleTable4 0) < 2"
    and h3: "numRows (getInnerTable exampleTable4 3) < 2"
    by (simp_all add: ir)
  have skipped: "\<forall>j. 0 < j \<and> j < 2 \<longrightarrow> numRows (getInnerTable exampleTable4 j) < 2"
  proof (intro allI impI)
    fix j :: nat assume "0 < j \<and> j < 2"
    then have "j = Suc 0" by simp
    then show "numRows (getInnerTable exampleTable4 j) < 2" by (simp add: ir)
  qed
  note at0 = gapFill_master_or_error [OF h1 h2 _ h0, THEN conjunct1, rule_format, of 2]
  note at3 = gapFill_master_or_error [OF h1 h2 _ h3, THEN conjunct2, THEN conjunct1, rule_format]
  have "findMasterTable exampleTable4 (0 + 1) = 2
        \<and> (let masterTable = getInnerTable exampleTable4 2;
                curTable = getInnerTable exampleTable4 0
            in snd (fst (snd (initFromDeckTables exampleTable4)) ! 0)
                 = map (\<lambda>r. (fst r, 1 / fst (snd r))) curTable
                   @ map (\<lambda>i. (fst (curTable ! 0) * (fst (masterTable ! i) / fst (masterTable ! 0)),
                                1 / (fst (snd (curTable ! 0))
                                       * (fst (snd (masterTable ! i)) / fst (snd (masterTable ! 0))))))
                       [1..<numRows masterTable]
               \<and> snd (snd (snd (initFromDeckTables exampleTable4)) ! 0)
                 = map (\<lambda>r. (fst r, snd (snd r))) curTable
                   @ map (\<lambda>i. (fst (curTable ! 0) * (fst (masterTable ! i) / fst (masterTable ! 0)),
                                snd (snd (curTable ! 0))
                                  * (snd (snd (masterTable ! i)) / snd (snd (masterTable ! 0)))))
                       [1..<numRows masterTable])"
    by (rule at0) (simp_all add: rows ir skipped)
  then have f0: "findMasterTable exampleTable4 (0 + 1) = 2
     \<and> snd (fst (snd (initFromDeckTables exampleTable4)) ! 0) = [(1, 1 / 2), (1 / 2, 2 / 5)]
     \<and> snd (snd (snd (initFromDeckTables exampleTable4)) ! 0) = [(1, 3), (1 / 2, 7 / 2)]"
    by (simp add: inner Let_def numRows_def upt_conv_Cons)
  have "fst (initFromDeckTables exampleTable4) = Some (RuntimeError noMasterMessage)
     \<and> snd (fst (snd (initFromDeckTables exampleTable4)) ! 3)
         = map (\<lambda>r. (fst r, 1 / fst (snd r))) (getInnerTable exampleTable4 3)
     \<and> snd (snd (snd (initFromDeckTables exampleTable4)) ! 3)
         = map (\<lambda>r. (fst r, snd (snd r))) (getInnerTable exampleTable4 3)"
    by (rule at3) (simp_all add: rows)
  then have f3: "fst (initFromDeckTables exampleTable4) = Some (RuntimeError noMasterMessage)
     \<and> snd (fst (snd (initFromDeckTables exampleTable4)) ! 3) = [(3, 1)]
     \<and> snd (snd (snd (initFromDeckTables exampleTable4)) ! 3) = [(3, 1)]"
    by (simp add: inner)
  have rows2: "numRows exampleTable2 = 2"
    by (simp add: exampleTable2_def numRows_def)
  have ir2: "numRows (getInnerTable exampleTable2 0) = 1"
    "numRows (getInnerTable exampleTable2 (Suc 0)) = 2"
    by (simp_all add: exampleTable2_def getInnerTable_def numRows_def)
  have g1: "1 < numRows exampleTable2" by (simp add: rows2)
  have g2: "\<forall>j < numRows exampleTable2. 0 < numRows (getInnerTable exampleTable2 j)"
    by code_simp
  have g3: "0 < numRows exampleTable2" by (simp add: rows2)
  have g4: "numRows (getInnerTable exampleTable2 0) < 2" by (simp add: ir2)
  have all2: "\<forall>y < numRows exampleTable2. numRows (getInnerTable exampleTable2 y) < 2
                \<longrightarrow> (\<exists>m. y < m \<and> m < numRows exampleTable2
                         \<and> 2 \<le> numRows (getInnerTable exampleTable2 m))"
  proof (intro allI impI)
    fix y assume y: "y < numRows exampleTable2" "numRows (getInnerTable exampleTable2 y) < 2"
    then have "y = 0 \<or> y = Suc 0" by (auto simp: rows2)
    then have "y = 0" using y(2) ir2 by auto
    then show "\<exists>m. y < m \<and> m < numRows exampleTable2
                 \<and> 2 \<le> numRows (getInnerTable exampleTable2 m)"
      by (intro exI [of _ "Suc 0"]) (simp add: rows2 ir2)
  qed
  have f2: "fst (initFromDeckTables exampleTable2) = None"
    using gapFill_master_or_error [OF g1 g2 g3 g4, THEN conjunct2, THEN conjunct2] all2
    by blast
  show ?thesis
    using h1 f0 f3 f2 by (simp add: ir)
qed

lemma gapFill_succeeds_nonempty:
  assumes "length B = length t" "length M = length t"
    and "\<forall>j. x \<le> j \<and> j < length t \<longrightarrow> numY B j = length (getInnerTable t j)"
    and "fst (gapFill t x (B, M)) = None"
    and "x \<le> y" "y < length t"
  shows "0 < length (getInnerTable t y)"
  using assms
proof (induction "y - x" arbitrary: x B M)
  case 0
  then have xy: "x = y" by simp
  show ?case
  proof (rule ccontr)
    assume "\<not> 0 < length (getInnerTable t y)"
    then have "fst (gapFill t y (B, M)) = Some AssertionFailure"
      using "0.prems" xy by (simp add: gapFill.simps [of t y B M] numX_def)
    then show False using "0.prems"(4) xy by simp
  qed
next
  case (Suc n)
  then have x: "x < y" "x < length t" by simp_all
  have n: "n = y - Suc x" using Suc.hyps(2) by simp
  have nx: "numY B x = length (getInnerTable t x)" using Suc.prems x by simp
  have pos: "0 < length (getInnerTable t x)"
  proof (rule ccontr)
    assume "\<not> 0 < length (getInnerTable t x)"
    then have "fst (gapFill t x (B, M)) = Some AssertionFailure"
      using x nx Suc.prems(1) by (simp add: gapFill.simps [of t x B M] numX_def)
    then show False using Suc.prems(4) by simp
  qed
  show ?case
  proof (cases "1 < length (getInnerTable t x)")
    case True
    have step: "gapFill t x (B, M) = gapFill t (Suc x) (B, M)"
      using x nx pos True Suc.prems(1)
      by (simp add: gapFill.simps [of t x B M] numX_def)
    show ?thesis
      using Suc.prems x by (intro Suc.hyps(1) [OF n, of B M]) (simp_all add: step)
  next
    case False
    have noThrow: "\<not> length t \<le> findMasterTable t (Suc x)"
    proof
      assume "length t \<le> findMasterTable t (Suc x)"
      then have "fst (gapFill t x (B, M)) = Some (RuntimeError noMasterMessage)"
        using x nx pos False Suc.prems(1)
        by (simp add: gapFill.simps [of t x B M] numX_def numRows_def Let_def)
      then show False using Suc.prems(4) by simp
    qed
    let ?mt = "getInnerTable t (findMasterTable t (Suc x))"
    let ?ct = "getInnerTable t x"
    let ?B' = "addSamples x (map (scaledB ?mt ?ct) [1..<length ?mt]) B"
    let ?M' = "addSamples x (map (scaledMu ?mt ?ct) [1..<length ?mt]) M"
    have ext: "extendRow ?mt ?ct x 1 (B, M) = (?B', ?M')"
      using x Suc.prems(1,2) by (simp add: extendRow_eq)
    have step: "gapFill t x (B, M) = gapFill t (Suc x) (?B', ?M')"
      using x nx pos False noThrow Suc.prems(1) ext
      by (simp add: gapFill.simps [of t x B M] numX_def numRows_def Let_def)
    have orig': "\<forall>j. Suc x \<le> j \<and> j < length t \<longrightarrow> numY ?B' j = length (getInnerTable t j)"
      using Suc.prems(3) by (simp add: numY_def addSamples_nth_other)
    show ?thesis
      using Suc.prems x
      by (intro Suc.hyps(1) [OF n, of ?B' ?M'] orig') (simp_all add: addSamples_length step)
  qed
qed

text \<open>
  C4. When the initialization succeeds and the outer row \<open>xIdx\<close> has fewer than two
  inner samples, its master row exists and has two or more samples, and the row
  \<open>xIdx\<close> of the table of inverse formation volume factors holds its own sample
  followed, for each sample \<open>i\<close> of the master row beyond the first, by
  \<open>(newRv, 1 / newBg)\<close>, and the row of the viscosity table by \<open>(newRv, newMug)\<close>, where
  \<open>newRv = curRv0 * (masterRv[i] / masterRv[0])\<close>,
  \<open>newBg = curBg0 * (masterBg[i] / masterBg[0])\<close> and
  \<open>newMug = curMug0 * (masterMug[i] / masterMug[0])\<close>.
\<close>

theorem gapFill_scaled_points:
  assumes "fst (initFromDeckTables pvtgTable) = None"
    and "xIdx < numRows pvtgTable"
    and "numRows (getInnerTable pvtgTable xIdx) < 2"
  shows "let masterTableIdx = findMasterTable pvtgTable (xIdx + 1);
             masterTable = getInnerTable pvtgTable masterTableIdx;
             curTable = getInnerTable pvtgTable xIdx;
             curRv0 = fst (curTable ! 0);
             curBg0 = fst (snd (curTable ! 0));
             curMug0 = snd (snd (curTable ! 0));
             masterRv = (\<lambda>i. fst (masterTable ! i));
             masterBg = (\<lambda>i. fst (snd (masterTable ! i)));
             masterMug = (\<lambda>i. snd (snd (masterTable ! i)))
         in masterTableIdx < numRows pvtgTable \<and> 2 \<le> numRows masterTable
            \<and> snd (fst (snd (initFromDeckTables pvtgTable)) ! xIdx)
                = (curRv0, 1 / curBg0)
                  # map (\<lambda>i. (curRv0 * (masterRv i / masterRv 0),
                               1 / (curBg0 * (masterBg i / masterBg 0))))
                      [1..<numRows masterTable]
            \<and> snd (snd (snd (initFromDeckTables pvtgTable)) ! xIdx)
                = (curRv0, curMug0)
                  # map (\<lambda>i. (curRv0 * (masterRv i / masterRv 0),
                               curMug0 * (masterMug i / masterMug 0)))
                      [1..<numRows masterTable]"
proof -
  let ?t = pvtgTable
  let ?mi = "findMasterTable ?t (Suc xIdx)"
  let ?mt = "getInnerTable ?t ?mi"
  let ?ct = "getInnerTable ?t xIdx"
  have rows: "1 < numRows ?t" by (rule initFromDeckTables_None_rows [OF assms(1)])
  have eq: "initFromDeckTables ?t = gapFill ?t 0 (extractedB ?t, extractedMu ?t)"
    by (rule initFromDeckTables_eq [OF rows])
  have x: "xIdx < length ?t" using assms(2) by (simp add: numRows_def)
  have few: "\<not> 1 < length ?ct" using assms(3) by (simp add: numRows_def)
  have ok: "fst (gapFill ?t 0 (extractedB ?t, extractedMu ?t)) = None"
    using assms(1) eq by simp
  have succ:
    "(\<forall>j < length ?t.
        fst (snd (gapFill ?t 0 (extractedB ?t, extractedMu ?t))) ! j = filledB ?t 0 (extractedB ?t) j
        \<and> snd (snd (gapFill ?t 0 (extractedB ?t, extractedMu ?t))) ! j
            = filledMu ?t 0 (extractedMu ?t) j)
     \<and> (\<forall>j. 0 \<le> j \<and> j < length ?t \<and> \<not> 1 < length (getInnerTable ?t j)
            \<longrightarrow> findMasterTable ?t (Suc j) < length ?t)"
    by (rule gapFill_succeeds [OF _ _ _ ok]) (simp_all add: extracted_facts)
  have mi: "?mi < length ?t" using succ x few by blast
  have mt: "1 < length ?mt" by (rule findMasterTable_found [OF mi])
  have pos: "0 < length ?ct"
    by (rule gapFill_succeeds_nonempty [OF _ _ _ ok _ x]) (simp_all add: extracted_facts)
  have ct: "?ct = [?ct ! 0]"
    using pos few by (cases ?ct) auto
  have colsM: "getOilSolubilityColumn ?mt ! i = fst (?mt ! i)"
    "getGasFormationFactorColumn ?mt ! i = fst (snd (?mt ! i))"
    "getGasViscosityColumn ?mt ! i = snd (snd (?mt ! i))" if "i < length ?mt" for i
    using that
    by (simp_all add: getOilSolubilityColumn_def getGasFormationFactorColumn_def
        getGasViscosityColumn_def)
  have colsC: "getOilSolubilityColumn ?ct ! 0 = fst (?ct ! 0)"
    "getGasFormationFactorColumn ?ct ! 0 = fst (snd (?ct ! 0))"
    "getGasViscosityColumn ?ct ! 0 = snd (snd (?ct ! 0))"
    using pos
    by (simp_all add: getOilSolubilityColumn_def getGasFormationFactorColumn_def
        getGasViscosityColumn_def)
  have m0: "0 < length ?mt" using mt by (cases ?mt) simp_all
  have newB: "map (scaledB ?mt ?ct) [1..<length ?mt]
      = map (\<lambda>i. (fst (?ct ! 0) * (fst (?mt ! i) / fst (?mt ! 0)),
                   1 / (fst (snd (?ct ! 0)) * (fst (snd (?mt ! i)) / fst (snd (?mt ! 0))))))
          [1..<length ?mt]"
    by (rule map_cong [OF refl]) (simp add: scaledB_def colsM colsM [OF m0] colsC)
  have newMu: "map (scaledMu ?mt ?ct) [1..<length ?mt]
      = map (\<lambda>i. (fst (?ct ! 0) * (fst (?mt ! i) / fst (?mt ! 0)),
                   snd (snd (?ct ! 0)) * (snd (snd (?mt ! i)) / snd (snd (?mt ! 0)))))
          [1..<length ?mt]"
    by (rule map_cong [OF refl]) (simp add: scaledMu_def colsM colsM [OF m0] colsC)
  have ownB: "samplesB ?ct = [(fst (?ct ! 0), 1 / fst (snd (?ct ! 0)))]"
    by (subst ct) (simp add: samplesB_def)
  have ownMu: "samplesMu ?ct = [(fst (?ct ! 0), snd (snd (?ct ! 0)))]"
    by (subst ct) (simp add: samplesMu_def)
  have rowB: "snd (fst (snd (initFromDeckTables ?t)) ! xIdx)
                = samplesB ?ct @ map (scaledB ?mt ?ct) [1..<length ?mt]"
    using succ x few by (simp add: eq filledB_def masterOf_def extracted_facts)
  have rowMu: "snd (snd (snd (initFromDeckTables ?t)) ! xIdx)
                = samplesMu ?ct @ map (scaledMu ?mt ?ct) [1..<length ?mt]"
    using succ x few by (simp add: eq filledMu_def masterOf_def extracted_facts)
  show ?thesis
    unfolding Let_def rowB rowMu newB newMu ownB ownMu
    using mi mt by (simp add: numRows_def)
qed

text \<open>
  The example with two rows: row 0 with the sample \<open>(1, 2, 3)\<close> gets from the master
  row \<open>(2, 4, 6), (1, 5, 7)\<close> the point \<open>newRv = 1/2\<close>, \<open>newBg = 5/2\<close>, \<open>newMug = 7/2\<close>.
\<close>

theorem gapFill_scaled_points_witness:
  "fst (initFromDeckTables exampleTable2) = None
   \<and> numRows (getInnerTable exampleTable2 0) = 1
   \<and> findMasterTable exampleTable2 (0 + 1) = 1
   \<and> getInnerTable exampleTable2 1 = [(2, 4, 6), (1, 5, 7)]
   \<and> snd (fst (snd (initFromDeckTables exampleTable2)) ! 0) = [(1, 1 / 2), (1 / 2, 2 / 5)]
   \<and> snd (snd (snd (initFromDeckTables exampleTable2)) ! 0) = [(1, 3), (1 / 2, 7 / 2)]"
proof -
  have ok: "fst (initFromDeckTables exampleTable2) = None"
    by code_simp
  have x: "0 < numRows exampleTable2"
    by (simp add: exampleTable2_def numRows_def)
  have ir: "numRows (getInnerTable exampleTable2 0) = 1"
    by (simp add: exampleTable2_def getInnerTable_def numRows_def)
  have few: "numRows (getInnerTable exampleTable2 0) < 2"
    by (simp add: ir)
  have m: "findMasterTable exampleTable2 (Suc 0) = Suc 0"
    by code_simp
  have inner: "getInnerTable exampleTable2 0 = [(1, 2, 3)]"
    "getInnerTable exampleTable2 (Suc 0) = [(2, 4, 6), (1, 5, 7)]"
    by (simp_all add: exampleTable2_def getInnerTable_def)
  have up: "[Suc 0..<2] = [Suc 0]"
    by (simp add: upt_conv_Cons)
  show ?thesis
    using gapFill_scaled_points [OF ok x few] ok ir
    by (simp add: Let_def m inner numRows_def up)
qed

end
